(* ===== verification/Prelude.thy ===== *)
theory Prelude
  imports Main "HOL-Library.Word"
begin

text \<open>
  Shared vocabulary of the development: octets and octet strings, results with an error side,
  slices, the big-endian integers of the wire format, and the generic lemmas on lists and words
  that the component theories use. The collection \<open>wire\<close> gathers the rewrite rules about octet
  lists of known length.
\<close>

named_theorems wire \<open>rewrite rules on wire-format octet lists\<close>

section \<open>Octets and results\<close>

type_synonym u8 = "8 word"
type_synonym u16 = "16 word"
type_synonym u32 = "32 word"
type_synonym bytes = "u8 list"

text \<open>
  Rust's \<open>Result<T, E>\<close> is \<open>'e + 'a\<close>, the error on the left; the operator \<open>?\<close> is
  \<open>and_then\<close>.
\<close>

fun and_then :: "'e + 'a \<Rightarrow> ('a \<Rightarrow> 'e + 'b) \<Rightarrow> 'e + 'b" where
  "and_then (Inl e) f = Inl e"
| "and_then (Inr a) f = f a"

fun map_err :: "('e \<Rightarrow> 'f) \<Rightarrow> 'e + 'a \<Rightarrow> 'f + 'a" where
  "map_err g (Inl e) = Inl (g e)"
| "map_err g (Inr a) = Inr a"

fun ok_or :: "'e \<Rightarrow> 'a option \<Rightarrow> 'e + 'a" where
  "ok_or e None = Inl e"
| "ok_or e (Some a) = Inr a"

fun is_ok :: "'e + 'a \<Rightarrow> bool" where
  "is_ok (Inl e) = False"
| "is_ok (Inr a) = True"

lemma and_then_Inr: "and_then m f = Inr b \<longleftrightarrow> (\<exists>a. m = Inr a \<and> f a = Inr b)"
  by (cases m) auto

lemma and_then_Inl: "and_then m f = Inl e \<longleftrightarrow> m = Inl e \<or> (\<exists>a. m = Inr a \<and> f a = Inl e)"
  by (cases m) auto

lemma and_then_assoc: "and_then (and_then m f) g = and_then m (\<lambda>x. and_then (f x) g)"
  by (cases m) auto

lemma and_then_Inr_right [simp]: "and_then m Inr = m"
  by (cases m) auto

lemma map_err_Inr [simp]: "map_err g m = Inr a \<longleftrightarrow> m = Inr a"
  by (cases m) auto

lemma map_err_Inl: "map_err g m = Inl e' \<longleftrightarrow> (\<exists>e. m = Inl e \<and> e' = g e)"
  by (cases m) auto

lemma ok_or_Inr [simp]: "ok_or e x = Inr a \<longleftrightarrow> x = Some a"
  by (cases x) auto

lemma ok_or_Inl [simp]: "ok_or e x = Inl e' \<longleftrightarrow> x = None \<and> e' = e"
  by (cases x) auto

lemma is_ok_iff: "is_ok m \<longleftrightarrow> (\<exists>a. m = Inr a)"
  by (cases m) auto

section \<open>Slices and fixed-size arrays\<close>

text \<open>\<open>slice a b xs\<close> is \<open>&xs[a..b]\<close> for \<open>a \<le> b \<le> length xs\<close>.\<close>

definition slice :: "nat \<Rightarrow> nat \<Rightarrow> 'a list \<Rightarrow> 'a list" where
  "slice a b xs = take (b - a) (drop a xs)"

lemma length_slice [simp]: "length (slice a b xs) = min (b - a) (length xs - a)"
  by (simp add: slice_def min.commute)

lemma slice_append_left: "b \<le> length xs \<Longrightarrow> slice a b (xs @ ys) = slice a b xs"
  by (simp add: slice_def)

lemma slice_append_right: "length xs \<le> a \<Longrightarrow> slice a b (xs @ ys) = slice (a - length xs) (b - length xs) ys"
  by (simp add: slice_def)

lemma slice_full [simp]: "slice 0 (length xs) xs = xs"
  by (simp add: slice_def)

lemma slice_empty [simp]: "slice a a xs = []"
  by (simp add: slice_def)

lemma slice_to_end: "length xs \<le> b \<Longrightarrow> slice a b xs = drop a xs"
  by (simp add: slice_def)

lemma take_slice_append:
  assumes "a \<le> b" shows "take a xs @ slice a b xs = take b xs"
  using assms by (metis le_add_diff_inverse slice_def take_add)

lemma split_at: "a \<le> b \<Longrightarrow> xs = take a xs @ slice a b xs @ drop b xs"
  by (metis append_assoc append_take_drop_id take_slice_append)

text \<open>\<open>splice off ys xs\<close> is the effect of \<open>xs[off..off + len ys].copy_from_slice(ys)\<close>.\<close>

definition splice :: "nat \<Rightarrow> 'a list \<Rightarrow> 'a list \<Rightarrow> 'a list" where
  "splice off ys xs = take off xs @ ys @ drop (off + length ys) xs"

lemma length_splice [simp]: "off + length ys \<le> length xs \<Longrightarrow> length (splice off ys xs) = length xs"
  by (simp add: splice_def)

lemma splice_splice [simp]:
  "off + length ys \<le> length xs \<Longrightarrow> length zs = length ys \<Longrightarrow> splice off zs (splice off ys xs) = splice off zs xs"
  by (simp add: splice_def)

lemma splice_append_right:
  "length xs \<le> off \<Longrightarrow> splice off ys (xs @ zs) = xs @ splice (off - length xs) ys zs"
  by (simp add: splice_def)

lemma splice_append_left:
  "off + length ys \<le> length xs \<Longrightarrow> splice off ys (xs @ zs) = splice off ys xs @ zs"
  by (simp add: splice_def)

lemma take_splice: "n \<le> off \<Longrightarrow> off \<le> length xs \<Longrightarrow> take n (splice off ys xs) = take n xs"
  by (simp add: splice_def)

lemma nth_splice_before: "n < off \<Longrightarrow> off \<le> length xs \<Longrightarrow> splice off ys xs ! n = xs ! n"
  by (simp add: splice_def nth_append)

lemma drop_splice_before:
  "n \<le> off \<Longrightarrow> off \<le> length xs \<Longrightarrow> drop n (splice off ys xs) = splice (off - n) ys (drop n xs)"
  by (simp add: splice_def drop_take add.commute)

definition zeros :: "nat \<Rightarrow> bytes" where
  "zeros n = replicate n 0"

lemma length_zeros [simp]: "length (zeros n) = n"
  by (simp add: zeros_def)

section \<open>Big-endian integers\<close>

text \<open>
  \<open>u16::from_be_bytes\<close>, \<open>u16::to_be_bytes\<close> and their 32-bit versions; Rust's \<open>usize::from\<close> on
  the result is \<open>unat\<close>, an \<open>as u8\<close> cast is \<open>as_u8\<close> and an \<open>as u16\<close> cast \<open>of_nat\<close>, both of which wrap.
\<close>

definition as_u8 :: "nat \<Rightarrow> u8" where
  "as_u8 n = of_nat n"

definition u16_from_be :: "u8 \<Rightarrow> u8 \<Rightarrow> u16" where
  "u16_from_be a b = of_nat (256 * unat a + unat b)"

definition u16_to_be :: "u16 \<Rightarrow> bytes" where
  "u16_to_be w = [as_u8 (unat w div 256), as_u8 (unat w mod 256)]"

definition u32_from_be :: "u8 \<Rightarrow> u8 \<Rightarrow> u8 \<Rightarrow> u8 \<Rightarrow> u32" where
  "u32_from_be a b c d =
     of_nat (16777216 * unat a + 65536 * unat b + 256 * unat c + unat d)"

definition u32_to_be :: "u32 \<Rightarrow> bytes" where
  "u32_to_be w = [as_u8 (unat w div 16777216), as_u8 (unat w div 65536 mod 256),
                  as_u8 (unat w div 256 mod 256), as_u8 (unat w mod 256)]"

lemma unat_u8_less [simp]: "unat (x::u8) < 256"
  using unsigned_less [of x, where 'a = nat] by simp

lemma unat_u8_le [simp]: "unat (x::u8) \<le> 255"
  using unat_u8_less [of x] by linarith

lemma unat_as_u8: "unat (as_u8 n) = n mod 256"
  by (simp add: as_u8_def unat_of_nat)

lemma unat_as_u8_small [simp]: "n < 256 \<Longrightarrow> unat (as_u8 n) = n"
  by (simp add: unat_as_u8)

lemma as_u8_unat [simp]: "as_u8 (unat b) = b"
  by (simp add: as_u8_def)

lemma as_u8_eqI: "unat b = n \<Longrightarrow> as_u8 n = b"
  by auto

lemma unat_of_nat_u16_small [simp]: "n < 65536 \<Longrightarrow> unat (of_nat n :: u16) = n"
  by (simp add: unat_of_nat)

lemma unat_u16_less: "unat (x::u16) < 65536"
  using unsigned_less [of x, where 'a = nat] by simp

lemma unat_u32_less: "unat (x::u32) < 4294967296"
  using unsigned_less [of x, where 'a = nat] by simp

lemma unat_u16_from_be: "unat (u16_from_be a b) = 256 * unat a + unat b"
proof -
  have "256 * unat a + unat b < 65536" using unat_u8_le [of a] unat_u8_le [of b] by linarith
  then show ?thesis unfolding u16_from_be_def by (rule unat_of_nat_u16_small)
qed

lemma length_u16_to_be [simp]: "length (u16_to_be w) = 2"
  by (simp add: u16_to_be_def)

lemma length_u32_to_be [simp]: "length (u32_to_be w) = 4"
  by (simp add: u32_to_be_def)

lemma u16_roundtrip: "u16_from_be (u16_to_be w ! 0) (u16_to_be w ! 1) = w"
proof -
  have "unat w div 256 < 256" using unat_u16_less [of w] by (simp add: less_mult_imp_div_less)
  then have "unat (u16_from_be (u16_to_be w ! 0) (u16_to_be w ! 1)) = unat w"
    unfolding unat_u16_from_be by (simp add: u16_to_be_def)
  then show ?thesis by (simp only: word_unat_eq_iff)
qed

lemma u16_to_be_from_be: "u16_to_be (u16_from_be a b) = [a, b]"
proof -
  have "(256 * unat a + unat b) div 256 = unat a" "(256 * unat a + unat b) mod 256 = unat b"
    by simp_all
  then show ?thesis by (simp add: u16_to_be_def unat_u16_from_be)
qed

lemma u32_roundtrip:
  "u32_from_be (u32_to_be w ! 0) (u32_to_be w ! 1) (u32_to_be w ! 2) (u32_to_be w ! 3) = w"
proof -
  define n where "n = unat w"
  have lt: "n < 4294967296" unfolding n_def by (rule unat_u32_less)
  have a: "n div 16777216 < 256" using lt by (simp add: less_mult_imp_div_less)
  have "n = 256 * (n div 256) + n mod 256" and "n div 256 = 256 * (n div 65536) + n div 256 mod 256"
    and "n div 65536 = 256 * (n div 16777216) + n div 65536 mod 256"
    using mult_div_mod_eq [of 256 n] mult_div_mod_eq [of 256 "n div 256"]
      mult_div_mod_eq [of 256 "n div 65536"] by (simp_all add: div_mult2_eq [symmetric])
  then have "16777216 * (n div 16777216) + 65536 * (n div 65536 mod 256) + 256 * (n div 256 mod 256) + n mod 256 = n"
    by linarith
  then have "u32_from_be (u32_to_be w ! 0) (u32_to_be w ! 1) (u32_to_be w ! 2) (u32_to_be w ! 3) = of_nat n"
    using a by (simp add: u32_from_be_def u32_to_be_def n_def [symmetric] numeral_2_eq_2 numeral_3_eq_3)
  then show ?thesis by (simp add: n_def)
qed

section \<open>Generic list facts\<close>

lemma length_ge_2E: "2 \<le> length xs \<Longrightarrow> (\<And>a b ys. xs = a # b # ys \<Longrightarrow> P) \<Longrightarrow> P"
  by (metis Suc_le_length_iff numeral_2_eq_2)

lemma split64:
  assumes "(z::nat) < 64"
  shows "(q * 64 + z) div 64 = q" and "(q * 64 + z) mod 64 = z"
  using assms by (simp_all add: div_nat_eqI)

lemma take_4_nth: "4 \<le> length p \<Longrightarrow> take 4 p = [p ! 0, p ! 1, p ! 2, p ! 3]"
  by (auto simp: numeral_eq_Suc Suc_le_length_iff)

lemma nth_drop_0: "n < length xs \<Longrightarrow> drop n xs ! 0 = xs ! n"
  by simp

lemma concat_map_length_le:
  "(\<forall>x\<in>set xs. length (f x) \<le> k) \<Longrightarrow> length (concat (map f xs)) \<le> k * length xs"
  by (induction xs) (auto simp: algebra_simps)

lemma list_all_mem: "list_all P xs \<Longrightarrow> x \<in> set xs \<Longrightarrow> P x"
  by (simp add: list_all_iff)

end
