(* ===== verification/Rust_Std.thy ===== *)
theory Rust_Std
  imports Prelude
begin

text \<open>
  The parts of Rust's standard library the program relies on: \<open>str\<close> as a list of Unicode
  scalar values with its UTF-8 and UTF-16 encodings, \<open>str::from_utf8\<close>, the \<open>char\<close> classes, the
  splitting functions the configuration parser uses, \<open>u32::from_str\<close>, and \<open>Duration\<close> with its
  order.
\<close>

section \<open>Strings\<close>

text \<open>A Rust \<open>char\<close> is a Unicode scalar value; a \<open>str\<close> is a sequence of them.\<close>

type_synonym rchar = nat
type_synonym rstr = "rchar list"

definition scalar_value :: "rchar \<Rightarrow> bool" where
  "scalar_value c \<longleftrightarrow> c < 0xD800 \<or> (0xE000 \<le> c \<and> c \<le> 0x10FFFF)"

definition valid_str :: "rstr \<Rightarrow> bool" where
  "valid_str s \<longleftrightarrow> list_all scalar_value s"

text \<open>String and byte-string literals of the source.\<close>

definition lit :: "string \<Rightarrow> rstr" where
  "lit s = map of_char s"

definition blit :: "string \<Rightarrow> bytes" where
  "blit s = map of_char s"

lemma length_lit [simp]: "length (lit s) = length s"
  by (simp add: lit_def)

lemma lit_inject [simp]: "lit s = lit t \<longleftrightarrow> s = t"
  by (auto simp: lit_def inj_map_eq_map inj_on_def)

lemma length_blit [simp]: "length (blit s) = length s"
  by (simp add: blit_def)

subsection \<open>UTF-8\<close>

definition utf8_char :: "rchar \<Rightarrow> bytes" where
  "utf8_char c =
     (if c < 0x80 then [as_u8 c]
      else if c < 0x800 then [as_u8 (0xC0 + c div 64), as_u8 (0x80 + c mod 64)]
      else if c < 0x10000 then
        [as_u8 (0xE0 + c div 4096), as_u8 (0x80 + c div 64 mod 64), as_u8 (0x80 + c mod 64)]
      else
        [as_u8 (0xF0 + c div 262144), as_u8 (0x80 + c div 4096 mod 64),
         as_u8 (0x80 + c div 64 mod 64), as_u8 (0x80 + c mod 64)])"

text \<open>\<open>str::as_bytes\<close>; \<open>str::len\<close> is the length of its result.\<close>

definition as_bytes :: "rstr \<Rightarrow> bytes" where
  "as_bytes s = concat (map utf8_char s)"

text \<open>\<open>str::from_utf8\<close>: strict decoding (no overlong form, no surrogate, nothing above 10FFFF).\<close>

definition cont_byte :: "u8 \<Rightarrow> bool" where
  "cont_byte b \<longleftrightarrow> 0x80 \<le> unat b \<and> unat b < 0xC0"

definition cont_val :: "u8 \<Rightarrow> nat" where
  "cont_val b = unat b - 0x80"

definition utf8_2 :: "u8 \<Rightarrow> u8 \<Rightarrow> rchar option" where
  "utf8_2 a b =
     (let c = (unat a - 0xC0) * 64 + cont_val b
      in if cont_byte b \<and> 0x80 \<le> c then Some c else None)"

definition utf8_3 :: "u8 \<Rightarrow> u8 \<Rightarrow> u8 \<Rightarrow> rchar option" where
  "utf8_3 a b d =
     (let c = (unat a - 0xE0) * 4096 + cont_val b * 64 + cont_val d
      in if cont_byte b \<and> cont_byte d \<and> 0x800 \<le> c \<and> scalar_value c then Some c else None)"

definition utf8_4 :: "u8 \<Rightarrow> u8 \<Rightarrow> u8 \<Rightarrow> u8 \<Rightarrow> rchar option" where
  "utf8_4 a b d e =
     (let c = (unat a - 0xF0) * 262144 + cont_val b * 4096 + cont_val d * 64 + cont_val e
      in if cont_byte b \<and> cont_byte d \<and> cont_byte e \<and> 0x10000 \<le> c \<and> c \<le> 0x10FFFF then Some c else None)"

fun from_utf8 :: "bytes \<Rightarrow> rstr option" where
  "from_utf8 [] = Some []"
| "from_utf8 (a # as) =
     (if unat a < 0x80 then map_option (Cons (unat a)) (from_utf8 as)
      else if unat a < 0xC0 then None
      else if unat a < 0xE0 then
        (case as of
           b # bs \<Rightarrow> (case utf8_2 a b of None \<Rightarrow> None
                      | Some c \<Rightarrow> map_option (Cons c) (from_utf8 bs))
         | _ \<Rightarrow> None)
      else if unat a < 0xF0 then
        (case as of
           b # d # bs \<Rightarrow> (case utf8_3 a b d of None \<Rightarrow> None
                          | Some c \<Rightarrow> map_option (Cons c) (from_utf8 bs))
         | _ \<Rightarrow> None)
      else if unat a < 0xF8 then
        (case as of
           b # d # e # bs \<Rightarrow> (case utf8_4 a b d e of None \<Rightarrow> None
                              | Some c \<Rightarrow> map_option (Cons c) (from_utf8 bs))
         | _ \<Rightarrow> None)
      else None)"

lemma as_bytes_Nil [simp]: "as_bytes [] = []"
  by (simp add: as_bytes_def)

lemma as_bytes_Cons: "as_bytes (c # s) = utf8_char c @ as_bytes s"
  by (simp add: as_bytes_def)

lemma as_bytes_append: "as_bytes (s @ t) = as_bytes s @ as_bytes t"
  by (simp add: as_bytes_def)

lemma utf8_char_not_Nil [simp]: "utf8_char c \<noteq> []"
  by (simp add: utf8_char_def)

lemma as_bytes_eq_Nil [simp]: "as_bytes s = [] \<longleftrightarrow> s = []"
  by (cases s) (auto simp: as_bytes_Cons)

lemma valid_str_Nil [simp]: "valid_str []"
  by (simp add: valid_str_def)

lemma valid_str_Cons [simp]: "valid_str (c # s) \<longleftrightarrow> scalar_value c \<and> valid_str s"
  by (simp add: valid_str_def)

text \<open>Encoding and decoding are inverse on strings of scalar values.\<close>

lemma utf8_char_decode:
  assumes "scalar_value c"
  shows "from_utf8 (utf8_char c @ bs) = map_option (Cons c) (from_utf8 bs)"
proof -
  have lt: "c < 1114112" using assms by (auto simp: scalar_value_def)
  consider "c < 128" | "128 \<le> c" "c < 2048" | "2048 \<le> c" "c < 65536" | "65536 \<le> c" by linarith
  then show ?thesis
  proof cases
    case 1
    then show ?thesis by (simp add: utf8_char_def)
  next
    case 2
    define a b where ab: "a = as_u8 (192 + c div 64)" "b = as_u8 (128 + c mod 64)"
    have "c div 64 < 32" "2 \<le> c div 64" using 2 by (simp_all add: less_mult_imp_div_less)
    then have u: "unat a = 192 + c div 64" "unat b = 128 + c mod 64" "unat a < 224" by (simp_all add: ab)
    have "utf8_char c = [a, b]" using 2 by (simp add: utf8_char_def ab)
    moreover have "utf8_2 a b = Some c" using 2 by (simp add: utf8_2_def cont_byte_def cont_val_def u(1,2))
    ultimately show ?thesis using u by simp
  next
    case 3
    define a b d where ab: "a = as_u8 (224 + c div 4096)" "b = as_u8 (128 + c div 64 mod 64)" "d = as_u8 (128 + c mod 64)"
    have "c div 4096 < 16" using 3 by (simp add: less_mult_imp_div_less)
    then have u: "unat a = 224 + c div 4096" "unat b = 128 + c div 64 mod 64" "unat d = 128 + c mod 64" "unat a < 240"
      by (simp_all add: ab)
    have "c div 64 = 64 * (c div 4096) + c div 64 mod 64"
      using mult_div_mod_eq [of 64 "c div 64"] by (simp add: div_mult2_eq [symmetric])
    then have m: "c div 4096 * 4096 + c div 64 mod 64 * 64 + c mod 64 = c"
      using mult_div_mod_eq [of 64 c] by linarith
    have "utf8_char c = [a, b, d]" using 3 by (simp add: utf8_char_def ab)
    moreover have "utf8_3 a b d = Some c"
      using 3 assms m by (simp add: utf8_3_def cont_byte_def cont_val_def u(1-3))
    ultimately show ?thesis using u by simp
  next
    case 4
    define a b d e where ab: "a = as_u8 (240 + c div 262144)" "b = as_u8 (128 + c div 4096 mod 64)"
      "d = as_u8 (128 + c div 64 mod 64)" "e = as_u8 (128 + c mod 64)"
    have "c div 262144 < 5" using lt by (simp add: less_mult_imp_div_less)
    then have u: "unat a = 240 + c div 262144" "unat b = 128 + c div 4096 mod 64" "unat d = 128 + c div 64 mod 64"
      "unat e = 128 + c mod 64" "unat a < 248" by (simp_all add: ab)
    have "c div 64 = 64 * (c div 4096) + c div 64 mod 64" "c div 4096 = 64 * (c div 262144) + c div 4096 mod 64"
      using mult_div_mod_eq [of 64 "c div 64"] mult_div_mod_eq [of 64 "c div 4096"]
      by (simp_all add: div_mult2_eq [symmetric])
    then have m: "c div 262144 * 262144 + c div 4096 mod 64 * 4096 + c div 64 mod 64 * 64 + c mod 64 = c"
      using mult_div_mod_eq [of 64 c] by linarith
    have "utf8_char c = [a, b, d, e]" using 4 by (simp add: utf8_char_def ab)
    moreover have "utf8_4 a b d e = Some c"
      using 4 lt m by (simp add: utf8_4_def cont_byte_def cont_val_def u(1-4))
    ultimately show ?thesis using u by simp
  qed
qed

lemma from_utf8_as_bytes: "valid_str s \<Longrightarrow> from_utf8 (as_bytes s) = Some s"
  by (induction s) (simp_all add: as_bytes_Cons utf8_char_decode)

lemma as_bytes_inject: "valid_str s \<Longrightarrow> valid_str t \<Longrightarrow> as_bytes s = as_bytes t \<longleftrightarrow> s = t"
  by (metis from_utf8_as_bytes option.inject)

text \<open>What \<open>from_utf8\<close> accepts re-encodes to the same octets.\<close>

lemma utf8_2_Some:
  assumes "utf8_2 a b = Some c" and "0xC0 \<le> unat a" and "unat a < 0xE0"
  shows "scalar_value c \<and> utf8_char c = [a, b]"
proof -
  from assms(1) have c: "c = (unat a - 192) * 64 + (unat b - 128)" and b: "128 \<le> unat b" "unat b < 192" "128 \<le> c"
    by (auto simp: utf8_2_def cont_byte_def cont_val_def Let_def split: if_splits)
  have s: "unat b - 128 < 64" using b by linarith
  have "c div 64 = unat a - 192" "c mod 64 = unat b - 128" "c < 2048"
    unfolding c using split64 [OF s, of "unat a - 192"] s assms(2,3) by (simp_all only:) linarith
  moreover have "192 + (unat a - 192) = unat a" "128 + (unat b - 128) = unat b" using b assms(2) by simp_all
  ultimately show ?thesis using b(3) by (simp add: utf8_char_def scalar_value_def)
qed

lemma utf8_3_Some:
  assumes "utf8_3 a b d = Some c" and "0xE0 \<le> unat a" and "unat a < 0xF0"
  shows "scalar_value c \<and> utf8_char c = [a, b, d]"
proof -
  from assms(1) have c: "c = (unat a - 224) * 4096 + (unat b - 128) * 64 + (unat d - 128)"
    and b: "128 \<le> unat b" "unat b < 192" "128 \<le> unat d" "unat d < 192" "2048 \<le> c" "scalar_value c"
    by (auto simp: utf8_3_def cont_byte_def cont_val_def Let_def split: if_splits)
  define x y z where xyz: "x = unat a - 224" "y = unat b - 128" "z = unat d - 128"
  have small: "y < 64" "z < 64" "x < 16" using b assms(2,3) by (auto simp: xyz)
  have c': "c = (x * 64 + y) * 64 + z" by (simp add: c xyz algebra_simps)
  have q: "c div 64 = x * 64 + y" "c mod 64 = z" unfolding c' by (rule split64 [OF small(2)])+
  have "c div 4096 = c div 64 div 64" by (simp add: div_mult2_eq [symmetric])
  then have "c div 4096 = x" "c div 64 mod 64 = y" unfolding q by (simp_all only: split64 [OF small(1)])
  moreover have "c = 4096 * x + 64 * y + z" using c' by simp
  then have "c < 65536" using small by linarith
  moreover have "224 + x = unat a" "128 + y = unat b" "128 + z = unat d" using b assms(2) by (simp_all add: xyz)
  ultimately show ?thesis using b(5,6) q by (simp add: utf8_char_def)
qed

lemma utf8_4_Some:
  assumes "utf8_4 a b d e = Some c" and "0xF0 \<le> unat a" and "unat a < 0xF8"
  shows "scalar_value c \<and> utf8_char c = [a, b, d, e]"
proof -
  define v where "v = (unat a - 240) * 262144 + cont_val b * 4096 + cont_val d * 64 + cont_val e"
  have "if cont_byte b \<and> cont_byte d \<and> cont_byte e \<and> 65536 \<le> v \<and> v \<le> 1114111 then v = c else False"
    using assms(1) unfolding utf8_4_def Let_def v_def [symmetric] by (simp split: if_splits)
  then have v: "cont_byte b" "cont_byte d" "cont_byte e" "65536 \<le> v" "v \<le> 1114111" "v = c"
    by (simp_all split: if_splits)
  have c: "c = (unat a - 240) * 262144 + (unat b - 128) * 4096 + (unat d - 128) * 64 + (unat e - 128)"
    using v(6) by (simp only: v_def cont_val_def)
  have b: "128 \<le> unat b" "unat b < 192" "128 \<le> unat d" "unat d < 192" "128 \<le> unat e" "unat e < 192"
      "65536 \<le> c" "c \<le> 1114111"
    using v by (simp_all only: cont_byte_def)
  define w x y z where xyz: "w = unat a - 240" "x = unat b - 128" "y = unat d - 128" "z = unat e - 128"
  have small: "x < 64" "y < 64" "z < 64" using b assms(2,3) by (auto simp: xyz)
  have c': "c = ((w * 64 + x) * 64 + y) * 64 + z" by (simp add: c xyz algebra_simps)
  have q: "c div 64 = (w * 64 + x) * 64 + y" "c mod 64 = z" unfolding c' by (rule split64 [OF small(3)])+
  have "c div 4096 = c div 64 div 64" by (simp add: div_mult2_eq [symmetric])
  then have q2: "c div 4096 = w * 64 + x" "c div 64 mod 64 = y" unfolding q by (simp_all only: split64 [OF small(2)])
  have "c div 262144 = c div 4096 div 64" by (simp add: div_mult2_eq [symmetric])
  then have q3: "c div 262144 = w" "c div 4096 mod 64 = x" unfolding q2 by (simp_all only: split64 [OF small(1)])
  have "240 + w = unat a" "128 + x = unat b" "128 + y = unat d" "128 + z = unat e"
    using b assms(2) by (simp_all add: xyz)
  then show ?thesis using b(7,8) q q2 q3 by (simp add: utf8_char_def scalar_value_def)
qed

lemma from_utf8_Some: "from_utf8 bs = Some s \<Longrightarrow> as_bytes s = bs \<and> valid_str s"
proof (induction bs arbitrary: s rule: from_utf8.induct)
  case 1
  then show ?case by simp
next
  case (2 a as)
  consider (u1) "unat a < 128" | (u2) "192 \<le> unat a" "unat a < 224" | (u3) "224 \<le> unat a" "unat a < 240"
    | (u4) "240 \<le> unat a" "unat a < 248" using "2.prems" by (force split: if_splits)
  then show ?case
  proof cases
    case u1
    with "2.prems" obtain t where t: "from_utf8 as = Some t" "s = unat a # t" by auto
    with "2.IH"(1) u1 show ?thesis by (auto simp: as_bytes_Cons utf8_char_def scalar_value_def)
  next
    case u2
    with "2.prems" obtain b bs c t where "as = b # bs" "utf8_2 a b = Some c" "from_utf8 bs = Some t" "s = c # t"
      by (auto split: list.splits option.splits)
    with "2.IH"(2) u2 utf8_2_Some [of a b c] show ?thesis by (auto simp: as_bytes_Cons)
  next
    case u3
    with "2.prems" obtain b d bs c t where "as = b # d # bs" "utf8_3 a b d = Some c" "from_utf8 bs = Some t" "s = c # t"
      by (auto split: list.splits option.splits)
    with "2.IH"(3) u3 utf8_3_Some [of a b d c] show ?thesis by (auto simp: as_bytes_Cons)
  next
    case u4
    with "2.prems" obtain b d e bs c t where "as = b # d # e # bs" "utf8_4 a b d e = Some c" "from_utf8 bs = Some t" "s = c # t"
      by (auto split: list.splits option.splits)
    with "2.IH"(4) u4 utf8_4_Some [of a b d e c] show ?thesis by (auto simp: as_bytes_Cons)
  qed
qed

subsection \<open>UTF-16\<close>

text \<open>\<open>str::encode_utf16\<close> and \<open>u16::to_le_bytes\<close>.\<close>

definition utf16_char :: "rchar \<Rightarrow> u16 list" where
  "utf16_char c =
     (if c < 0x10000 then [of_nat c]
      else [of_nat (0xD800 + (c - 0x10000) div 1024), of_nat (0xDC00 + (c - 0x10000) mod 1024)])"

definition encode_utf16 :: "rstr \<Rightarrow> u16 list" where
  "encode_utf16 s = concat (map utf16_char s)"

definition u16_to_le :: "u16 \<Rightarrow> bytes" where
  "u16_to_le w = [as_u8 (unat w mod 256), as_u8 (unat w div 256)]"

section \<open>Character classes and splitting\<close>

text \<open>\<open>char::is_whitespace\<close> (Unicode White_Space) and \<open>char::is_control\<close> (general category Cc).\<close>

definition is_whitespace :: "rchar \<Rightarrow> bool" where
  "is_whitespace c \<longleftrightarrow>
     (9 \<le> c \<and> c \<le> 13) \<or> c = 0x20 \<or> c = 0x85 \<or> c = 0xA0 \<or> c = 0x1680 \<or> (0x2000 \<le> c \<and> c \<le> 0x200A) \<or>
     c = 0x2028 \<or> c = 0x2029 \<or> c = 0x202F \<or> c = 0x205F \<or> c = 0x3000"

definition is_control :: "rchar \<Rightarrow> bool" where
  "is_control c \<longleftrightarrow> c < 0x20 \<or> (0x7F \<le> c \<and> c \<le> 0x9F)"

definition trim :: "rstr \<Rightarrow> rstr" where
  "trim s = rev (dropWhile is_whitespace (rev (dropWhile is_whitespace s)))"

text \<open>\<open>str::split_whitespace\<close>: the maximal runs of characters that are not white space.\<close>

function split_whitespace :: "rstr \<Rightarrow> rstr list" where
  "split_whitespace s =
     (let t = dropWhile is_whitespace s
      in if t = [] then []
         else takeWhile (\<lambda>c. \<not> is_whitespace c) t # split_whitespace (dropWhile (\<lambda>c. \<not> is_whitespace c) t))"
  by pat_completeness auto
termination
proof (relation "measure length")
  fix s t :: rstr
  assume t: "t = dropWhile is_whitespace s" "t \<noteq> []"
  then have "\<not> is_whitespace (hd t)" by (simp add: hd_dropWhile)
  then have "length (dropWhile (\<lambda>c. \<not> is_whitespace c) t) < length t"
    using t(2) by (cases t) (auto intro: le_imp_less_Suc length_dropWhile_le)
  also have "\<dots> \<le> length s" unfolding t(1) by (rule length_dropWhile_le)
  finally show "(dropWhile (\<lambda>c. \<not> is_whitespace c) t, s) \<in> measure length" by simp
qed simp

declare split_whitespace.simps [simp del]

lemma split_whitespace_space: "split_whitespace (32 # s) = split_whitespace s"
  by (subst (1 2) split_whitespace.simps) (simp add: is_whitespace_def)

text \<open>A word without white space is a field of its own, at the end or before a space.\<close>

lemma split_whitespace_word:
  assumes "list_all (\<lambda>c. \<not> is_whitespace c) t" and "t \<noteq> []"
  shows "split_whitespace (t @ 32 # s) = t # split_whitespace s" and "split_whitespace t = [t]"
proof -
  let ?N = "\<lambda>c. \<not> is_whitespace c"
  have N: "\<forall>c\<in>set t. ?N c" using assms(1) by (simp add: list_all_iff)
  have hd: "dropWhile is_whitespace (t @ u) = t @ u" for u using N assms(2) by (cases t) auto
  have sp: "takeWhile ?N (t @ 32 # s) = t" "dropWhile ?N (t @ 32 # s) = 32 # s"
    using N by (simp_all add: takeWhile_append2 dropWhile_append2 is_whitespace_def)
  show "split_whitespace (t @ 32 # s) = t # split_whitespace s"
    using assms(2) hd [of "32 # s"] sp
    by (subst split_whitespace.simps) (simp add: Let_def split_whitespace_space)
  have "takeWhile ?N t = t" "dropWhile ?N t = []" using N by (simp_all add: takeWhile_eq_all_conv)
  moreover have "split_whitespace t = takeWhile ?N t # split_whitespace (dropWhile ?N t)"
    using assms(2) hd [of "[]"] by (subst split_whitespace.simps) (simp add: Let_def)
  ultimately show "split_whitespace t = [t]" by (simp only: split_whitespace.simps [of "[]"]) simp
qed

text \<open>\<open>str::lines\<close>: split after each line feed, which is dropped with a carriage return before it.\<close>

definition strip_cr :: "rstr \<Rightarrow> rstr" where
  "strip_cr s = (if s \<noteq> [] \<and> last s = 13 then butlast s else s)"

function lines :: "rstr \<Rightarrow> rstr list" where
  "lines s =
     (if s = [] then []
      else if 10 \<in> set s
           then strip_cr (takeWhile (\<lambda>c. c \<noteq> 10) s) # lines (tl (dropWhile (\<lambda>c. c \<noteq> 10) s))
           else [s])"
  by pat_completeness auto
termination
proof (relation "measure length")
  fix s :: rstr
  assume "s \<noteq> []"
  then have "0 < length s" by simp
  with length_dropWhile_le [of "\<lambda>c. c \<noteq> 10" s] have "length (dropWhile (\<lambda>c. c \<noteq> 10) s) - 1 < length s"
    by linarith
  then show "(tl (dropWhile (\<lambda>c. c \<noteq> 10) s), s) \<in> measure length" by simp
qed simp

declare lines.simps [simp del]

fun strip_prefix :: "'a list \<Rightarrow> 'a list \<Rightarrow> 'a list option" where
  "strip_prefix [] s = Some s"
| "strip_prefix (p # ps) [] = None"
| "strip_prefix (p # ps) (c # s) = (if p = c then strip_prefix ps s else None)"

lemma strip_prefix_Some: "strip_prefix p s = Some t \<longleftrightarrow> s = p @ t"
  by (induction p s rule: strip_prefix.induct) auto

text \<open>
  \<open>u32::from_str\<close>: an optional plus sign and at least one decimal digit, failing on overflow.
\<close>

definition dec_digit :: "rchar \<Rightarrow> nat option" where
  "dec_digit c = (if 48 \<le> c \<and> c \<le> 57 then Some (c - 48) else None)"

fun dec_digits :: "nat \<Rightarrow> rstr \<Rightarrow> nat option" where
  "dec_digits acc [] = Some acc"
| "dec_digits acc (c # cs) =
     (case dec_digit c of None \<Rightarrow> None
      | Some d \<Rightarrow> (if acc * 10 + d < 2 ^ 32 then dec_digits (acc * 10 + d) cs else None))"

definition u32_from_str :: "rstr \<Rightarrow> u32 option" where
  "u32_from_str s =
     (let ds = (case s of [] \<Rightarrow> [] | c # cs \<Rightarrow> if c = 43 then cs else s)
      in if ds = [] then None else map_option of_nat (dec_digits 0 ds))"

lemma dec_digits_bound: "acc < 2 ^ 32 \<Longrightarrow> dec_digits acc cs = Some n \<Longrightarrow> n < 2 ^ 32"
  by (induction acc cs rule: dec_digits.induct) (auto split: option.splits if_splits)

section \<open>Durations\<close>

text \<open>
  \<open>std::time::Duration\<close>, in nanoseconds, with the order the program compares and clamps with.
\<close>

datatype duration = Nanos (nanos: nat)

instantiation duration :: linorder
begin

definition less_eq_duration :: "duration \<Rightarrow> duration \<Rightarrow> bool" where
  "less_eq_duration a b \<longleftrightarrow> nanos a \<le> nanos b"

definition less_duration :: "duration \<Rightarrow> duration \<Rightarrow> bool" where
  "less_duration a b \<longleftrightarrow> nanos a < nanos b"

instance
  by standard (auto simp: less_eq_duration_def less_duration_def duration.expand)

end

lemma less_eq_Nanos [simp]: "Nanos a \<le> Nanos b \<longleftrightarrow> a \<le> b"
  by (simp add: less_eq_duration_def)

lemma less_Nanos [simp]: "Nanos a < Nanos b \<longleftrightarrow> a < b"
  by (simp add: less_duration_def)

definition from_secs :: "nat \<Rightarrow> duration" where
  "from_secs n = Nanos (n * 1000000000)"

definition from_millis :: "nat \<Rightarrow> duration" where
  "from_millis n = Nanos (n * 1000000)"

definition dur_add :: "duration \<Rightarrow> duration \<Rightarrow> duration" where
  "dur_add a b = Nanos (nanos a + nanos b)"

definition saturating_sub :: "duration \<Rightarrow> duration \<Rightarrow> duration" where
  "saturating_sub a b = Nanos (nanos a - nanos b)"

text \<open>\<open>Duration / u32\<close> panics on a zero divisor (\<open>None\<close>).\<close>

definition dur_div :: "duration \<Rightarrow> u32 \<Rightarrow> duration option" where
  "dur_div d n = (if n = 0 then None else Some (Nanos (nanos d div unat n)))"

end
