(* ===== verification/Effects.thy ===== *)
theory Effects
  imports Rust_Std
begin

text \<open>
  Computations with effects. The outside world (sockets, the clock, the PAM stack, logs) is an
  explicit state \<open>'w\<close> threaded through every computation; a computation returns a value, panics,
  or does not return within the fuel of its loops. Panics keep the state they reached, as unwinding
  does.
\<close>

datatype ('a, 'w) exec = Returns 'a 'w | Panics 'w | Diverges

type_synonym ('a, 'w) io = "'w \<Rightarrow> ('a, 'w) exec"

definition ret :: "'a \<Rightarrow> ('a, 'w) io" where
  "ret a = (\<lambda>w. Returns a w)"

definition panic :: "('a, 'w) io" where
  "panic = (\<lambda>w. Panics w)"

definition seq :: "('a, 'w) io \<Rightarrow> ('a \<Rightarrow> ('b, 'w) io) \<Rightarrow> ('b, 'w) io" where
  "seq m f = (\<lambda>w. case m w of Returns a w' \<Rightarrow> f a w' | Panics w' \<Rightarrow> Panics w' | Diverges \<Rightarrow> Diverges)"

text \<open>The operator \<open>?\<close> on a computation of a \<open>Result\<close>: an error returns early.\<close>

definition attempt :: "('e + 'a, 'w) io \<Rightarrow> ('a \<Rightarrow> ('e + 'b, 'w) io) \<Rightarrow> ('e + 'b, 'w) io" where
  "attempt m f = seq m (\<lambda>r. case r of Inl e \<Rightarrow> ret (Inl e) | Inr a \<Rightarrow> f a)"

text \<open>An operation of the outside world, which always returns.\<close>

definition lift :: "('w \<Rightarrow> 'a \<times> 'w) \<Rightarrow> ('a, 'w) io" where
  "lift op = (\<lambda>w. case op w of (a, w') \<Rightarrow> Returns a w')"

text \<open>An operation used for its effect only.\<close>

definition act :: "('w \<Rightarrow> 'w) \<Rightarrow> (unit, 'w) io" where
  "act op = (\<lambda>w. Returns () (op w))"

text \<open>\<open>std::panic::catch_unwind\<close>, with the value returned after a panic.\<close>

definition catch_unwind :: "('a, 'w) io \<Rightarrow> 'a \<Rightarrow> ('a, 'w) io" where
  "catch_unwind m fallback =
     (\<lambda>w. case m w of Returns a w' \<Rightarrow> Returns a w' | Panics w' \<Rightarrow> Returns fallback w' | Diverges \<Rightarrow> Diverges)"

lemma ret_apply [simp]: "ret a w = Returns a w"
  by (simp add: ret_def)

lemma panic_apply [simp]: "panic w = Panics w"
  by (simp add: panic_def)

lemma act_apply [simp]: "act op w = Returns () (op w)"
  by (simp add: act_def)

lemma lift_apply: "lift op w = (case op w of (a, w') \<Rightarrow> Returns a w')"
  by (simp add: lift_def)

lemma seq_apply: "seq m f w = (case m w of Returns a w' \<Rightarrow> f a w' | Panics w' \<Rightarrow> Panics w' | Diverges \<Rightarrow> Diverges)"
  by (simp add: seq_def)

lemma seq_ret [simp]: "seq (ret a) f = f a"
  by (simp add: seq_def)

lemma seq_ret_right [simp]: "seq m ret = m"
  by (auto simp: seq_def split: exec.splits)

lemma seq_assoc: "seq (seq m f) g = seq m (\<lambda>x. seq (f x) g)"
  by (auto simp: seq_def split: exec.splits)

lemma seq_panic [simp]: "seq panic f = panic"
  by (auto simp: seq_def panic_def)

lemma seq_act [simp]: "seq (act op) f w = f () (op w)"
  by (simp add: seq_def)

lemma seq_Returns: "seq m f w = Returns b w' \<longleftrightarrow> (\<exists>a w1. m w = Returns a w1 \<and> f a w1 = Returns b w')"
  by (auto simp: seq_def split: exec.splits)

lemma seq_lift: "seq (lift op) f w = f (fst (op w)) (snd (op w))"
  by (simp add: seq_def lift_def split: prod.splits)

lemma lift_Returns: "lift op w = Returns a w' \<longleftrightarrow> op w = (a, w')"
  by (auto simp: lift_def split: prod.splits)

lemma attempt_apply:
  "attempt m f w = (case m w of Returns (Inl e) w' \<Rightarrow> Returns (Inl e) w' | Returns (Inr a) w' \<Rightarrow> f a w'
     | Panics w' \<Rightarrow> Panics w' | Diverges \<Rightarrow> Diverges)"
  by (auto simp: attempt_def seq_def split: exec.splits sum.splits)

lemma attempt_Returns:
  "attempt m f w = Returns b w' \<longleftrightarrow>
     (\<exists>e. m w = Returns (Inl e) w' \<and> b = Inl e) \<or> (\<exists>a w1. m w = Returns (Inr a) w1 \<and> f a w1 = Returns b w')"
  by (auto simp: attempt_apply split: exec.splits sum.splits)

lemma catch_unwind_never_panics: "catch_unwind m x w \<noteq> Panics w'"
  by (auto simp: catch_unwind_def split: exec.splits)

text \<open>A condition on the value a computation returns, whatever the world.\<close>

definition gives :: "('a, 'w) io \<Rightarrow> ('a \<Rightarrow> bool) \<Rightarrow> bool" where
  "gives m P \<longleftrightarrow> (\<forall>w a w'. m w = Returns a w' \<longrightarrow> P a)"

lemma gives_ret [simp]: "gives (ret a) P \<longleftrightarrow> P a"
  by (simp add: gives_def)

lemma gives_Returns [simp]: "gives (Returns a) P \<longleftrightarrow> P a"
  by (simp add: gives_def)

lemma gives_panic [simp]: "gives panic P"
  by (simp add: gives_def)

lemma gives_seq: "gives m Q \<Longrightarrow> (\<And>a. Q a \<Longrightarrow> gives (f a) P) \<Longrightarrow> gives (seq m f) P"
  unfolding gives_def seq_Returns by blast

lemma gives_seq_any: "(\<And>a. gives (f a) P) \<Longrightarrow> gives (seq m f) P"
  by (auto simp: gives_def seq_Returns)

lemma givesD: "gives m P \<Longrightarrow> m w = Returns a w' \<Longrightarrow> P a"
  by (auto simp: gives_def)

text \<open>
  \<open>getrandom::getrandom\<close> on a 16-octet array: the array it filled, or its failure. The operation of
  the outside world gives the octets; the array holds 16 of them whatever it gives.
\<close>

definition getrandom_16 :: "('w \<Rightarrow> bytes option \<times> 'w) \<Rightarrow> (bytes option, 'w) io" where
  "getrandom_16 g = seq (lift g) (\<lambda>r. ret (map_option (\<lambda>b. take 16 (b @ zeros 16)) r))"

lemma getrandom_16_length: "gives (getrandom_16 g) (\<lambda>r. \<forall>b. r = Some b \<longrightarrow> length b = 16)"
  unfolding getrandom_16_def by (rule gives_seq_any) auto

section \<open>Traces\<close>

text \<open>
  Logging the operations of the outside world: the world is paired with the events so far.
  \<open>simulates\<close> says that erasing the log gives the original computation; \<open>emits\<close> is a condition on
  the value returned and the events a computation appends.
\<close>

definition logged :: "('a \<Rightarrow> 'e) \<Rightarrow> ('w \<Rightarrow> 'a \<times> 'w) \<Rightarrow> 'w \<times> 'e list \<Rightarrow> 'a \<times> ('w \<times> 'e list)" where
  "logged ev op s = (case op (fst s) of (a, w) \<Rightarrow> (a, (w, snd s @ [ev a])))"

definition logged_io :: "('a \<Rightarrow> 'e) \<Rightarrow> ('a, 'w) io \<Rightarrow> ('a, 'w \<times> 'e list) io" where
  "logged_io ev m s =
     (case m (fst s) of Returns a w \<Rightarrow> Returns a (w, snd s @ [ev a]) | Panics w \<Rightarrow> Panics (w, snd s) | Diverges \<Rightarrow> Diverges)"

fun erase :: "('a, 'w \<times> 'e list) exec \<Rightarrow> ('a, 'w) exec" where
  "erase (Returns a s) = Returns a (fst s)"
| "erase (Panics s) = Panics (fst s)"
| "erase Diverges = Diverges"

definition simulates :: "('a, 'w \<times> 'e list) io \<Rightarrow> ('a, 'w) io \<Rightarrow> bool" where
  "simulates m' m \<longleftrightarrow> (\<forall>w tr. erase (m' (w, tr)) = m w)"

lemma simulates_ret [intro, simp]: "simulates (ret a) (ret a)"
  by (simp add: simulates_def)

lemma simulates_Returns [intro, simp]:
  "simulates (Returns a) (Returns a)" "simulates (Returns a) (ret a)" "simulates (ret a) (Returns a)"
  by (simp_all add: simulates_def)

lemma simulates_panic [intro, simp]: "simulates panic panic"
  by (simp add: simulates_def)

lemma simulates_diverges [intro, simp]: "simulates (\<lambda>s. Diverges) (\<lambda>w. Diverges)"
  by (simp add: simulates_def)

lemma simulates_lift [intro, simp]: "simulates (lift (logged ev op)) (lift op)"
  by (simp add: simulates_def lift_def logged_def split: prod.splits)

lemma simulates_logged_io [intro, simp]: "simulates (logged_io ev m) m"
  by (simp add: simulates_def logged_io_def split: exec.split)

lemma simulates_seq [intro]:
  assumes "simulates m' m" and "\<And>a. simulates (f' a) (f a)"
  shows "simulates (seq m' f') (seq m f)"
proof -
  have "erase (seq m' f' (w, tr)) = seq m f w" for w tr
  proof (cases "m' (w, tr)")
    case (Returns a s)
    then have "m w = Returns a (fst s)" using assms(1) by (metis erase.simps(1) simulates_def)
    moreover have "erase (f' a s) = f a (fst s)" using assms(2) [of a] by (cases s) (simp add: simulates_def)
    ultimately show ?thesis using Returns by (simp add: seq_apply)
  next
    case (Panics s)
    then have "m w = Panics (fst s)" using assms(1) by (metis erase.simps(2) simulates_def)
    then show ?thesis using Panics by (simp add: seq_apply)
  next
    case Diverges
    then have "m w = Diverges" using assms(1) by (metis erase.simps(3) simulates_def)
    then show ?thesis using Diverges by (simp add: seq_apply)
  qed
  then show ?thesis by (simp add: simulates_def)
qed

lemma simulates_attempt [intro]:
  assumes "simulates m' m" and "\<And>a. simulates (f' a) (f a)"
  shows "simulates (attempt m' f') (attempt m f)"
  unfolding attempt_def
proof (rule simulates_seq [OF assms(1)])
  fix r
  show "simulates (case r of Inl e \<Rightarrow> ret (Inl e) | Inr a \<Rightarrow> f' a) (case r of Inl e \<Rightarrow> ret (Inl e) | Inr a \<Rightarrow> f a)"
    using assms(2) by (cases r) auto
qed

definition emits :: "('a, 'w \<times> 'e list) io \<Rightarrow> ('a \<Rightarrow> 'e list \<Rightarrow> bool) \<Rightarrow> bool" where
  "emits m Q \<longleftrightarrow> (\<forall>s a s'. m s = Returns a s' \<longrightarrow> (\<exists>tr. snd s' = snd s @ tr \<and> Q a tr))"

lemma emits_ret: "Q a [] \<Longrightarrow> emits (ret a) Q"
  by (simp add: emits_def)

lemma emits_Returns: "Q a [] \<Longrightarrow> emits (Returns a) Q"
  by (simp add: emits_def)

lemma emits_panic: "emits panic Q"
  by (simp add: emits_def)

lemma emits_diverges: "emits (\<lambda>s. Diverges) Q"
  by (simp add: emits_def)

lemma emits_logged: "(\<And>a. Q a [ev a]) \<Longrightarrow> emits (lift (logged ev op)) Q"
  by (auto simp: emits_def lift_Returns logged_def split: prod.splits)

lemma emits_logged_io:
  "(\<And>w a w'. m w = Returns a w' \<Longrightarrow> P a) \<Longrightarrow> emits (logged_io ev m) (\<lambda>a tr. tr = [ev a] \<and> P a)"
  by (auto simp: emits_def logged_io_def split: exec.splits)

lemma emits_seq:
  assumes m: "emits m Q" and f: "\<And>a tr. Q a tr \<Longrightarrow> emits (f a) (\<lambda>b tr'. R b (tr @ tr'))"
  shows "emits (seq m f) R"
  unfolding emits_def
proof (intro allI impI)
  fix s b s'
  assume "seq m f s = Returns b s'"
  then obtain a s1 where a: "m s = Returns a s1" "f a s1 = Returns b s'" by (auto simp: seq_Returns)
  with m obtain tr where tr: "snd s1 = snd s @ tr" "Q a tr" unfolding emits_def by blast
  with f [OF tr(2)] a(2) obtain tr' where "snd s' = snd s1 @ tr'" "R b (tr @ tr')" unfolding emits_def by blast
  with tr show "\<exists>tr. snd s' = snd s @ tr \<and> R b tr" by auto
qed

lemma emits_seq_logged:
  "(\<And>a. emits (f a) (\<lambda>b tr. R b (ev a # tr))) \<Longrightarrow> emits (seq (lift (logged ev op)) f) R"
  by (rule emits_seq [OF emits_logged [where Q = "\<lambda>a tr. tr = [ev a]"]]) auto

lemma emits_seq_logged_io:
  assumes "\<And>w a w'. m w = Returns a w' \<Longrightarrow> P a" and "\<And>a. P a \<Longrightarrow> emits (f a) (\<lambda>b tr. R b (ev a # tr))"
  shows "emits (seq (logged_io ev m) f) R"
  by (rule emits_seq [OF emits_logged_io [OF assms(1)]]) (use assms(2) in auto)

lemma emits_mono: "emits m Q \<Longrightarrow> (\<And>a tr. Q a tr \<Longrightarrow> R a tr) \<Longrightarrow> emits m R"
  unfolding emits_def by blast

lemma emits_attempt:
  assumes "emits m Q" and "\<And>e tr. Q (Inl e) tr \<Longrightarrow> R (Inl e) tr"
    and "\<And>a tr. Q (Inr a) tr \<Longrightarrow> emits (f a) (\<lambda>b tr'. R b (tr @ tr'))"
  shows "emits (attempt m f) R"
  unfolding attempt_def
  by (rule emits_seq [OF assms(1)]) (use assms(2,3) in \<open>auto simp: emits_ret split: sum.split\<close>)

lemma emitsD: "emits m Q \<Longrightarrow> m (w, tr0) = Returns a (w', tr1) \<Longrightarrow> \<exists>tr. tr1 = tr0 @ tr \<and> Q a tr"
  by (force simp: emits_def)

end
