(* ===== verification/Net_Addr.thy ===== *)
theory Net_Addr
  imports Rust_Std "HOL-Library.Monad_Syntax"
begin

text \<open>
  IP and socket addresses (\<open>std::net\<close>): the address types, the grammar \<open>FromStr\<close> accepts, as the
  configuration parser uses it, and \<open>Display\<close>, as the audit record uses it.
\<close>

section \<open>Address types\<close>

datatype ipv4_addr = Ipv4 u8 u8 u8 u8

text \<open>An IPv6 address is its eight segments.\<close>

datatype ipv6_addr = Ipv6 "u16 list"

datatype socket_addr =
    SocketV4 ipv4_addr u16
  | SocketV6 ipv6_addr u16 u32

fun octets :: "ipv4_addr \<Rightarrow> bytes" where
  "octets (Ipv4 a b c d) = [a, b, c, d]"

definition IPV4_UNSPECIFIED :: ipv4_addr where
  "IPV4_UNSPECIFIED = Ipv4 0 0 0 0"

section \<open>Parsing\<close>

text \<open>
  Parsers read a prefix of their input. \<open>None\<close> is failure; the caller keeps its own position, which
  is what \<open>read_atomically\<close> does.
\<close>

type_synonym 'a parser = "rstr \<Rightarrow> ('a \<times> rstr) option"

definition read_given_char :: "rchar \<Rightarrow> unit parser" where
  "read_given_char c s = (case s of [] \<Rightarrow> None | x # xs \<Rightarrow> if x = c then Some ((), xs) else None)"

definition read_separator :: "rchar \<Rightarrow> nat \<Rightarrow> 'a parser \<Rightarrow> 'a parser" where
  "read_separator sep index p s =
     (if index > 0 then do { (_, s) \<leftarrow> read_given_char sep s; p s } else p s)"

definition to_digit :: "nat \<Rightarrow> rchar \<Rightarrow> nat option" where
  "to_digit radix c =
     (let d = (if 48 \<le> c \<and> c \<le> 57 then c - 48
               else if 97 \<le> c \<and> c \<le> 122 then c - 97 + 10
               else if 65 \<le> c \<and> c \<le> 90 then c - 65 + 10 else radix)
      in if d < radix then Some d else None)"

text \<open>
  The digit loop: with a limit on the number of digits the value is checked at the end, without
  one at each step (\<open>checked_mul\<close>, \<open>checked_add\<close>).
\<close>

fun read_digits :: "nat \<Rightarrow> nat option \<Rightarrow> nat \<Rightarrow> nat \<Rightarrow> nat \<Rightarrow> rstr \<Rightarrow> ((nat \<times> nat) \<times> rstr) option" where
  "read_digits radix max_digits bits r digit_count [] = Some ((r, digit_count), [])"
| "read_digits radix max_digits bits r digit_count (c # cs) =
     (case to_digit radix c of
        None \<Rightarrow> Some ((r, digit_count), c # cs)
      | Some d \<Rightarrow>
          (case max_digits of
             Some m \<Rightarrow> if digit_count + 1 > m then None
                       else read_digits radix max_digits bits (r * radix + d) (digit_count + 1) cs
           | None \<Rightarrow> if r * radix + d \<ge> 2 ^ bits then None
                     else read_digits radix max_digits bits (r * radix + d) (digit_count + 1) cs))"

definition read_number :: "nat \<Rightarrow> nat option \<Rightarrow> nat \<Rightarrow> bool \<Rightarrow> nat parser" where
  "read_number radix max_digits bits allow_zero_prefix s =
     (let has_leading_zero = (s \<noteq> [] \<and> hd s = 48)
      in do { ((r, digit_count), s') \<leftarrow> read_digits radix max_digits bits 0 0 s;
              if digit_count = 0 then None
              else if \<not> allow_zero_prefix \<and> has_leading_zero \<and> digit_count > 1 then None
              else if r < 2 ^ bits then Some (r, s') else None })"

definition read_ipv4_addr :: "ipv4_addr parser" where
  "read_ipv4_addr s =
     do { (a, s) \<leftarrow> read_separator 46 0 (read_number 10 (Some 3) 8 False) s;
          (b, s) \<leftarrow> read_separator 46 1 (read_number 10 (Some 3) 8 False) s;
          (c, s) \<leftarrow> read_separator 46 2 (read_number 10 (Some 3) 8 False) s;
          (d, s) \<leftarrow> read_separator 46 3 (read_number 10 (Some 3) 8 False) s;
          Some (Ipv4 (of_nat a) (of_nat b) (of_nat c) (of_nat d), s) }"

text \<open>
  \<open>read_groups\<close>: the groups from index \<open>i\<close> up to \<open>limit\<close>, whether the last two are an embedded
  IPv4 address, and the rest of the input.
\<close>

function read_groups :: "nat \<Rightarrow> nat \<Rightarrow> rstr \<Rightarrow> u16 list \<times> bool \<times> rstr" where
  "read_groups i limit s =
     (if i \<ge> limit then ([], False, s)
      else
        (case (if i + 1 < limit then read_separator 58 i read_ipv4_addr s else None) of
           Some (Ipv4 a b c d, s') \<Rightarrow> ([u16_from_be a b, u16_from_be c d], True, s')
         | None \<Rightarrow>
             (case read_separator 58 i (read_number 16 (Some 4) 16 True) s of
                None \<Rightarrow> ([], False, s)
              | Some (g, s') \<Rightarrow>
                  (let (gs, v4, s'') = read_groups (i + 1) limit s' in (of_nat g # gs, v4, s'')))))"
  by pat_completeness auto
termination
  by (relation "measure (\<lambda>(i, limit, s). limit - i)") auto

definition read_ipv6_addr :: "ipv6_addr parser" where
  "read_ipv6_addr s =
     (let (hd_groups, head_ipv4, s1) = read_groups 0 8 s
      in if length hd_groups = 8 then Some (Ipv6 hd_groups, s1)
         else if head_ipv4 then None
         else
           do { (_, s2) \<leftarrow> read_given_char 58 s1;
                (_, s3) \<leftarrow> read_given_char 58 s2;
                (let (tl_groups, _, s4) = read_groups 0 (8 - (length hd_groups + 1)) s3
                 in Some (Ipv6 (hd_groups @ replicate (8 - length hd_groups - length tl_groups) 0 @ tl_groups), s4)) })"

definition read_port :: "nat parser" where
  "read_port s = do { (_, s) \<leftarrow> read_given_char 58 s; read_number 10 None 16 True s }"

definition read_scope_id :: "nat parser" where
  "read_scope_id s = do { (_, s) \<leftarrow> read_given_char 37 s; read_number 10 None 32 True s }"

definition read_socket_addr_v4 :: "socket_addr parser" where
  "read_socket_addr_v4 s =
     do { (ip, s) \<leftarrow> read_ipv4_addr s; (port, s) \<leftarrow> read_port s; Some (SocketV4 ip (of_nat port), s) }"

definition read_socket_addr_v6 :: "socket_addr parser" where
  "read_socket_addr_v6 s =
     do { (_, s) \<leftarrow> read_given_char 91 s;
          (ip, s) \<leftarrow> read_ipv6_addr s;
          (scope, s) \<leftarrow> (case read_scope_id s of Some r \<Rightarrow> Some r | None \<Rightarrow> Some (0, s));
          (_, s) \<leftarrow> read_given_char 93 s;
          (port, s) \<leftarrow> read_port s;
          Some (SocketV6 ip (of_nat port) (of_nat scope), s) }"

definition parse_with :: "'a parser \<Rightarrow> rstr \<Rightarrow> 'a option" where
  "parse_with p s = do { (a, rest) \<leftarrow> p s; if rest = [] then Some a else None }"

definition ipv4_from_str :: "rstr \<Rightarrow> ipv4_addr option" where
  "ipv4_from_str s = (if length (as_bytes s) > 15 then None else parse_with read_ipv4_addr s)"

definition socket_addr_from_str :: "rstr \<Rightarrow> socket_addr option" where
  "socket_addr_from_str s =
     parse_with (\<lambda>s. case read_socket_addr_v4 s of Some r \<Rightarrow> Some r | None \<Rightarrow> read_socket_addr_v6 s) s"

section \<open>Display\<close>

text \<open>The decimal and lower-case hexadecimal digits of a number.\<close>

fun digits :: "nat \<Rightarrow> nat \<Rightarrow> rstr" where
  "digits radix n =
     (if radix \<le> 1 \<or> n < radix then [if n < 10 then 48 + n else 87 + n]
      else digits radix (n div radix) @ [if n mod radix < 10 then 48 + n mod radix else 87 + n mod radix])"

declare digits.simps [simp del]

definition dec :: "nat \<Rightarrow> rstr" where
  "dec n = digits 10 n"

fun ipv4_to_string :: "ipv4_addr \<Rightarrow> rstr" where
  "ipv4_to_string (Ipv4 a b c d) = dec (unat a) @ [46] @ dec (unat b) @ [46] @ dec (unat c) @ [46] @ dec (unat d)"

text \<open>The first longest run of zero segments, as its start and length.\<close>

fun longest_zeros :: "nat \<Rightarrow> u16 list \<Rightarrow> nat \<times> nat \<Rightarrow> nat \<times> nat \<Rightarrow> nat \<times> nat" where
  "longest_zeros i [] current longest = longest"
| "longest_zeros i (g # gs) (cs, cl) (ls, ll) =
     (if g = 0 then
        let current = (if cl = 0 then i else cs, cl + 1)
        in longest_zeros (i + 1) gs current (if snd current > ll then current else (ls, ll))
      else longest_zeros (i + 1) gs (0, 0) (ls, ll))"

fun fmt_groups :: "u16 list \<Rightarrow> rstr" where
  "fmt_groups [] = []"
| "fmt_groups [g] = digits 16 (unat g)"
| "fmt_groups (g # gs) = digits 16 (unat g) @ [58] @ fmt_groups gs"

fun ipv6_to_string :: "ipv6_addr \<Rightarrow> rstr" where
  "ipv6_to_string (Ipv6 gs) =
     (if take 6 gs = [0, 0, 0, 0, 0, 0xFFFF] \<and> length gs = 8 then
        lit ''::ffff:'' @
          (case (u16_to_be (gs ! 6), u16_to_be (gs ! 7)) of ([a, b], [c, d]) \<Rightarrow> ipv4_to_string (Ipv4 a b c d) | _ \<Rightarrow> [])
      else
        (let (start, len) = longest_zeros 0 gs (0, 0) (0, 0)
         in if len > 1 then fmt_groups (take start gs) @ [58, 58] @ fmt_groups (drop (start + len) gs)
            else fmt_groups gs))"

fun socket_addr_to_string :: "socket_addr \<Rightarrow> rstr" where
  "socket_addr_to_string (SocketV4 ip port) = ipv4_to_string ip @ [58] @ dec (unat port)"
| "socket_addr_to_string (SocketV6 ip port scope) =
     [91] @ ipv6_to_string ip @ (if scope = 0 then [] else [37] @ dec (unat scope)) @ [93, 58] @ dec (unat port)"

section \<open>Display is read back\<close>

lemma to_digit_10: "d < 10 \<Longrightarrow> to_digit 10 (48 + d) = Some d"
  by (simp add: to_digit_def)

lemma to_digit_sep [simp]: "to_digit 10 46 = None" "to_digit 10 58 = None"
  by (simp_all add: to_digit_def)

definition no_digit :: "nat \<Rightarrow> rstr \<Rightarrow> bool" where
  "no_digit radix s \<longleftrightarrow> s = [] \<or> to_digit radix (hd s) = None"

lemma read_digits_stop: "no_digit radix s \<Longrightarrow> read_digits radix m bits r k s = Some ((r, k), s)"
  by (cases s) (auto simp: no_digit_def)

text \<open>Reading the decimal digits of a number after a value \<open>r\<close> already read.\<close>

lemma dec_unfold: "dec n = (if n < 10 then [48 + n] else dec (n div 10) @ [48 + n mod 10])"
  unfolding dec_def by (subst digits.simps) auto

lemma length_dec: "length (dec n) = (if n < 10 then 1 else length (dec (n div 10)) + 1)"
  by (subst dec_unfold) auto

lemma hd_dec: "dec n \<noteq> [] \<and> (n \<noteq> 0 \<longrightarrow> hd (dec n) \<noteq> 48)"
proof (induction n rule: less_induct)
  case (less n)
  show ?case
  proof (cases "n < 10")
    case True
    then have "dec n = [48 + n]" by (subst dec_unfold) simp
    then show ?thesis by simp
  next
    case False
    then have "dec (n div 10) \<noteq> []" "hd (dec (n div 10)) \<noteq> 48" using less [of "n div 10"] by auto
    with False show ?thesis by (subst (1 2) dec_unfold) auto
  qed
qed

lemma read_digits_append:
  "read_digits radix m bits r k (xs @ ys) =
     (case read_digits radix m bits r k xs of None \<Rightarrow> None
      | Some ((r', k'), []) \<Rightarrow> read_digits radix m bits r' k' ys
      | Some ((r', k'), z # zs) \<Rightarrow> Some ((r', k'), (z # zs) @ ys))"
  by (induction radix m bits r k xs rule: read_digits.induct) (auto split: option.splits)

lemma read_digits_dec_max:
  "length (dec n) \<le> m \<Longrightarrow> read_digits 10 (Some m) bits 0 0 (dec n) = Some ((n, length (dec n)), [])"
proof (induction n rule: less_induct)
  case (less n)
  show ?case
  proof (cases "n < 10")
    case True
    then show ?thesis using less.prems by (subst dec_unfold, subst length_dec) (simp add: to_digit_10 length_dec)
  next
    case False
    then have l: "length (dec n) = length (dec (n div 10)) + 1" by (subst length_dec) simp
    have "dec n = dec (n div 10) @ [48 + n mod 10]" using False by (subst dec_unfold) simp
    then show ?thesis
      using less False l by (simp add: read_digits_append to_digit_10)
  qed
qed

lemma read_digits_dec_checked:
  "n < 2 ^ bits \<Longrightarrow> read_digits 10 None bits 0 0 (dec n) = Some ((n, length (dec n)), [])"
proof (induction n rule: less_induct)
  case (less n)
  show ?case
  proof (cases "n < 10")
    case True
    then show ?thesis using less.prems by (subst dec_unfold, subst length_dec) (simp add: to_digit_10)
  next
    case False
    have "n div 10 \<le> n" by simp
    then have "n div 10 < 2 ^ bits" using less.prems by (rule le_less_trans)
    moreover have l: "length (dec n) = length (dec (n div 10)) + 1" using False by (subst length_dec) simp
    moreover have "dec n = dec (n div 10) @ [48 + n mod 10]" using False by (subst dec_unfold) simp
    ultimately show ?thesis
      using less False by (simp add: read_digits_append to_digit_10)
  qed
qed

lemma length_dec_u8: "n < 256 \<Longrightarrow> length (dec n) \<le> 3"
  by (subst length_dec, subst length_dec, subst length_dec) auto

lemma length_dec_pos: "0 < length (dec n)"
  using hd_dec [of n] by simp

lemma leading_zero: "hd (dec n @ s) = 48 \<Longrightarrow> length (dec n) = 1"
  using hd_dec [of n] by (cases "n = 0") (auto simp: length_dec)

lemma read_number_octet:
  assumes "n < 256" and "no_digit 10 s"
  shows "read_number 10 (Some 3) 8 False (dec n @ s) = Some (n, s)"
  using assms length_dec_u8 [of n] length_dec_pos [of n] leading_zero [of n s]
  by (simp add: read_number_def read_digits_append read_digits_dec_max read_digits_stop)

lemma read_number_u16:
  assumes "n < 65536" and "no_digit 10 s"
  shows "read_number 10 None 16 True (dec n @ s) = Some (n, s)"
  using assms length_dec_pos [of n]
  by (simp add: read_number_def read_digits_append read_digits_dec_checked read_digits_stop)

lemma no_digit_sep [simp]: "no_digit 10 (46 # s)" "no_digit 10 (58 # s)" "no_digit 10 []"
  by (simp_all add: no_digit_def)

lemma read_ipv4_to_string:
  "no_digit 10 s \<Longrightarrow> read_ipv4_addr (ipv4_to_string ip @ s) = Some (ip, s)"
  by (cases ip)
    (simp add: read_ipv4_addr_def read_separator_def read_given_char_def read_number_octet)

lemma length_ipv4_to_string: "length (ipv4_to_string ip) \<le> 15"
proof (cases ip)
  case (Ipv4 a b c d)
  then show ?thesis
    using length_dec_u8 [of "unat a"] length_dec_u8 [of "unat b"] length_dec_u8 [of "unat c"]
      length_dec_u8 [of "unat d"] by simp
qed

lemma socket_v4_roundtrip: "socket_addr_from_str (socket_addr_to_string (SocketV4 ip port)) = Some (SocketV4 ip port)"
proof -
  have "read_socket_addr_v4 (socket_addr_to_string (SocketV4 ip port)) = Some (SocketV4 ip port, [])"
    using read_number_u16 [of "unat port" "[]"] unat_u16_less [of port]
    by (simp add: read_socket_addr_v4_def read_ipv4_to_string read_port_def read_given_char_def)
  then show ?thesis by (simp add: socket_addr_from_str_def parse_with_def)
qed

end
