(* ===== verification/Radius_Types.thy ===== *)
theory Radius_Types
  imports Rust_Std
begin

text \<open>
  The constants, codes and error types of \<open>crates/radius/src/lib.rs\<close>.
\<close>

abbreviation MIN_PACKET_LEN :: nat where "MIN_PACKET_LEN \<equiv> 20"
abbreviation MAX_PACKET_LEN :: nat where "MAX_PACKET_LEN \<equiv> 4096"
abbreviation VENDOR_ID_MICROSOFT :: u32 where "VENDOR_ID_MICROSOFT \<equiv> 311"

section \<open>Packet codes\<close>

datatype code = AccessRequest | AccessAccept | AccessReject | AccessChallenge

fun code_as_u8 :: "code \<Rightarrow> u8" where
  "code_as_u8 AccessRequest = 1"
| "code_as_u8 AccessAccept = 2"
| "code_as_u8 AccessReject = 3"
| "code_as_u8 AccessChallenge = 11"

definition code_from_u8 :: "u8 \<Rightarrow> code option" where
  "code_from_u8 v =
     (if v = 1 then Some AccessRequest
      else if v = 2 then Some AccessAccept
      else if v = 3 then Some AccessReject
      else if v = 11 then Some AccessChallenge
      else None)"

lemma code_from_as_u8 [simp]: "code_from_u8 (code_as_u8 c) = Some c"
  by (cases c) (simp_all add: code_from_u8_def)

lemma code_from_u8_Some: "code_from_u8 v = Some c \<longleftrightarrow> v = code_as_u8 c"
  by (cases c) (auto simp: code_from_u8_def)

section \<open>Attribute types\<close>

abbreviation USER_NAME :: u8 where "USER_NAME \<equiv> 1"
abbreviation USER_PASSWORD :: u8 where "USER_PASSWORD \<equiv> 2"
abbreviation NAS_IP_ADDRESS :: u8 where "NAS_IP_ADDRESS \<equiv> 4"
abbreviation REPLY_MESSAGE :: u8 where "REPLY_MESSAGE \<equiv> 18"
abbreviation STATE :: u8 where "STATE \<equiv> 24"
abbreviation VENDOR_SPECIFIC :: u8 where "VENDOR_SPECIFIC \<equiv> 26"
abbreviation NAS_IDENTIFIER :: u8 where "NAS_IDENTIFIER \<equiv> 32"
abbreviation MESSAGE_AUTHENTICATOR :: u8 where "MESSAGE_AUTHENTICATOR \<equiv> 80"

section \<open>Errors\<close>

datatype parse_error =
    PacketTooShort
  | PacketTooLong
  | LengthFieldInvalid
  | LengthExceedsDatagram
  | AttributeLengthInvalid
  | AttributeOverrun
  | VendorTooShort
  | VendorLengthInvalid

datatype encode_error =
    ValueTooLong
  | EncPacketTooLong
  | MalformedPacket
  | MissingMessageAuthenticator
  | DuplicateMessageAuthenticator

datatype rng_error = RngError

section \<open>Cryptographic primitives\<close>

text \<open>
  MD5, HMAC-MD5, MD4, SHA-1 and single-block DES come from the RustCrypto crates, which are not
  part of the repository. They are parameters of the model, collected in one record that the
  definitions take as their first argument. \<open>hmac_md5_mac\<close> is \<open>None\<close> where
  \<open>HmacMd5::new_from_slice\<close> fails. The documented output lengths are the predicate \<open>crypto_ok\<close>,
  the only thing any theorem assumes of them.
\<close>

record crypto =
  md5 :: "bytes \<Rightarrow> bytes"
  hmac_md5_mac :: "bytes \<Rightarrow> bytes \<Rightarrow> bytes option"
  md4 :: "bytes \<Rightarrow> bytes"
  sha1 :: "bytes \<Rightarrow> bytes"
  des_encrypt :: "bytes \<Rightarrow> bytes \<Rightarrow> bytes"

definition crypto_ok :: "crypto \<Rightarrow> bool" where
  "crypto_ok K \<longleftrightarrow>
     (\<forall>m. length (md5 K m) = 16) \<and>
     (\<forall>k m t. hmac_md5_mac K k m = Some t \<longrightarrow> length t = 16) \<and>
     (\<forall>m. length (md4 K m) = 16) \<and>
     (\<forall>m. length (sha1 K m) = 20) \<and>
     (\<forall>k m. length (des_encrypt K k m) = 8)"

lemma crypto_ok_lengths:
  assumes "crypto_ok K"
  shows "length (md5 K m) = 16" and "hmac_md5_mac K k m = Some t \<Longrightarrow> length t = 16"
    and "length (md4 K m) = 16" and "length (sha1 K m) = 20" and "length (des_encrypt K k m) = 8"
  using assms by (auto simp: crypto_ok_def)

text \<open>
  A concrete instance for evaluating the model: checksum-like functions of the right output
  lengths, sensitive to their inputs.
\<close>

definition mix :: "nat \<Rightarrow> bytes \<Rightarrow> bytes" where
  "mix n m = map (\<lambda>i. of_nat i + foldl (\<lambda>h b. 3 * h + b + 1) 7 m) [0..<n]"

definition demo_crypto :: crypto where
  "demo_crypto =
     \<lparr>md5 = mix 16, hmac_md5_mac = (\<lambda>k m. Some (mix 16 (k @ m))), md4 = mix 16, sha1 = mix 20,
      des_encrypt = (\<lambda>k m. mix 8 (k @ m))\<rparr>"

lemma length_mix [simp]: "length (mix n m) = n"
  by (simp add: mix_def)

lemma demo_crypto_ok: "crypto_ok demo_crypto"
  by (auto simp: crypto_ok_def demo_crypto_def)

end
