(* ===== verification/Radius_Parse.thy ===== *)
theory Radius_Parse
  imports Radius_Types
begin

text \<open>
  The bounded response parser (\<open>crates/radius/src/parse.rs\<close>): the header check, the attribute
  walk with its callback, the Vendor-Specific check, \<open>parse_response\<close> and
  \<open>decode_vendor_specific\<close>; the reference grammar of an attribute region (\<open>tlvs\<close>) and the lemmas
  that the walk implements it.
\<close>

section \<open>The parser\<close>

record parsed_response =
  pr_code :: u8
  pr_id :: u8
  pr_authenticator :: bytes
  pr_attrs :: "(u8 \<times> bytes) list"

definition known_code :: "parsed_response \<Rightarrow> code option" where
  "known_code r = code_from_u8 (pr_code r)"

definition attr_values :: "parsed_response \<Rightarrow> u8 \<Rightarrow> bytes list" where
  "attr_values r attr_type = map snd (filter (\<lambda>a. fst a = attr_type) (pr_attrs r))"

definition declared_length :: "bytes \<Rightarrow> parse_error + nat" where
  "declared_length packet =
     (if length packet < MIN_PACKET_LEN then Inl PacketTooShort
      else if length packet > MAX_PACKET_LEN then Inl PacketTooLong
      else let declared = unat (u16_from_be (packet ! 2) (packet ! 3))
           in if \<not> (MIN_PACKET_LEN \<le> declared \<and> declared \<le> MAX_PACKET_LEN) then Inl LengthFieldInvalid
              else if declared > length packet then Inl LengthExceedsDatagram
              else Inr declared)"

text \<open>
  The walk over the attribute region. The closure \<open>f\<close> receives the offset, type and value of
  each attribute and updates the variables it captures, the state \<open>'s\<close>.
\<close>

type_synonym 's attr_fn = "nat \<Rightarrow> u8 \<Rightarrow> bytes \<Rightarrow> 's \<Rightarrow> parse_error + 's"

function walk_attrs :: "bytes \<Rightarrow> 's attr_fn \<Rightarrow> nat \<Rightarrow> 's \<Rightarrow> parse_error + 's" where
  "walk_attrs attrs f off s =
     (if off < length attrs then
        if length attrs - off < 2 then Inl AttributeLengthInvalid
        else
          let attr_type = attrs ! off;
              attr_len = unat (attrs ! (off + 1))
          in if attr_len < 2 then Inl AttributeLengthInvalid
             else if attr_len > length attrs - off then Inl AttributeOverrun
             else (case f off attr_type (slice (off + 2) (off + attr_len) attrs) s of
                     Inl e \<Rightarrow> Inl e
                   | Inr s' \<Rightarrow> walk_attrs attrs f (off + attr_len) s')
      else Inr s)"
  by pat_completeness auto
termination
  by (relation "measure (\<lambda>(attrs, f, off, s). length attrs - off)") auto

declare walk_attrs.simps [simp del]

definition for_each_attribute :: "bytes \<Rightarrow> 's attr_fn \<Rightarrow> 's \<Rightarrow> parse_error + 's" where
  "for_each_attribute attrs f s = walk_attrs attrs f 0 s"

function vendor_walk :: "bytes \<Rightarrow> nat \<Rightarrow> parse_error + unit" where
  "vendor_walk v off =
     (if off < length v then
        if length v - off < 2 then Inl VendorLengthInvalid
        else let vlen = unat (v ! (off + 1))
             in if vlen < 2 \<or> vlen > length v - off then Inl VendorLengthInvalid
                else vendor_walk v (off + vlen)
      else Inr ())"
  by pat_completeness auto
termination
  by (relation "measure (\<lambda>(v, off). length v - off)") auto

declare vendor_walk.simps [simp del]

definition validate_vendor_specific :: "bytes \<Rightarrow> parse_error + unit" where
  "validate_vendor_specific v = (if length v < 6 then Inl VendorTooShort else vendor_walk v 4)"

definition collect_attr :: "(u8 \<times> bytes) list attr_fn" where
  "collect_attr off attr_type v attrs =
     and_then (if attr_type = VENDOR_SPECIFIC then validate_vendor_specific v else Inr ())
       (\<lambda>_. Inr (attrs @ [(attr_type, v)]))"

definition parse_response :: "bytes \<Rightarrow> parse_error + parsed_response" where
  "parse_response packet =
     and_then (declared_length packet) (\<lambda>declared.
     and_then (for_each_attribute (slice 20 declared packet) collect_attr []) (\<lambda>attrs.
       Inr \<lparr>pr_code = packet ! 0, pr_id = packet ! 1,
            pr_authenticator = slice 4 20 packet, pr_attrs = attrs\<rparr>))"

record vendor_specific =
  vendor_id :: u32
  vendor_type :: u8
  vendor_data :: bytes

definition decode_vendor_specific :: "bytes \<Rightarrow> parse_error + vendor_specific" where
  "decode_vendor_specific v =
     (if length v < 6 then Inl VendorTooShort
      else let vlen = unat (v ! 5)
           in if vlen < 2 \<or> vlen \<noteq> length v - 4 then Inl VendorLengthInvalid
              else Inr \<lparr>vendor_id = u32_from_be (v ! 0) (v ! 1) (v ! 2) (v ! 3),
                        vendor_type = v ! 4, vendor_data = drop 6 v\<rparr>)"

section \<open>The grammar of an attribute region\<close>

text \<open>
  An attribute region is a sequence of \<open>type, length, value\<close> entries whose length octet covers
  the entry. \<open>tlvs\<close> reads a region into its entries, each with its offset; \<open>enc_attr\<close> writes one
  entry. The index-based walk of the code is a fold over \<open>tlvs\<close>.
\<close>

type_synonym tlv = "nat \<times> u8 \<times> bytes"

definition enc_attr :: "u8 \<times> bytes \<Rightarrow> bytes" where
  "enc_attr a = fst a # as_u8 (length (snd a) + 2) # snd a"

definition enc_attrs :: "(u8 \<times> bytes) list \<Rightarrow> bytes" where
  "enc_attrs as = concat (map enc_attr as)"

function tlvs :: "nat \<Rightarrow> bytes \<Rightarrow> tlv list \<times> parse_error option" where
  "tlvs off [] = ([], None)"
| "tlvs off [t] = ([], Some AttributeLengthInvalid)"
| "tlvs off (t # l # rest) =
     (if unat l < 2 then ([], Some AttributeLengthInvalid)
      else if unat l - 2 > length rest then ([], Some AttributeOverrun)
      else let (ts, e) = tlvs (off + unat l) (drop (unat l - 2) rest)
           in ((off, t, take (unat l - 2) rest) # ts, e))"
  by pat_completeness auto
termination
  by (relation "measure (\<lambda>(off, bs). length bs)") auto

fun fold_tlvs :: "'s attr_fn \<Rightarrow> tlv list \<Rightarrow> 's \<Rightarrow> parse_error + 's" where
  "fold_tlvs f [] s = Inr s"
| "fold_tlvs f ((off, t, v) # ts) s =
     (case f off t v s of Inl e \<Rightarrow> Inl e | Inr s' \<Rightarrow> fold_tlvs f ts s')"

definition run_tlvs :: "'s attr_fn \<Rightarrow> tlv list \<times> parse_error option \<Rightarrow> 's \<Rightarrow> parse_error + 's" where
  "run_tlvs f p s =
     (case fold_tlvs f (fst p) s of Inl e \<Rightarrow> Inl e
      | Inr s' \<Rightarrow> (case snd p of None \<Rightarrow> Inr s' | Some e \<Rightarrow> Inl e))"

lemma walk_attrs_tlvs:
  "off \<le> length attrs \<Longrightarrow> walk_attrs attrs f off s = run_tlvs f (tlvs off (drop off attrs)) s"
proof (induction attrs f off s rule: walk_attrs.induct)
  case (1 attrs f off s)
  consider (empty) "off = length attrs" | (one) "length attrs - off = 1"
    | (more) t l rest where "drop off attrs = t # l # rest"
  proof -
    assume a: "off = length attrs \<Longrightarrow> thesis" "length attrs - off = 1 \<Longrightarrow> thesis"
      "\<And>t l rest. drop off attrs = t # l # rest \<Longrightarrow> thesis"
    show thesis
    proof (cases "2 \<le> length (drop off attrs)")
      case True
      then show ?thesis by (elim length_ge_2E) (rule a(3))
    next
      case False
      then have "length attrs - off = 0 \<or> length attrs - off = 1" by auto
      with "1.prems" a(1,2) show ?thesis by force
    qed
  qed
  then show ?case
  proof cases
    case empty
    then show ?thesis by (simp add: walk_attrs.simps run_tlvs_def)
  next
    case one
    then obtain t where "drop off attrs = [t]" by (cases "drop off attrs") (auto dest: arg_cong [of _ _ length])
    with one show ?thesis by (simp add: walk_attrs.simps run_tlvs_def)
  next
    case more
    have t: "attrs ! off = t" and l: "attrs ! (off + 1) = l"
      using more nth_drop [OF "1.prems", of 0] nth_drop [OF "1.prems", of 1] by simp_all
    have len: "length attrs - off = Suc (Suc (length rest))"
      using arg_cong [OF more, of length] by simp
    have rest: "drop (off + 2) attrs = rest"
      using arg_cong [OF more, of "drop 2"] by (simp add: add.commute)
    show ?thesis
    proof (cases "2 \<le> unat l \<and> unat l - 2 \<le> length rest")
      case False
      then show ?thesis using len t l more
        by (auto simp: walk_attrs.simps [of attrs f off s] run_tlvs_def Let_def)
    next
      case True
      have v: "slice (off + 2) (off + unat l) attrs = take (unat l - 2) rest"
        using True rest by (simp add: slice_def)
      have d: "drop (off + unat l) attrs = drop (unat l - 2) rest"
      proof -
        have "off + unat l = unat l - 2 + (off + 2)" using True by linarith
        then show ?thesis by (simp only: rest [symmetric] drop_drop)
      qed
      have w: "walk_attrs attrs f off s = (case f off t (take (unat l - 2) rest) s of
                 Inl e \<Rightarrow> Inl e | Inr s' \<Rightarrow> walk_attrs attrs f (off + unat l) s')"
      proof -
        have "off < length attrs" "\<not> unat l > length attrs - off" using len True by linarith+
        then show ?thesis using len True t l v by (simp add: walk_attrs.simps [of attrs f off s] Let_def)
      qed
      have "walk_attrs attrs f (off + unat l) s' = run_tlvs f (tlvs (off + unat l) (drop (unat l - 2) rest)) s'"
        if "f off t (take (unat l - 2) rest) s = Inr s'" for s'
        using "1.IH" [OF _ _ refl refl, of s'] that len True t l v d by auto
      then show ?thesis using True
        by (simp add: w more run_tlvs_def split: prod.splits sum.splits)
    qed
  qed
qed

lemma for_each_attribute_tlvs: "for_each_attribute attrs f s = run_tlvs f (tlvs 0 attrs) s"
  by (simp add: for_each_attribute_def walk_attrs_tlvs)

subsection \<open>Writing and reading a region\<close>

fun with_offs :: "nat \<Rightarrow> (u8 \<times> bytes) list \<Rightarrow> tlv list" where
  "with_offs off [] = []"
| "with_offs off ((t, v) # as) = (off, t, v) # with_offs (off + length v + 2) as"

definition short_attrs :: "(u8 \<times> bytes) list \<Rightarrow> bool" where
  "short_attrs as \<longleftrightarrow> list_all (\<lambda>a. length (snd a) \<le> 253) as"

lemma enc_attrs_Nil [simp]: "enc_attrs [] = []"
  by (simp add: enc_attrs_def)

lemma enc_attrs_Cons [simp]: "enc_attrs (a # as) = enc_attr a @ enc_attrs as"
  by (simp add: enc_attrs_def)

lemma enc_attrs_append [simp]: "enc_attrs (as @ bs) = enc_attrs as @ enc_attrs bs"
  by (simp add: enc_attrs_def)

lemma length_enc_attr [simp]: "length (enc_attr a) = length (snd a) + 2"
  by (simp add: enc_attr_def)

lemma short_attrs_simps [simp]:
  "short_attrs []" "short_attrs (a # as) \<longleftrightarrow> length (snd a) \<le> 253 \<and> short_attrs as"
  "short_attrs (as @ bs) \<longleftrightarrow> short_attrs as \<and> short_attrs bs"
  by (simp_all add: short_attrs_def)

lemma map_snd_with_offs [simp]: "map snd (with_offs off as) = as"
  by (induction off as rule: with_offs.induct) auto

lemma tlvs_enc_attrs: "short_attrs as \<Longrightarrow> tlvs off (enc_attrs as) = (with_offs off as, None)"
proof (induction as arbitrary: off)
  case Nil
  then show ?case by simp
next
  case (Cons a as)
  obtain t v where a: "a = (t, v)" by force
  have "unat (as_u8 (length v + 2)) = length v + 2" using Cons.prems by (simp add: a)
  then show ?case using Cons by (simp add: a enc_attr_def add.assoc)
qed

lemma tlvs_None:
  "tlvs off bs = (ts, None) \<Longrightarrow>
     bs = enc_attrs (map snd ts) \<and> short_attrs (map snd ts) \<and> ts = with_offs off (map snd ts)"
proof (induction off bs arbitrary: ts rule: tlvs.induct)
  case (3 off t l rest)
  from "3.prems" have ok: "2 \<le> unat l" "unat l - 2 \<le> length rest" by (auto split: if_splits)
  with "3.prems" obtain ts' where ts: "tlvs (off + unat l) (drop (unat l - 2) rest) = (ts', None)"
      "ts = (off, t, take (unat l - 2) rest) # ts'"
    by (auto simp: Let_def split: prod.splits)
  have IH: "drop (unat l - 2) rest = enc_attrs (map snd ts')" "short_attrs (map snd ts')"
      "ts' = with_offs (off + unat l) (map snd ts')"
    using "3.IH" [of ts'] ok ts(1) by auto
  have len: "length (take (unat l - 2) rest) = unat l - 2" using ok by simp
  have "l # rest = as_u8 (length (take (unat l - 2) rest) + 2) # take (unat l - 2) rest @ drop (unat l - 2) rest"
  proof -
    have "unat l - 2 + 2 = unat l" using ok by simp
    then show ?thesis by (simp add: len del: length_take)
  qed
  moreover have "length (take (unat l - 2) rest) \<le> 253" using unat_u8_le [of l] unfolding len by linarith
  moreover have "with_offs (off + length (take (unat l - 2) rest) + 2) (map snd ts') = ts'"
  proof -
    have "off + length (take (unat l - 2) rest) + 2 = off + unat l" unfolding len using ok by linarith
    then show ?thesis using IH(3) by (simp only:)
  qed
  ultimately show ?case using IH(1,2) by (simp add: ts(2) enc_attr_def del: length_take)
qed simp_all

lemma tlvs_offset: "snd (tlvs off bs) = snd (tlvs off' bs)" "map snd (fst (tlvs off bs)) = map snd (fst (tlvs off' bs))"
proof (induction off bs arbitrary: off' rule: tlvs.induct)
  case (3 off t l rest)
  {
    case 1 show ?case using "3.IH"(1) [of "off' + unat l"] by (auto simp: Let_def split: prod.splits)
  next
    case 2 show ?case using "3.IH"(2) [of "off' + unat l"] by (auto simp: Let_def split: prod.splits)
  }
qed simp_all

lemma vendor_walk_tlvs:
  "off \<le> length v \<Longrightarrow>
     vendor_walk v off = (if snd (tlvs off (drop off v)) = None then Inr () else Inl VendorLengthInvalid)"
proof -
  assume off: "off \<le> length v"
  have "vendor_walk v off = map_err (\<lambda>_. VendorLengthInvalid) (walk_attrs v (\<lambda>_ _ _ _. Inr ()) off ())"
  proof (induction v off rule: vendor_walk.induct)
    case (1 v off)
    show ?case
      by (subst vendor_walk.simps, subst walk_attrs.simps) (use "1.IH" in \<open>auto simp: Let_def\<close>)
  qed
  moreover have "fold_tlvs (\<lambda>_ _ _ _. Inr ()) ts () = Inr ()" for ts
    by (induction ts) auto
  ultimately show ?thesis
    using off by (simp add: walk_attrs_tlvs run_tlvs_def split: option.splits)
qed

definition vsa_ok :: "bytes \<Rightarrow> bool" where
  "vsa_ok v \<longleftrightarrow> 6 \<le> length v \<and> snd (tlvs 0 (drop 4 v)) = None"

lemma validate_vendor_specific_ok: "validate_vendor_specific v = Inr () \<longleftrightarrow> vsa_ok v"
  using tlvs_offset(1) [of 4 "drop 4 v" 0]
  by (auto simp: validate_vendor_specific_def vsa_ok_def vendor_walk_tlvs)

lemma vsa_ok_iff:
  "vsa_ok v \<longleftrightarrow> 6 \<le> length v \<and> (\<exists>inner. drop 4 v = enc_attrs inner \<and> short_attrs inner)"
proof -
  have "snd (tlvs 0 bs) = None \<longleftrightarrow> (\<exists>inner. bs = enc_attrs inner \<and> short_attrs inner)" for bs
  proof
    assume "snd (tlvs 0 bs) = None"
    then show "\<exists>inner. bs = enc_attrs inner \<and> short_attrs inner"
      using tlvs_None [of 0 bs "fst (tlvs 0 bs)"] by (metis prod.collapse)
  next
    assume "\<exists>inner. bs = enc_attrs inner \<and> short_attrs inner"
    then show "snd (tlvs 0 bs) = None" by (auto simp: tlvs_enc_attrs)
  qed
  then show ?thesis by (simp add: vsa_ok_def)
qed

subsection \<open>What parse_response accepts\<close>

definition wf_attrs :: "(u8 \<times> bytes) list \<Rightarrow> bool" where
  "wf_attrs as \<longleftrightarrow> short_attrs as \<and> list_all (\<lambda>a. fst a = VENDOR_SPECIFIC \<longrightarrow> vsa_ok (snd a)) as"

definition packet_bytes :: "u8 \<Rightarrow> u8 \<Rightarrow> bytes \<Rightarrow> (u8 \<times> bytes) list \<Rightarrow> bytes" where
  "packet_bytes c i auth as =
     [c, i] @ u16_to_be (of_nat (20 + length (enc_attrs as))) @ auth @ enc_attrs as"

lemma length_packet_bytes [simp]: "length (packet_bytes c i auth as) = 4 + length auth + length (enc_attrs as)"
  by (simp add: packet_bytes_def)

lemma packet_bytes_nth:
  "packet_bytes c i auth as ! 0 = c" "packet_bytes c i auth as ! 1 = i"
  "packet_bytes c i auth as ! 2 = as_u8 (unat (of_nat (20 + length (enc_attrs as)) :: u16) div 256)"
  "packet_bytes c i auth as ! 3 = as_u8 (unat (of_nat (20 + length (enc_attrs as)) :: u16) mod 256)"
  by (simp_all add: packet_bytes_def u16_to_be_def numeral_2_eq_2 numeral_3_eq_3)

lemma packet_bytes_slices:
  assumes "length auth = 16"
  shows "slice 4 20 (packet_bytes c i auth as) = auth" and "drop 20 (packet_bytes c i auth as) = enc_attrs as"
    and "take 4 (packet_bytes c i auth as) = [c, i] @ u16_to_be (of_nat (20 + length (enc_attrs as)))"
  using assms by (simp_all add: packet_bytes_def slice_def u16_to_be_def)

lemma declared_packet_bytes:
  assumes "length auth = 16" and "20 + length (enc_attrs as) \<le> 4096"
  shows "unat (u16_from_be (packet_bytes c i auth as ! 2) (packet_bytes c i auth as ! 3)) = 20 + length (enc_attrs as)"
proof -
  have "unat (of_nat (20 + length (enc_attrs as)) :: u16) = 20 + length (enc_attrs as)"
    using assms(2) by (intro unat_of_nat_u16_small) simp
  then show ?thesis unfolding packet_bytes_nth unat_u16_from_be
    using assms(2) by (simp add: less_mult_imp_div_less)
qed

lemma declared_length_Inr:
  "declared_length p = Inr d \<longleftrightarrow>
     length p \<le> 4096 \<and> d = unat (u16_from_be (p ! 2) (p ! 3)) \<and> 20 \<le> d \<and> d \<le> length p"
  by (auto simp: declared_length_def Let_def)

lemma fold_collect:
  "fold_tlvs collect_attr ts acc = Inr attrs \<longleftrightarrow>
     list_all (\<lambda>a. fst a = VENDOR_SPECIFIC \<longrightarrow> vsa_ok (snd a)) (map snd ts) \<and> attrs = acc @ map snd ts"
proof (induction ts arbitrary: acc)
  case Nil
  then show ?case by auto
next
  case (Cons a ts)
  obtain off t v where a: "a = (off, t, v)" by (metis prod_cases3)
  show ?case
  proof (cases "t = VENDOR_SPECIFIC \<and> validate_vendor_specific v \<noteq> Inr ()")
    case True
    then show ?thesis
      by (cases "validate_vendor_specific v") (auto simp: a collect_attr_def validate_vendor_specific_ok [symmetric])
  next
    case False
    then show ?thesis using Cons.IH [of "acc @ [(t, v)]"]
      by (auto simp: a collect_attr_def validate_vendor_specific_ok [symmetric])
  qed
qed

lemma collect_attrs_Inr:
  "for_each_attribute bs collect_attr [] = Inr attrs \<longleftrightarrow> bs = enc_attrs attrs \<and> wf_attrs attrs"
proof -
  obtain ts e where ts: "tlvs 0 bs = (ts, e)" by force
  have "for_each_attribute bs collect_attr [] = Inr attrs \<longleftrightarrow> e = None \<and> fold_tlvs collect_attr ts [] = Inr attrs"
    unfolding for_each_attribute_tlvs run_tlvs_def ts by (simp split: sum.split option.split)
  also have "\<dots> \<longleftrightarrow>
          e = None \<and> list_all (\<lambda>a. fst a = VENDOR_SPECIFIC \<longrightarrow> vsa_ok (snd a)) (map snd ts) \<and> attrs = map snd ts"
    by (simp add: fold_collect)
  also have "\<dots> \<longleftrightarrow> bs = enc_attrs attrs \<and> wf_attrs attrs"
  proof
    assume "e = None \<and> list_all (\<lambda>a. fst a = VENDOR_SPECIFIC \<longrightarrow> vsa_ok (snd a)) (map snd ts) \<and> attrs = map snd ts"
    then show "bs = enc_attrs attrs \<and> wf_attrs attrs" using tlvs_None [of 0 bs ts] ts by (auto simp: wf_attrs_def)
  next
    assume a: "bs = enc_attrs attrs \<and> wf_attrs attrs"
    then have "tlvs 0 bs = (with_offs 0 attrs, None)" by (simp add: tlvs_enc_attrs wf_attrs_def)
    with ts a show "e = None \<and> list_all (\<lambda>a. fst a = VENDOR_SPECIFIC \<longrightarrow> vsa_ok (snd a)) (map snd ts) \<and> attrs = map snd ts"
      by (auto simp: wf_attrs_def)
  qed
  finally show ?thesis .
qed

lemma collect_enc_attrs [simp]: "wf_attrs as \<Longrightarrow> for_each_attribute (enc_attrs as) collect_attr [] = Inr as"
  by (simp add: collect_attrs_Inr)

lemma packet_bytes_intro:
  assumes "20 \<le> d" "d \<le> length p" "length p \<le> 4096" "d = unat (u16_from_be (p ! 2) (p ! 3))"
    and attrs: "slice 20 d p = enc_attrs as"
  shows "p = packet_bytes (p ! 0) (p ! 1) (slice 4 20 p) as @ drop d p"
proof -
  have len: "20 + length (enc_attrs as) = d" using assms(1-3) arg_cong [OF attrs, of length] by simp
  have hd: "take 4 p = [p ! 0, p ! 1, p ! 2, p ! 3]"
    using assms(1,2) by (intro take_4_nth) simp
  have "of_nat d = u16_from_be (p ! 2) (p ! 3)" by (simp add: assms(4))
  then have "u16_to_be (of_nat d) = [p ! 2, p ! 3]" by (simp only: u16_to_be_from_be)
  then have "packet_bytes (p ! 0) (p ! 1) (slice 4 20 p) as = take 4 p @ slice 4 20 p @ slice 20 d p"
    by (simp add: packet_bytes_def len hd attrs)
  also have "\<dots> = take 20 p @ slice 20 d p" using take_slice_append [of 4 20 p] by simp
  also have "\<dots> = take d p" using take_slice_append [of 20 d p] assms(1) by simp
  finally show ?thesis by simp
qed

text \<open>
  Soundness and completeness of the parser: it accepts exactly the datagrams made of a packet
  whose Length field is its own length, within the limits, whose attributes are well formed, and
  of trailing padding.
\<close>

lemma parse_response_Inr:
  "parse_response p = Inr r \<longleftrightarrow>
     (\<exists>pad. p = packet_bytes (pr_code r) (pr_id r) (pr_authenticator r) (pr_attrs r) @ pad) \<and>
     length (pr_authenticator r) = 16 \<and> wf_attrs (pr_attrs r) \<and> length p \<le> 4096"
proof
  assume "parse_response p = Inr r"
  then obtain d attrs where d: "declared_length p = Inr d"
      and as: "for_each_attribute (slice 20 d p) collect_attr [] = Inr attrs"
      and r: "r = \<lparr>pr_code = p ! 0, pr_id = p ! 1, pr_authenticator = slice 4 20 p, pr_attrs = attrs\<rparr>"
    by (auto simp: parse_response_def and_then_Inr)
  have D: "length p \<le> 4096" "d = unat (u16_from_be (p ! 2) (p ! 3))" "20 \<le> d" "d \<le> length p"
    using d by (auto simp: declared_length_Inr)
  have A: "slice 20 d p = enc_attrs attrs" "wf_attrs attrs" using as by (auto simp: collect_attrs_Inr)
  show "(\<exists>pad. p = packet_bytes (pr_code r) (pr_id r) (pr_authenticator r) (pr_attrs r) @ pad) \<and>
     length (pr_authenticator r) = 16 \<and> wf_attrs (pr_attrs r) \<and> length p \<le> 4096"
    using packet_bytes_intro [OF D(3,4,1,2) A(1)] D A(2) by (auto simp: r)
next
  assume a: "(\<exists>pad. p = packet_bytes (pr_code r) (pr_id r) (pr_authenticator r) (pr_attrs r) @ pad) \<and>
     length (pr_authenticator r) = 16 \<and> wf_attrs (pr_attrs r) \<and> length p \<le> 4096"
  then obtain pad where p: "p = packet_bytes (pr_code r) (pr_id r) (pr_authenticator r) (pr_attrs r) @ pad" by blast
  let ?q = "packet_bytes (pr_code r) (pr_id r) (pr_authenticator r) (pr_attrs r)"
  let ?d = "20 + length (enc_attrs (pr_attrs r))"
  have len: "length ?q = ?d" "?d \<le> 4096" using a p by auto
  have nth: "p ! k = ?q ! k" if "k < 20" for k using that len by (simp add: p nth_append)
  have "declared_length p = Inr ?d"
    unfolding declared_length_Inr using a len declared_packet_bytes [of "pr_authenticator r" "pr_attrs r"]
    by (simp add: nth) (simp add: p)
  moreover have "slice 20 ?d p = enc_attrs (pr_attrs r)"
    using len a packet_bytes_slices(2) [of "pr_authenticator r"]
    by (simp add: p slice_append_left slice_to_end)
  moreover have "slice 4 20 p = pr_authenticator r"
    using len a packet_bytes_slices(1) [of "pr_authenticator r"] by (simp add: p slice_append_left)
  ultimately show "parse_response p = Inr r"
    using a by (simp add: parse_response_def nth packet_bytes_nth [unfolded One_nat_def])
qed

section \<open>The interface of the attribute walk\<close>

text \<open>
  \<open>parse_response\<close>, the verifiers of \<open>auth.rs\<close> and \<open>fill_message_authenticator\<close> all use
  \<open>for_each_attribute\<close> through the same contract: on a well-formed region the closure is folded
  over the entries with their offsets, and the walk succeeds on no other region.
\<close>

locale attribute_walk =
  fixes walk :: "bytes \<Rightarrow> 's attr_fn \<Rightarrow> 's \<Rightarrow> parse_error + 's"
  assumes walk_entries: "short_attrs as \<Longrightarrow> walk (enc_attrs as) f s = fold_tlvs f (with_offs 0 as) s"
    and walk_region: "walk bs f s = Inr s' \<Longrightarrow> \<exists>as. short_attrs as \<and> bs = enc_attrs as"
begin

lemma walk_Inr_iff:
  "walk bs f s = Inr s' \<longleftrightarrow>
     (\<exists>as. short_attrs as \<and> bs = enc_attrs as \<and> fold_tlvs f (with_offs 0 as) s = Inr s')"
  using walk_region walk_entries by fastforce

end

interpretation walk: attribute_walk for_each_attribute
proof
  fix as :: "(u8 \<times> bytes) list" and f :: "'s attr_fn" and s :: 's
  assume "short_attrs as"
  then show "for_each_attribute (enc_attrs as) f s = fold_tlvs f (with_offs 0 as) s"
    by (simp add: for_each_attribute_tlvs tlvs_enc_attrs run_tlvs_def split: sum.splits)
next
  fix bs and f :: "'s attr_fn" and s s' :: 's
  assume "for_each_attribute bs f s = Inr s'"
  then have "snd (tlvs 0 bs) = None"
    by (auto simp: for_each_attribute_tlvs run_tlvs_def split: sum.splits option.splits)
  then show "\<exists>as. short_attrs as \<and> bs = enc_attrs as"
    using tlvs_None [of 0 bs "fst (tlvs 0 bs)"] by (metis prod.collapse)
qed

lemma enc_attrs_inject: "short_attrs as \<Longrightarrow> short_attrs bs \<Longrightarrow> enc_attrs as = enc_attrs bs \<longleftrightarrow> as = bs"
  using tlvs_enc_attrs [of as 0] tlvs_enc_attrs [of bs 0] map_snd_with_offs by (metis prod.inject)

lemma parse_response_region:
  assumes "parse_response p = Inr r"
  obtains d where "declared_length p = Inr d" and "slice 20 d p = enc_attrs (pr_attrs r)"
    and "slice 4 20 p = pr_authenticator r" and "take 4 p = [pr_code r, pr_id r] @ u16_to_be (of_nat d)"
    and "d = 20 + length (enc_attrs (pr_attrs r))" and "p ! 0 = pr_code r" and "p ! 1 = pr_id r"
    and "20 \<le> d" and "d \<le> length p" and "length p \<le> 4096"
proof -
  from assms obtain d attrs where d: "declared_length p = Inr d"
      and as: "for_each_attribute (slice 20 d p) collect_attr [] = Inr attrs"
      and r: "r = \<lparr>pr_code = p ! 0, pr_id = p ! 1, pr_authenticator = slice 4 20 p, pr_attrs = attrs\<rparr>"
    by (auto simp: parse_response_def and_then_Inr)
  have D: "length p \<le> 4096" "20 \<le> d" "d \<le> length p" "of_nat d = u16_from_be (p ! 2) (p ! 3)"
    using d by (auto simp: declared_length_Inr)
  have A: "slice 20 d p = enc_attrs attrs" using as by (auto simp: collect_attrs_Inr)
  have dl: "d = 20 + length (enc_attrs attrs)" using D(1-3) arg_cong [OF A, of length] by simp
  have t4: "take 4 p = [p ! 0, p ! 1] @ u16_to_be (of_nat d)"
    unfolding D(4) u16_to_be_from_be using D(2,3) take_4_nth [of p] by simp
  show ?thesis
    by (rule that [OF d]) (use A t4 dl D(1-3) in \<open>simp_all add: r\<close>)
qed

end
