(* ===== verification/Radius_Auth.thy ===== *)
theory Radius_Auth
  imports Radius_Parse
begin

text \<open>
  Authenticator and Message-Authenticator computation and verification
  (\<open>crates/radius/src/auth.rs\<close>), with the lemmas that say what the verifiers accept in terms of the
  parsed response.
\<close>

section \<open>Computation and verification\<close>

definition hmac_md5 :: "crypto \<Rightarrow> bytes \<Rightarrow> bytes list \<Rightarrow> bytes option" where
  "hmac_md5 K key parts = hmac_md5_mac K key (concat parts)"

definition message_authenticator :: "crypto \<Rightarrow> bytes \<Rightarrow> bytes \<Rightarrow> bytes" where
  "message_authenticator K packet_with_ma_zeroed secret =
     (case hmac_md5 K secret [packet_with_ma_zeroed] of None \<Rightarrow> zeros 16 | Some mac \<Rightarrow> mac)"

definition response_authenticator :: "crypto \<Rightarrow> u8 \<Rightarrow> u8 \<Rightarrow> u16 \<Rightarrow> bytes \<Rightarrow> bytes \<Rightarrow> bytes \<Rightarrow> bytes" where
  "response_authenticator K c i len request_authenticator attributes_ma_filled secret =
     md5 K ([c, i] @ u16_to_be len @ request_authenticator @ attributes_ma_filled @ secret)"

definition verify_response_authenticator :: "crypto \<Rightarrow> bytes \<Rightarrow> bytes \<Rightarrow> bytes \<Rightarrow> bool" where
  "verify_response_authenticator K packet request_authenticator secret =
     (case parse_response packet of Inl e \<Rightarrow> False
      | Inr _ \<Rightarrow>
        (case declared_length packet of Inl e \<Rightarrow> False
         | Inr declared \<Rightarrow>
             response_authenticator K (packet ! 0) (packet ! 1) (of_nat declared) request_authenticator
               (slice 20 declared packet) secret
             = slice 4 20 packet))"

text \<open>
  The closure of \<open>verify_response_message_authenticator\<close>: the captured variables are the copy of
  the attribute region, the received value and the flag \<open>invalid\<close>.
\<close>

definition collect_ma :: "(bytes \<times> bytes option \<times> bool) attr_fn" where
  "collect_ma off attr_type v st =
     (case st of (attrs, received, invalid) \<Rightarrow>
        if attr_type = MESSAGE_AUTHENTICATOR then
          if length v \<noteq> 16 \<or> received \<noteq> None then Inr (attrs, received, True)
          else Inr (splice (off + 2) (zeros 16) attrs, Some v, invalid)
        else Inr (attrs, received, invalid))"

definition verify_response_message_authenticator :: "crypto \<Rightarrow> bytes \<Rightarrow> bytes \<Rightarrow> bytes \<Rightarrow> bool" where
  "verify_response_message_authenticator K packet request_authenticator secret =
     (case parse_response packet of Inl e \<Rightarrow> False
      | Inr _ \<Rightarrow>
        (case declared_length packet of Inl e \<Rightarrow> False
         | Inr declared \<Rightarrow>
           (let region = slice 20 declared packet in
            case for_each_attribute region collect_ma (region, None, False) of Inl e \<Rightarrow> False
            | Inr (attrs, received, invalid) \<Rightarrow>
                if invalid then False
                else (case received of None \<Rightarrow> False
                      | Some ma \<Rightarrow>
                        (case hmac_md5 K secret [take 4 packet, request_authenticator, attrs] of None \<Rightarrow> False
                         | Some expected \<Rightarrow> expected = ma)))))"

section \<open>Message-Authenticator attributes in a list of attributes\<close>

definition ma_values :: "(u8 \<times> bytes) list \<Rightarrow> bytes list" where
  "ma_values as = map snd (filter (\<lambda>a. fst a = MESSAGE_AUTHENTICATOR) as)"

definition set_ma :: "bytes \<Rightarrow> (u8 \<times> bytes) list \<Rightarrow> (u8 \<times> bytes) list" where
  "set_ma mac as = map (\<lambda>a. if fst a = MESSAGE_AUTHENTICATOR then (fst a, mac) else a) as"

lemma ma_values_simps [simp]:
  "ma_values [] = []"
  "ma_values (a # as) = (if fst a = MESSAGE_AUTHENTICATOR then snd a # ma_values as else ma_values as)"
  "ma_values (as @ bs) = ma_values as @ ma_values bs"
  by (simp_all add: ma_values_def)

lemma set_ma_simps [simp]:
  "set_ma m [] = []"
  "set_ma m (a # as) = (if fst a = MESSAGE_AUTHENTICATOR then (fst a, m) else a) # set_ma m as"
  "set_ma m (as @ bs) = set_ma m as @ set_ma m bs"
  by (simp_all add: set_ma_def)

lemma set_ma_none: "ma_values as = [] \<Longrightarrow> set_ma m as = as"
  by (induction as) (auto split: if_splits)

lemma set_ma_same: "ma_values as = [m] \<Longrightarrow> set_ma m as = as"
  by (induction as) (auto simp: set_ma_none split: if_splits)

lemma set_ma_set_ma [simp]: "set_ma m (set_ma n as) = set_ma m as"
  by (induction as) auto

lemma ma_values_set_ma: "ma_values (set_ma m as) = map (\<lambda>_. m) (ma_values as)"
  by (induction as) auto

lemma short_set_ma: "length m \<le> 253 \<Longrightarrow> short_attrs as \<Longrightarrow> short_attrs (set_ma m as)"
  by (induction as) auto

lemma wf_set_ma: "length m \<le> 253 \<Longrightarrow> wf_attrs as \<Longrightarrow> wf_attrs (set_ma m as)"
  by (induction as) (auto simp: wf_attrs_def)

lemma length_enc_set_ma: "list_all (\<lambda>v. length v = length m) (ma_values as) \<Longrightarrow>
    length (enc_attrs (set_ma m as)) = length (enc_attrs as)"
  by (induction as) (auto split: if_splits)

text \<open>Overwriting the value of an entry in place.\<close>

lemma splice_enc_attr:
  assumes "length m = length v"
  shows "splice (length pre + 2) m (pre @ enc_attr (t, v) @ post) = pre @ enc_attr (t, m) @ post"
proof -
  have "splice (length pre + 2) m (pre @ enc_attr (t, v) @ post) = pre @ splice 2 m (enc_attr (t, v) @ post)"
    by (simp add: splice_append_right)
  also have "splice 2 m (enc_attr (t, v) @ post) = enc_attr (t, m) @ post"
    using assms by (simp add: splice_def enc_attr_def)
  finally show ?thesis .
qed

section \<open>What the verifiers accept\<close>

definition ma_fresh :: "bytes option \<Rightarrow> bytes list \<Rightarrow> bool" where
  "ma_fresh received mas \<longleftrightarrow> mas = [] \<or> (received = None \<and> length mas = 1 \<and> length (hd mas) = 16)"

lemma ma_fresh_iff: "ma_fresh None mas \<and> mas \<noteq> [] \<longleftrightarrow> (\<exists>m. mas = [m] \<and> length m = 16)"
  by (auto simp: ma_fresh_def length_Suc_conv)

lemma collect_ma_simps:
  "t \<noteq> MESSAGE_AUTHENTICATOR \<Longrightarrow> collect_ma off t v (R, rcv, bad) = Inr (R, rcv, bad)"
  "length v \<noteq> 16 \<or> rcv \<noteq> None \<Longrightarrow> collect_ma off MESSAGE_AUTHENTICATOR v (R, rcv, bad) = Inr (R, rcv, True)"
  "length v = 16 \<Longrightarrow>
     collect_ma off MESSAGE_AUTHENTICATOR v (R, None, bad) = Inr (splice (off + 2) (zeros 16) R, Some v, bad)"
  by (simp_all add: collect_ma_def)

definition ma_folded :: "bytes \<Rightarrow> (u8 \<times> bytes) list \<Rightarrow> bytes option \<Rightarrow> bool \<Rightarrow>
    bytes \<times> bytes option \<times> bool \<Rightarrow> bool" where
  "ma_folded pre as received invalid out \<longleftrightarrow>
     (case out of (R', received', invalid') \<Rightarrow>
        (invalid' \<longleftrightarrow> invalid \<or> \<not> ma_fresh received (ma_values as)) \<and>
        (\<not> invalid' \<longrightarrow> R' = pre @ enc_attrs (set_ma (zeros 16) as) \<and>
           received' = (if ma_values as = [] then received else Some (hd (ma_values as)))))"

lemma fold_collect_ma:
  assumes "invalid \<or> R = pre @ enc_attrs as"
  shows "\<exists>out. fold_tlvs collect_ma (with_offs (length pre) as) (R, received, invalid) = Inr out \<and>
    ma_folded pre as received invalid out"
  using assms
proof (induction as arbitrary: pre R received invalid)
  case Nil
  then show ?case by (auto simp: ma_fresh_def ma_folded_def)
next
  case (Cons a as)
  obtain t v where a: "a = (t, v)" by force
  have off: "with_offs (length pre) (a # as) = (length pre, t, v) # with_offs (length (pre @ enc_attr (t, v'))) as"
    if "length v' = length v" for v' using that by (simp add: a add.assoc)
  consider (other) "t \<noteq> MESSAGE_AUTHENTICATOR" | (bad) "t = MESSAGE_AUTHENTICATOR" "length v \<noteq> 16 \<or> received \<noteq> None"
    | (ma) "t = MESSAGE_AUTHENTICATOR" "length v = 16" "received = None" by blast
  then show ?case
  proof cases
    case other
    from Cons.prems have "invalid \<or> R = (pre @ enc_attr (t, v)) @ enc_attrs as" by (auto simp: a)
    from Cons.IH [OF this, of received] obtain out where
      "fold_tlvs collect_ma (with_offs (length (pre @ enc_attr (t, v))) as) (R, received, invalid) = Inr out"
      "ma_folded (pre @ enc_attr (t, v)) as received invalid out" by blast
    with other show ?thesis
      unfolding off [OF refl] fold_tlvs.simps collect_ma_simps(1) [OF other] by (auto simp: a ma_folded_def)
  next
    case bad
    from Cons.IH [of True R "pre @ enc_attr (t, v)" received] obtain out where
      "fold_tlvs collect_ma (with_offs (length (pre @ enc_attr (t, v))) as) (R, received, True) = Inr out"
      "ma_folded (pre @ enc_attr (t, v)) as received True out" by blast
    with bad(2) show ?thesis
      unfolding off [OF refl] fold_tlvs.simps bad(1) collect_ma_simps(2) [OF bad(2)]
      by (auto simp: a [unfolded bad(1)] ma_folded_def ma_fresh_def)
  next
    case ma
    have len: "length (zeros 16) = length v" using ma by simp
    have "invalid \<or> splice (length pre + 2) (zeros 16) R = (pre @ enc_attr (t, zeros 16)) @ enc_attrs as"
      using Cons.prems splice_enc_attr [OF len, of pre t "enc_attrs as"] by (auto simp: a)
    from Cons.IH [OF this, of "Some v"] obtain out where
      "fold_tlvs collect_ma (with_offs (length (pre @ enc_attr (t, zeros 16))) as)
         (splice (length pre + 2) (zeros 16) R, Some v, invalid) = Inr out"
      "ma_folded (pre @ enc_attr (t, zeros 16)) as (Some v) invalid out" by blast
    with ma(2) show ?thesis
      unfolding off [OF len] fold_tlvs.simps ma(1,3) collect_ma_simps(3) [OF ma(2)]
      by (auto simp: a [unfolded ma(1)] ma_folded_def ma_fresh_def)
  qed
qed

lemma verify_response_authenticator_iff:
  assumes p: "parse_response p = Inr r"
  shows "verify_response_authenticator K p ra secret \<longleftrightarrow>
    pr_authenticator r =
      response_authenticator K (pr_code r) (pr_id r) (of_nat (20 + length (enc_attrs (pr_attrs r)))) ra
        (enc_attrs (pr_attrs r)) secret"
proof -
  from p obtain d where "declared_length p = Inr d" "slice 20 d p = enc_attrs (pr_attrs r)"
      "slice 4 20 p = pr_authenticator r" "d = 20 + length (enc_attrs (pr_attrs r))"
      "p ! 0 = pr_code r" "p ! 1 = pr_id r"
    by (rule parse_response_region)
  with p show ?thesis by (auto simp: verify_response_authenticator_def)
qed

text \<open>
  The octets the Message-Authenticator of a response is computed over: the received header with
  the original Request Authenticator in place of the response's own, and the attributes with the
  Message-Authenticator value zeroed.
\<close>

definition response_ma_input :: "parsed_response \<Rightarrow> bytes \<Rightarrow> bytes" where
  "response_ma_input r ra = packet_bytes (pr_code r) (pr_id r) ra (set_ma (zeros 16) (pr_attrs r))"

lemma verify_response_message_authenticator_iff:
  assumes p: "parse_response p = Inr r"
  shows "verify_response_message_authenticator K p ra secret \<longleftrightarrow>
    (\<exists>ma. ma_values (pr_attrs r) = [ma] \<and> length ma = 16 \<and>
          hmac_md5_mac K secret (response_ma_input r ra) = Some ma)"
proof -
  from p obtain d where d: "declared_length p = Inr d" "slice 20 d p = enc_attrs (pr_attrs r)"
      "take 4 p = [pr_code r, pr_id r] @ u16_to_be (of_nat d)" "d = 20 + length (enc_attrs (pr_attrs r))"
    by (rule parse_response_region)
  have wf: "short_attrs (pr_attrs r)" using p by (auto simp: parse_response_Inr wf_attrs_def)
  obtain R' rcv bad where f: "fold_tlvs collect_ma (with_offs 0 (pr_attrs r)) (enc_attrs (pr_attrs r), None, False) = Inr (R', rcv, bad)"
    and i: "bad \<longleftrightarrow> \<not> ma_fresh None (ma_values (pr_attrs r))"
    and v: "\<not> bad \<Longrightarrow> R' = enc_attrs (set_ma (zeros 16) (pr_attrs r)) \<and>
       rcv = (if ma_values (pr_attrs r) = [] then None else Some (hd (ma_values (pr_attrs r))))"
    using fold_collect_ma [of False "enc_attrs (pr_attrs r)" "[]" "pr_attrs r" None] by (auto simp: ma_folded_def)
  have walk: "for_each_attribute (enc_attrs (pr_attrs r)) collect_ma (enc_attrs (pr_attrs r), None, False) = Inr (R', rcv, bad)"
    using walk.walk_entries [OF wf, of collect_ma] f by simp
  show ?thesis
  proof (cases "\<exists>m. ma_values (pr_attrs r) = [m] \<and> length m = 16")
    case True
    then obtain m where m: "ma_values (pr_attrs r) = [m]" "length m = 16" by blast
    then have ni: "\<not> bad" using i by (simp add: ma_fresh_def)
    have "length (enc_attrs (set_ma (zeros 16) (pr_attrs r))) = length (enc_attrs (pr_attrs r))"
      by (rule length_enc_set_ma) (simp add: m)
    then have "concat [take 4 p, ra, R'] = response_ma_input r ra"
      using v [OF ni] d(3,4) by (simp add: response_ma_input_def packet_bytes_def)
    then show ?thesis
      using p d(1,2) walk ni v [OF ni] m
      by (auto simp: verify_response_message_authenticator_def Let_def hmac_md5_def split: option.splits)
  next
    case False
    then have "bad \<or> rcv = None" using i v ma_fresh_iff [of "ma_values (pr_attrs r)"] by auto
    then show ?thesis using p d(1,2) walk False
      by (auto simp: verify_response_message_authenticator_def Let_def)
  qed
qed

end
