(* ===== verification/Radius_Packet.thy ===== *)
theory Radius_Packet
  imports Radius_Auth Effects
begin

text \<open>
  Attribute encoding and Access-Request assembly (\<open>crates/radius/src/packet.rs\<close>): the packet
  builder, and the in-place computation of the Message-Authenticator. The lemmas give the octets
  that are built (\<open>packet_bytes\<close> of the attributes added so far) and the exact outcome of
  \<open>fill_message_authenticator\<close> on every packet.
\<close>

section \<open>Encoding and building\<close>

abbreviation MAX_ATTR_VALUE_LEN :: nat where "MAX_ATTR_VALUE_LEN \<equiv> 253"

definition encode_attribute :: "u8 \<Rightarrow> bytes \<Rightarrow> encode_error + bytes" where
  "encode_attribute attr_type v =
     (if length v > MAX_ATTR_VALUE_LEN then Inl ValueTooLong
      else let total = length v + 2 in Inr ([attr_type] @ [as_u8 total] @ v))"

definition fresh_request_authenticator :: "(bytes option, 'w) io \<Rightarrow> (rng_error + bytes, 'w) io" where
  "fresh_request_authenticator getrandom = seq getrandom (\<lambda>r. ret (ok_or RngError r))"

record packet_builder =
  pb_code :: code
  pb_id :: u8
  pb_authenticator :: bytes
  pb_attributes :: bytes

definition packet_builder_new :: "code \<Rightarrow> u8 \<Rightarrow> bytes \<Rightarrow> packet_builder" where
  "packet_builder_new c i authenticator =
     \<lparr>pb_code = c, pb_id = i, pb_authenticator = authenticator, pb_attributes = []\<rparr>"

definition attribute :: "packet_builder \<Rightarrow> u8 \<Rightarrow> bytes \<Rightarrow> encode_error + packet_builder" where
  "attribute pb attr_type v =
     and_then (encode_attribute attr_type v) (\<lambda>encoded.
       if MIN_PACKET_LEN + length (pb_attributes pb) + length encoded > MAX_PACKET_LEN then Inl EncPacketTooLong
       else Inr (pb\<lparr>pb_attributes := pb_attributes pb @ encoded\<rparr>))"

definition message_authenticator_placeholder :: "packet_builder \<Rightarrow> encode_error + packet_builder" where
  "message_authenticator_placeholder pb = attribute pb MESSAGE_AUTHENTICATOR (zeros 16)"

definition build :: "packet_builder \<Rightarrow> encode_error + bytes" where
  "build pb =
     (let total = MIN_PACKET_LEN + length (pb_attributes pb)
      in if total > MAX_PACKET_LEN then Inl EncPacketTooLong
         else Inr ([code_as_u8 (pb_code pb)] @ [pb_id pb] @ u16_to_be (of_nat total)
                   @ pb_authenticator pb @ pb_attributes pb))"

section \<open>Filling the Message-Authenticator\<close>

text \<open>
  The closure of \<open>fill_message_authenticator\<close>, with its captured variables \<open>ma_value_off\<close>,
  \<open>bad_length\<close> and \<open>duplicate\<close>.
\<close>

definition find_ma :: "(nat option \<times> bool \<times> bool) attr_fn" where
  "find_ma off attr_type v st =
     (case st of (ma_value_off, bad_length, duplicate) \<Rightarrow>
        if attr_type = MESSAGE_AUTHENTICATOR then
          if length v \<noteq> 16 then Inr (ma_value_off, True, duplicate)
          else if ma_value_off \<noteq> None then Inr (ma_value_off, bad_length, True)
          else Inr (Some (MIN_PACKET_LEN + off + 2), bad_length, duplicate)
        else Inr (ma_value_off, bad_length, duplicate))"

definition fill_message_authenticator :: "crypto \<Rightarrow> bytes \<Rightarrow> bytes \<Rightarrow> encode_error + bytes" where
  "fill_message_authenticator K packet secret =
     (if length packet < MIN_PACKET_LEN \<or> length packet > MAX_PACKET_LEN then Inl MalformedPacket
      else if unat (u16_from_be (packet ! 2) (packet ! 3)) \<noteq> length packet then Inl MalformedPacket
      else
        (case for_each_attribute (drop MIN_PACKET_LEN packet) find_ma (None, False, False) of
           Inl e \<Rightarrow> Inl MalformedPacket
         | Inr (ma_value_off, bad_length, duplicate) \<Rightarrow>
             if bad_length then Inl MalformedPacket
             else if duplicate then Inl DuplicateMessageAuthenticator
             else
               and_then (ok_or MissingMessageAuthenticator ma_value_off) (\<lambda>off.
                 let zeroed = splice off (zeros 16) packet;
                     mac = message_authenticator K zeroed secret
                 in Inr (splice off mac zeroed))))"

section \<open>What is built\<close>

lemma encode_attribute_eq:
  "encode_attribute t v = (if length v \<le> 253 then Inr (enc_attr (t, v)) else Inl ValueTooLong)"
  by (simp add: encode_attribute_def enc_attr_def)

text \<open>A builder holding the attributes \<open>as\<close>.\<close>

definition builder_with :: "code \<Rightarrow> u8 \<Rightarrow> bytes \<Rightarrow> (u8 \<times> bytes) list \<Rightarrow> packet_builder" where
  "builder_with c i auth as =
     \<lparr>pb_code = c, pb_id = i, pb_authenticator = auth, pb_attributes = enc_attrs as\<rparr>"

definition fits :: "(u8 \<times> bytes) list \<Rightarrow> bool" where
  "fits as \<longleftrightarrow> short_attrs as \<and> 20 + length (enc_attrs as) \<le> 4096"

lemma fits_Nil [simp]: "fits []"
  by (simp add: fits_def)

lemma fits_append: "fits (as @ bs) \<Longrightarrow> fits as"
  by (simp add: fits_def)

lemma packet_builder_new_eq: "packet_builder_new c i auth = builder_with c i auth []"
  by (simp add: packet_builder_new_def builder_with_def)

lemma attribute_builder_with:
  "attribute (builder_with c i auth as) t v =
     (if length v > 253 then Inl ValueTooLong
      else if 20 + length (enc_attrs as) + (length v + 2) > 4096 then Inl EncPacketTooLong
      else Inr (builder_with c i auth (as @ [(t, v)])))"
  by (simp add: attribute_def encode_attribute_eq builder_with_def)

lemma attribute_Inr:
  "fits as \<Longrightarrow> attribute (builder_with c i auth as) t v = Inr pb \<longleftrightarrow>
     fits (as @ [(t, v)]) \<and> pb = builder_with c i auth (as @ [(t, v)])"
  by (auto simp: attribute_builder_with fits_def)

lemma build_builder_with:
  "fits as \<Longrightarrow> build (builder_with c i auth as) = Inr (packet_bytes (code_as_u8 c) i auth as)"
  by (simp add: build_def builder_with_def packet_bytes_def fits_def)

section \<open>What is filled\<close>

lemma with_offs_append: "with_offs n (as @ bs) = with_offs n as @ with_offs (n + length (enc_attrs as)) bs"
  by (induction n as rule: with_offs.induct) (auto simp: ac_simps)

lemma fold_tlvs_append:
  "fold_tlvs f (ts @ us) s = (case fold_tlvs f ts s of Inl e \<Rightarrow> Inl e | Inr s' \<Rightarrow> fold_tlvs f us s')"
  by (induction f ts s rule: fold_tlvs.induct) (auto split: sum.splits)

lemma ma_values_single:
  "ma_values as = [m] \<Longrightarrow>
     \<exists>as1 as2. as = as1 @ (MESSAGE_AUTHENTICATOR, m) # as2 \<and> ma_values as1 = [] \<and> ma_values as2 = []"
proof (induction as)
  case (Cons a as)
  show ?case
  proof (cases "fst a = MESSAGE_AUTHENTICATOR")
    case True
    with Cons.prems have "a # as = [] @ (MESSAGE_AUTHENTICATOR, m) # as \<and> ma_values as = []"
      by (cases a) auto
    then show ?thesis by (metis ma_values_simps(1))
  next
    case False
    with Cons obtain as1 as2 where "as = as1 @ (MESSAGE_AUTHENTICATOR, m) # as2" "ma_values as1 = []" "ma_values as2 = []"
      by auto
    with False have "a # as = (a # as1) @ (MESSAGE_AUTHENTICATOR, m) # as2 \<and> ma_values (a # as1) = []" by simp
    with \<open>ma_values as2 = []\<close> show ?thesis by blast
  qed
qed simp

lemma find_ma_simps:
  "t \<noteq> MESSAGE_AUTHENTICATOR \<Longrightarrow> find_ma off t v (o', b, d) = Inr (o', b, d)"
  "length v \<noteq> 16 \<Longrightarrow> find_ma off MESSAGE_AUTHENTICATOR v (o', b, d) = Inr (o', True, d)"
  "length v = 16 \<Longrightarrow> find_ma off MESSAGE_AUTHENTICATOR v (Some k, b, d) = Inr (Some k, b, True)"
  "length v = 16 \<Longrightarrow>
     find_ma off MESSAGE_AUTHENTICATOR v (None, b, d) = Inr (Some (MIN_PACKET_LEN + off + 2), b, d)"
  by (simp_all add: find_ma_def)

lemma fold_find_ma_none:
  "ma_values (map snd ts) = [] \<Longrightarrow> fold_tlvs find_ma ts (o', b, d) = Inr (o', b, d)"
  by (induction ts) (auto simp: find_ma_simps split: if_splits)

lemma fold_find_ma_Some:
  "\<exists>b d. fold_tlvs find_ma ts (Some off, bad, dup) = Inr (Some off, b, d) \<and>
     (b \<longleftrightarrow> bad \<or> (\<exists>v\<in>set (ma_values (map snd ts)). length v \<noteq> 16)) \<and>
     (\<not> b \<longrightarrow> (d \<longleftrightarrow> dup \<or> ma_values (map snd ts) \<noteq> []))"
proof (induction ts arbitrary: bad dup)
  case Nil
  then show ?case by auto
next
  case (Cons a ts)
  obtain o' t v where a: "a = (o', t, v)" by (metis prod_cases3)
  consider "t \<noteq> MESSAGE_AUTHENTICATOR" | "t = MESSAGE_AUTHENTICATOR" "length v \<noteq> 16"
    | "t = MESSAGE_AUTHENTICATOR" "length v = 16" by blast
  then show ?case
  proof cases
    case 1
    with Cons.IH [of bad dup] show ?thesis by (simp add: a find_ma_simps)
  next
    case 2
    with Cons.IH [of True dup] show ?thesis by (simp add: a find_ma_simps) blast
  next
    case 3
    with Cons.IH [of bad True] show ?thesis by (simp add: a find_ma_simps)
  qed
qed

lemma fold_find_ma_None:
  "\<exists>o' b d. fold_tlvs find_ma ts (None, bad, False) = Inr (o', b, d) \<and>
     (b \<longleftrightarrow> bad \<or> (\<exists>v\<in>set (ma_values (map snd ts)). length v \<noteq> 16)) \<and>
     (\<not> b \<longrightarrow> (d \<longleftrightarrow> 2 \<le> length (ma_values (map snd ts))) \<and> (o' = None \<longleftrightarrow> ma_values (map snd ts) = []))"
proof (induction ts arbitrary: bad)
  case Nil
  then show ?case by auto
next
  case (Cons a ts)
  obtain o' t v where a: "a = (o', t, v)" by (metis prod_cases3)
  consider "t \<noteq> MESSAGE_AUTHENTICATOR" | "t = MESSAGE_AUTHENTICATOR" "length v \<noteq> 16"
    | "t = MESSAGE_AUTHENTICATOR" "length v = 16" by blast
  then show ?case
  proof cases
    case 1
    with Cons.IH [of bad] show ?thesis by (simp add: a find_ma_simps)
  next
    case 2
    with Cons.IH [of True] show ?thesis by (simp add: a find_ma_simps) blast
  next
    case 3
    with fold_find_ma_Some [of ts "MIN_PACKET_LEN + o' + 2" bad False] show ?thesis
      by (simp add: a find_ma_simps Suc_le_eq) blast
  qed
qed

lemma fold_find_ma_single:
  assumes "ma_values as = [m]" and "length m = 16"
    and "as = as1 @ (MESSAGE_AUTHENTICATOR, m) # as2" and "ma_values as1 = []" and "ma_values as2 = []"
  shows "fold_tlvs find_ma (with_offs 0 as) (None, False, False) =
    Inr (Some (20 + length (enc_attrs as1) + 2), False, False)"
  using assms by (simp add: with_offs_append fold_tlvs_append fold_find_ma_none find_ma_simps)

text \<open>
  The outcome of \<open>fill_message_authenticator\<close> on a packet, as a function of its
  Message-Authenticator attributes.
\<close>

definition filled :: "crypto \<Rightarrow> u8 \<Rightarrow> u8 \<Rightarrow> bytes \<Rightarrow> (u8 \<times> bytes) list \<Rightarrow> bytes \<Rightarrow> bytes" where
  "filled K c i auth as secret =
     packet_bytes c i auth
       (set_ma (message_authenticator K (packet_bytes c i auth (set_ma (zeros 16) as)) secret) as)"

lemma length_message_authenticator: "crypto_ok K \<Longrightarrow> length (message_authenticator K p s) = 16"
  by (auto simp: message_authenticator_def hmac_md5_def crypto_ok_lengths split: option.splits)

lemma splice_packet_bytes:
  assumes "length auth = 16" and "as = as1 @ (MESSAGE_AUTHENTICATOR, m) # as2"
    and "ma_values as1 = []" and "ma_values as2 = []" and "length m' = length m"
  shows "splice (20 + length (enc_attrs as1) + 2) m' (packet_bytes c i auth as) = packet_bytes c i auth (set_ma m' as)"
proof -
  have "20 + length (enc_attrs as1) = length ([c, i] @ u16_to_be (of_nat (20 + length (enc_attrs as))) @ auth @ enc_attrs as1)"
    using assms(1) by simp
  moreover have "packet_bytes c i auth as =
      ([c, i] @ u16_to_be (of_nat (20 + length (enc_attrs as))) @ auth @ enc_attrs as1)
        @ enc_attr (MESSAGE_AUTHENTICATOR, m) @ enc_attrs as2"
    by (simp add: packet_bytes_def assms(2))
  ultimately have "splice (20 + length (enc_attrs as1) + 2) m' (packet_bytes c i auth as) =
      ([c, i] @ u16_to_be (of_nat (20 + length (enc_attrs as))) @ auth @ enc_attrs as1)
        @ enc_attr (MESSAGE_AUTHENTICATOR, m') @ enc_attrs as2"
    using splice_enc_attr [OF assms(5)] by metis
  then show ?thesis by (simp add: packet_bytes_def assms(2-5) set_ma_none)
qed

lemma fill_packet_bytes:
  assumes K: "crypto_ok K" and auth: "length auth = 16" and fits: "fits as"
  shows "fill_message_authenticator K (packet_bytes c i auth as) secret =
    (if \<exists>v\<in>set (ma_values as). length v \<noteq> 16 then Inl MalformedPacket
     else case ma_values as of
       [] \<Rightarrow> Inl MissingMessageAuthenticator
     | [m] \<Rightarrow> Inr (filled K c i auth as secret)
     | _ \<Rightarrow> Inl DuplicateMessageAuthenticator)"
proof -
  let ?p = "packet_bytes c i auth as"
  have short: "short_attrs as" and len: "20 + length (enc_attrs as) \<le> 4096" using fits by (simp_all add: fits_def)
  have lp: "length ?p = 20 + length (enc_attrs as)" using auth by simp
  have hd: "unat (u16_from_be (?p ! 2) (?p ! 3)) = length ?p"
    using declared_packet_bytes [OF auth len] by (simp only: lp)
  have walk: "for_each_attribute (drop 20 ?p) find_ma (None, False, False)
      = fold_tlvs find_ma (with_offs 0 as) (None, False, False)"
    using walk.walk_entries [OF short] packet_bytes_slices(2) [OF auth] by simp
  obtain o' b d where f: "fold_tlvs find_ma (with_offs 0 as) (None, False, False) = Inr (o', b, d)"
    and b: "b \<longleftrightarrow> (\<exists>v\<in>set (ma_values as). length v \<noteq> 16)"
    and od: "\<not> b \<Longrightarrow> (d \<longleftrightarrow> 2 \<le> length (ma_values as)) \<and> (o' = None \<longleftrightarrow> ma_values as = [])"
    using fold_find_ma_None [of "with_offs 0 as" False] by auto
  have fill: "fill_message_authenticator K ?p secret =
      (if b then Inl MalformedPacket else if d then Inl DuplicateMessageAuthenticator
       else and_then (ok_or MissingMessageAuthenticator o') (\<lambda>off.
              Inr (splice off (message_authenticator K (splice off (zeros 16) ?p) secret) (splice off (zeros 16) ?p))))"
    using len auth by (simp add: fill_message_authenticator_def lp hd [unfolded lp] walk f Let_def)
  show ?thesis
  proof (cases "ma_values as")
    case Nil
    then show ?thesis using od b by (simp add: fill)
  next
    case (Cons m ms)
    show ?thesis
    proof (cases "ms = [] \<and> length m = 16")
      case False
      then show ?thesis using Cons od b by (cases ms) (auto simp: fill)
    next
      case True
      then have m: "ma_values as = [m]" "length m = 16" using Cons by simp_all
      obtain as1 as2 where d: "as = as1 @ (MESSAGE_AUTHENTICATOR, m) # as2" "ma_values as1 = []" "ma_values as2 = []"
        using ma_values_single [OF m(1)] by blast
      let ?off = "20 + length (enc_attrs as1) + 2"
      have o: "o' = Some ?off" using f fold_find_ma_single [OF m d] by simp
      have z: "splice ?off (zeros 16) ?p = packet_bytes c i auth (set_ma (zeros 16) as)"
        using splice_packet_bytes [OF auth d, of "zeros 16"] m(2) by simp
      let ?mac = "message_authenticator K (packet_bytes c i auth (set_ma (zeros 16) as)) secret"
      have "splice ?off ?mac (packet_bytes c i auth (set_ma (zeros 16) as)) = packet_bytes c i auth (set_ma ?mac as)"
      proof -
        have "set_ma (zeros 16) as = as1 @ (MESSAGE_AUTHENTICATOR, zeros 16) # as2"
          by (simp add: d set_ma_none)
        from splice_packet_bytes [OF auth this d(2,3), of ?mac c i] show ?thesis
          using length_message_authenticator [OF K] by simp
      qed
      then show ?thesis using b od m by (simp add: fill o z [simplified] filled_def)
    qed
  qed
qed

lemma fill_Inr_packet:
  assumes "fill_message_authenticator K p secret = Inr p'"
  obtains as where "p = packet_bytes (p ! 0) (p ! 1) (slice 4 20 p) as" and "fits as" and "length (slice 4 20 p) = 16"
proof -
  from assms have len: "20 \<le> length p" "length p \<le> 4096" "unat (u16_from_be (p ! 2) (p ! 3)) = length p"
    and "\<exists>st. for_each_attribute (drop 20 p) find_ma (None, False, False) = Inr st"
    by (auto simp: fill_message_authenticator_def split: if_splits sum.splits)
  then obtain st where "for_each_attribute (drop 20 p) find_ma (None, False, False) = Inr st" by blast
  from walk.walk_region [OF this] obtain as where as: "short_attrs as" "drop 20 p = enc_attrs as" by blast
  have "slice 20 (length p) p = enc_attrs as" using as(2) by (simp add: slice_to_end)
  from packet_bytes_intro [OF len(1) _ len(2) len(3) [symmetric] this]
  have p: "p = packet_bytes (p ! 0) (p ! 1) (slice 4 20 p) as" by simp
  have l: "length (slice 4 20 p) = 16" using len by simp
  have "length p = 20 + length (enc_attrs as)" using arg_cong [OF as(2), of length] len(1) by simp
  then show ?thesis using that [OF p _ l] as(1) len(2) by (simp add: fits_def)
qed

end
