(* ===== verification/Radius_Binding.thy ===== *)
theory Radius_Binding
  imports Radius_Packet
begin

text \<open>
  Response-to-request binding (\<open>crates/radius/src/binding.rs\<close>): what \<open>verify_response\<close> accepts, and
  that the response a server computes from the request and the shared secret is accepted.
\<close>

section \<open>The binding\<close>

record request_binding =
  rb_id :: u8
  rb_request_authenticator :: bytes
  rb_require_message_authenticator :: bool

definition request_binding_new :: "u8 \<Rightarrow> bytes \<Rightarrow> request_binding" where
  "request_binding_new i request_authenticator =
     \<lparr>rb_id = i, rb_request_authenticator = request_authenticator, rb_require_message_authenticator = True\<rparr>"

definition require_message_authenticator :: "request_binding \<Rightarrow> bool \<Rightarrow> request_binding" where
  "require_message_authenticator b required = b\<lparr>rb_require_message_authenticator := required\<rparr>"

definition verify_response :: "crypto \<Rightarrow> request_binding \<Rightarrow> bytes \<Rightarrow> bytes \<Rightarrow> bool" where
  "verify_response K b packet secret =
     (case parse_response packet of
        Inl e \<Rightarrow> False
      | Inr parsed \<Rightarrow>
          if pr_id parsed \<noteq> rb_id b then False
          else if \<not> verify_response_authenticator K packet (rb_request_authenticator b) secret then False
          else
            let has_ma = list_ex (\<lambda>a. fst a = MESSAGE_AUTHENTICATOR) (pr_attrs parsed)
            in if has_ma then verify_response_message_authenticator K packet (rb_request_authenticator b) secret
               else \<not> rb_require_message_authenticator b)"

section \<open>What it accepts\<close>

definition authentic_response :: "crypto \<Rightarrow> request_binding \<Rightarrow> bytes \<Rightarrow> parsed_response \<Rightarrow> bool" where
  "authentic_response K b secret r \<longleftrightarrow>
     pr_id r = rb_id b \<and>
     pr_authenticator r =
       response_authenticator K (pr_code r) (pr_id r) (of_nat (20 + length (enc_attrs (pr_attrs r))))
         (rb_request_authenticator b) (enc_attrs (pr_attrs r)) secret \<and>
     (if ma_values (pr_attrs r) = [] then \<not> rb_require_message_authenticator b
      else \<exists>ma. ma_values (pr_attrs r) = [ma] \<and> length ma = 16 \<and>
             hmac_md5_mac K secret (response_ma_input r (rb_request_authenticator b)) = Some ma)"

lemma has_ma_iff: "list_ex (\<lambda>a. fst a = MESSAGE_AUTHENTICATOR) as \<longleftrightarrow> ma_values as \<noteq> []"
  by (induction as) auto

lemma verify_response_parsed:
  assumes "parse_response p = Inr r"
  shows "verify_response K b p secret \<longleftrightarrow> authentic_response K b secret r"
  using assms
  by (auto simp: verify_response_def authentic_response_def has_ma_iff verify_response_authenticator_iff
      verify_response_message_authenticator_iff)

lemma verify_response_iff:
  "verify_response K b p secret \<longleftrightarrow> (\<exists>r. parse_response p = Inr r \<and> authentic_response K b secret r)"
proof (cases "parse_response p")
  case Inl
  then show ?thesis by (simp add: verify_response_def)
next
  case Inr
  then show ?thesis by (simp add: verify_response_parsed)
qed

lemma verify_response_parses: "verify_response K b p secret \<Longrightarrow> is_ok (parse_response p)"
  by (auto simp: verify_response_iff)

section \<open>The response of a server that knows the secret\<close>

text \<open>
  RFC 2865 and RFC 3579: the Message-Authenticator is computed with the Request Authenticator in
  the header, then the Response Authenticator over the filled attributes.
\<close>

definition server_response :: "crypto \<Rightarrow> code \<Rightarrow> u8 \<Rightarrow> bytes \<Rightarrow> (u8 \<times> bytes) list \<Rightarrow> bytes \<Rightarrow> bytes" where
  "server_response K c i ra as secret =
     (let mac = message_authenticator K (packet_bytes (code_as_u8 c) i ra (set_ma (zeros 16) as)) secret;
          as' = set_ma mac as;
          auth = response_authenticator K (code_as_u8 c) i (of_nat (20 + length (enc_attrs as'))) ra (enc_attrs as') secret
      in packet_bytes (code_as_u8 c) i auth as')"

lemma parse_packet_bytes:
  assumes "length auth = 16" and "wf_attrs as" and "fits as"
  shows "parse_response (packet_bytes c i auth as) =
    Inr \<lparr>pr_code = c, pr_id = i, pr_authenticator = auth, pr_attrs = as\<rparr>"
  unfolding parse_response_Inr using assms by (auto simp: fits_def)

lemma fits_set_ma:
  "list_all (\<lambda>v. length v = length m) (ma_values as) \<Longrightarrow> length m \<le> 253 \<Longrightarrow> fits as \<Longrightarrow> fits (set_ma m as)"
  by (simp add: fits_def short_set_ma length_enc_set_ma)

lemma server_response_parsed:
  fixes c :: code and i :: u8 and ra secret :: bytes
  assumes K: "crypto_ok K" and as: "wf_attrs as" "fits as" and ma: "ma_values as = [m]" "length m = 16"
  defines "mac \<equiv> message_authenticator K (packet_bytes (code_as_u8 c) i ra (set_ma (zeros 16) as)) secret"
  shows "parse_response (server_response K c i ra as secret) =
    Inr \<lparr>pr_code = code_as_u8 c, pr_id = i,
         pr_authenticator = response_authenticator K (code_as_u8 c) i
           (of_nat (20 + length (enc_attrs (set_ma mac as)))) ra (enc_attrs (set_ma mac as)) secret,
         pr_attrs = set_ma mac as\<rparr>"
proof -
  have len: "length mac = 16" unfolding mac_def by (rule length_message_authenticator [OF K])
  have "wf_attrs (set_ma mac as)" using wf_set_ma [of mac as] as(1) len by simp
  moreover have "fits (set_ma mac as)" using fits_set_ma [of mac as] as(2) ma len by simp
  moreover have "length (response_authenticator K (code_as_u8 c) i n ra x secret) = 16" for n x
    using K by (simp add: response_authenticator_def crypto_ok_lengths)
  ultimately show ?thesis
    unfolding server_response_def Let_def mac_def [symmetric] by (subst parse_packet_bytes) auto
qed

lemma server_response_accepted:
  assumes K: "crypto_ok K" and as: "wf_attrs as" "fits as" and ma: "ma_values as = [m]" "length m = 16"
    and key: "hmac_md5_mac K secret (packet_bytes (code_as_u8 c) i ra (set_ma (zeros 16) as)) = Some mac"
  shows "verify_response K (request_binding_new i ra) (server_response K c i ra as secret) secret"
proof -
  have mac: "message_authenticator K (packet_bytes (code_as_u8 c) i ra (set_ma (zeros 16) as)) secret = mac"
    using key by (simp add: message_authenticator_def hmac_md5_def)
  have "length mac = 16" using K key by (rule crypto_ok_lengths)
  then show ?thesis
    using server_response_parsed [OF K as ma, of c i ra secret] key
    by (simp add: mac verify_response_parsed authentic_response_def request_binding_new_def
        ma_values_set_ma ma response_ma_input_def)
qed

end
