(* ===== verification/Radius_Transport.thy ===== *)
theory Radius_Transport
  imports Effects Net_Addr Radius_Binding
begin

text \<open>
  The transport interface (\<open>crates/radius/src/transport.rs\<close>), as a locale whose law is the contract
  the trait documents (a returned datagram was accepted), and the scripted in-memory transport of
  \<open>crates/radius/src/test_support.rs\<close>, which provides it.
\<close>

section \<open>The interface\<close>

datatype transport_error = Unreachable | Timeout | Io

text \<open>
  \<open>RadiusTransport::exchange\<close>: the server, the request, the \<open>accept\<close> closure.
\<close>

type_synonym 'w exchange_fn =
  "socket_addr \<Rightarrow> bytes \<Rightarrow> (bytes \<Rightarrow> bool) \<Rightarrow> (transport_error + bytes, 'w) io"

locale radius_transport =
  fixes exchange :: "'w exchange_fn"
  assumes exchange_accepted: "exchange server request accept w = Returns (Inr d) w' \<Longrightarrow> accept d"
begin

text \<open>
  What a client gets from an exchange bound to its request: only an authentic response.
\<close>

lemma exchange_verified:
  assumes "exchange server request (\<lambda>d. verify_response K b d secret) w = Returns (Inr d) w'"
  obtains r where "parse_response d = Inr r" and "authentic_response K b secret r"
  using exchange_accepted [OF assms] by (auto simp: verify_response_iff)

lemma exchange_id:
  assumes "exchange server request (\<lambda>d. verify_response K b d secret) w = Returns (Inr d) w'"
    and "parse_response d = Inr r"
  shows "pr_id r = rb_id b"
  using exchange_verified [OF assms(1)] assms(2) by (metis authentic_response_def sum.inject(2))

lemma exchange_refused:
  assumes "\<And>d. \<not> accept d"
  shows "exchange server request accept w \<noteq> Returns (Inr d) w'"
  using assms exchange_accepted by blast

end

section \<open>The scripted transport\<close>

datatype ft_step = Reply "bytes \<Rightarrow> bytes list" | StepError transport_error

record fake_transport =
  ft_steps :: "ft_step list"
  ft_requests :: "bytes list"
  ft_servers :: "socket_addr list"

definition fake_transport_new :: fake_transport where
  "fake_transport_new = \<lparr>ft_steps = [], ft_requests = [], ft_servers = []\<rparr>"

definition push_reply :: "(bytes \<Rightarrow> bytes list) \<Rightarrow> fake_transport \<Rightarrow> fake_transport" where
  "push_reply responder t = t\<lparr>ft_steps := ft_steps t @ [Reply responder]\<rparr>"

definition push_datagrams :: "bytes list \<Rightarrow> fake_transport \<Rightarrow> fake_transport" where
  "push_datagrams datagrams t = push_reply (\<lambda>_. datagrams) t"

definition push_error :: "transport_error \<Rightarrow> fake_transport \<Rightarrow> fake_transport" where
  "push_error err t = t\<lparr>ft_steps := ft_steps t @ [StepError err]\<rparr>"

definition exchanges :: "fake_transport \<Rightarrow> nat" where
  "exchanges t = length (ft_requests t)"

definition fake_exchange :: "fake_transport exchange_fn" where
  "fake_exchange server request accept = lift (\<lambda>t.
     (let t = t\<lparr>ft_requests := ft_requests t @ [request], ft_servers := ft_servers t @ [server]\<rparr>
      in case ft_steps t of
           [] \<Rightarrow> (Inl Timeout, t)
         | StepError e # steps \<Rightarrow> (Inl e, t\<lparr>ft_steps := steps\<rparr>)
         | Reply responder # steps \<Rightarrow>
             (case find accept (responder request) of
                Some datagram \<Rightarrow> (Inr datagram, t\<lparr>ft_steps := steps\<rparr>)
              | None \<Rightarrow> (Inl Timeout, t\<lparr>ft_steps := steps\<rparr>))))"

lemma find_accept: "find P xs = Some x \<Longrightarrow> P x"
  by (induction xs) (auto split: if_splits)

lemma fake_exchange_eq:
  defines "ft_logged \<equiv> \<lambda>t server request.
    t\<lparr>ft_requests := ft_requests t @ [request], ft_servers := ft_servers t @ [server], ft_steps := tl (ft_steps t)\<rparr>"
  shows "ft_steps t = [] \<Longrightarrow> fake_exchange server request accept t = Returns (Inl Timeout) (ft_logged t server request)"
    and "ft_steps t = StepError e # steps \<Longrightarrow>
      fake_exchange server request accept t = Returns (Inl e) (ft_logged t server request)"
    and "ft_steps t = Reply responder # steps \<Longrightarrow>
      fake_exchange server request accept t =
        Returns (case find accept (responder request) of Some d \<Rightarrow> Inr d | None \<Rightarrow> Inl Timeout) (ft_logged t server request)"
  by (cases t; simp add: fake_exchange_def lift_def ft_logged_def split: option.split)+

lemma fake_exchange_result:
  obtains (exhausted) "ft_steps t = []" | (err) e steps where "ft_steps t = StepError e # steps"
    | (reply) responder steps where "ft_steps t = Reply responder # steps"
  by (metis ft_step.exhaust list.exhaust)

interpretation fake: radius_transport fake_exchange
proof
  fix server request accept t d t'
  assume a: "fake_exchange server request accept t = Returns (Inr d) t'"
  show "accept d"
  proof (cases t rule: fake_exchange_result)
    case exhausted
    show ?thesis using a unfolding fake_exchange_eq(1) [OF exhausted] by simp
  next
    case (err e steps)
    show ?thesis using a unfolding fake_exchange_eq(2) [OF err] by simp
  next
    case (reply responder steps)
    show ?thesis
      using a find_accept [of accept "responder request" d] unfolding fake_exchange_eq(3) [OF reply]
      by (simp split: option.splits)
  qed
qed

lemma fake_exchange_logs:
  assumes "fake_exchange server request accept t = Returns r t'"
  shows "t' = t\<lparr>ft_requests := ft_requests t @ [request], ft_servers := ft_servers t @ [server],
    ft_steps := tl (ft_steps t)\<rparr>"
proof (cases t rule: fake_exchange_result)
  case exhausted
  show ?thesis using assms unfolding fake_exchange_eq(1) [OF exhausted] by simp
next
  case (err e steps)
  show ?thesis using assms unfolding fake_exchange_eq(2) [OF err] by simp
next
  case (reply responder steps)
  show ?thesis using assms unfolding fake_exchange_eq(3) [OF reply] by simp
qed

lemma fake_exchange_exhausted:
  "ft_steps t = [] \<Longrightarrow> \<exists>t'. fake_exchange server request accept t = Returns (Inl Timeout) t'"
  by (simp add: fake_exchange_def lift_def)

end
