(* ===== verification/Radius_Udp.thy ===== *)
theory Radius_Udp
  imports Radius_Transport
begin

text \<open>
  The connected-UDP transport (\<open>crates/radius/src/udp.rs\<close>). The operating system (sockets and the
  monotonic clock) is the record \<open>os\<close> of operations on the outside world, a parameter of the model;
  the receive loop and the \<open>EINTR\<close> loop of \<open>send_request\<close> take fuel. The lemmas say how often and
  what the transport sends, what each of its results means, that it returns when the clock
  advances, and that it provides the transport interface.
\<close>

section \<open>The operating system\<close>

text \<open>The kinds of \<open>std::io::Error\<close> the program distinguishes; \<open>OtherKind\<close> is any other.\<close>

datatype io_kind =
    ConnectionRefused | HostUnreachable | NetworkUnreachable
  | WouldBlock | TimedOut | Interrupted | OtherKind

type_synonym socket = nat

record 'w os =
  os_bind :: "socket_addr \<Rightarrow> 'w \<Rightarrow> (io_kind + socket) \<times> 'w"
  os_connect :: "socket \<Rightarrow> socket_addr \<Rightarrow> 'w \<Rightarrow> (io_kind + unit) \<times> 'w"
  os_send :: "socket \<Rightarrow> bytes \<Rightarrow> 'w \<Rightarrow> (io_kind + nat) \<times> 'w"
  os_set_read_timeout :: "socket \<Rightarrow> duration \<Rightarrow> 'w \<Rightarrow> (io_kind + unit) \<times> 'w"
  os_recv :: "socket \<Rightarrow> nat \<Rightarrow> 'w \<Rightarrow> (io_kind + bytes) \<times> 'w"
  os_now :: "'w \<Rightarrow> duration \<times> 'w"

section \<open>The transport\<close>

definition MIN_READ_TIMEOUT :: duration where
  "MIN_READ_TIMEOUT = from_millis 1"

record udp_transport =
  ut_probe_timeout :: duration
  ut_mfa_timeout :: duration
  ut_retries :: u32
  ut_source_ip :: "ipv4_addr option"

datatype io_class = Silence | ClassUnreachable | Retry | Local

fun classify :: "io_kind \<Rightarrow> io_class" where
  "classify ConnectionRefused = ClassUnreachable"
| "classify HostUnreachable = ClassUnreachable"
| "classify NetworkUnreachable = ClassUnreachable"
| "classify WouldBlock = Silence"
| "classify TimedOut = Silence"
| "classify Interrupted = Retry"
| "classify OtherKind = Local"

definition send_error :: "io_kind \<Rightarrow> transport_error" where
  "send_error err = (case classify err of ClassUnreachable \<Rightarrow> Unreachable | _ \<Rightarrow> Io)"

fun send_request :: "'w os \<Rightarrow> nat \<Rightarrow> socket \<Rightarrow> bytes \<Rightarrow> (transport_error + unit, 'w) io" where
  "send_request os 0 sock request = (\<lambda>w. Diverges)"
| "send_request os (Suc fuel) sock request =
     seq (lift (os_send os sock request)) (\<lambda>r.
       case r of
         Inr _ \<Rightarrow> ret (Inr ())
       | Inl err \<Rightarrow> if classify err = Retry then send_request os fuel sock request
                   else ret (Inl (send_error err)))"

text \<open>
  \<open>probe_timeout / (retries + 1)\<close>: the addition is on \<open>u32\<close>, and the division panics when it wraps
  to zero (with overflow checks the addition panics itself).
\<close>

definition retransmit_interval :: "duration \<Rightarrow> u32 \<Rightarrow> duration option" where
  "retransmit_interval probe_timeout retries = dur_div probe_timeout (retries + 1)"

definition udp_transport_new :: "duration \<Rightarrow> duration \<Rightarrow> u32 \<Rightarrow> ipv4_addr option \<Rightarrow> udp_transport" where
  "udp_transport_new probe_timeout mfa_timeout retries source_ip =
     \<lparr>ut_probe_timeout = probe_timeout, ut_mfa_timeout = mfa_timeout, ut_retries = retries, ut_source_ip = source_ip\<rparr>"

definition from_config :: "u32 \<Rightarrow> u32 \<Rightarrow> u32 \<Rightarrow> ipv4_addr option \<Rightarrow> udp_transport" where
  "from_config probe_timeout_secs mfa_timeout_secs retries source_ip =
     udp_transport_new (from_secs (unat probe_timeout_secs)) (from_secs (unat mfa_timeout_secs)) retries source_ip"

definition connect :: "'w os \<Rightarrow> udp_transport \<Rightarrow> socket_addr \<Rightarrow> (transport_error + socket, 'w) io" where
  "connect os t server =
     (let bind_addr = SocketV4 (case ut_source_ip t of Some ip \<Rightarrow> ip | None \<Rightarrow> IPV4_UNSPECIFIED) 0
      in seq (lift (os_bind os bind_addr)) (\<lambda>r.
           case r of
             Inl _ \<Rightarrow> ret (Inl Io)
           | Inr sock \<Rightarrow>
               seq (lift (os_connect os sock server)) (\<lambda>r.
                 case r of Inl e \<Rightarrow> ret (Inl (send_error e)) | Inr _ \<Rightarrow> ret (Inr sock))))"

definition elapsed_since :: "'w os \<Rightarrow> duration \<Rightarrow> (duration, 'w) io" where
  "elapsed_since os start = seq (lift (os_now os)) (\<lambda>now. ret (saturating_sub now start))"

definition read_timeout :: "udp_transport \<Rightarrow> u32 \<Rightarrow> duration \<Rightarrow> duration \<Rightarrow> duration" where
  "read_timeout t retransmits_left next_retransmit elapsed =
     (let wake = ut_mfa_timeout t;
          wake = (if retransmits_left > 0 then min wake next_retransmit else wake)
      in max (saturating_sub wake elapsed) MIN_READ_TIMEOUT)"

text \<open>
  The receive loop, with the socket, the start time and the retransmit interval fixed; its state is
  the number of retransmits left and the offset of the next one.
\<close>

fun exchange_loop :: "'w os \<Rightarrow> nat \<Rightarrow> udp_transport \<Rightarrow> socket \<Rightarrow> bytes \<Rightarrow> (bytes \<Rightarrow> bool) \<Rightarrow> duration \<Rightarrow> duration \<Rightarrow>
    nat \<Rightarrow> u32 \<Rightarrow> duration \<Rightarrow> (transport_error + bytes, 'w) io" where
  "exchange_loop os send_fuel t sock request accept start interval 0 retransmits_left next_retransmit = (\<lambda>w. Diverges)"
| "exchange_loop os send_fuel t sock request accept start interval (Suc fuel) retransmits_left next_retransmit =
     seq (elapsed_since os start) (\<lambda>elapsed.
       if elapsed \<ge> ut_mfa_timeout t then ret (Inl Timeout)
       else
         seq (lift (os_set_read_timeout os sock (read_timeout t retransmits_left next_retransmit elapsed))) (\<lambda>r.
           case r of
             Inl _ \<Rightarrow> ret (Inl Io)
           | Inr _ \<Rightarrow>
             seq (lift (os_recv os sock MAX_PACKET_LEN)) (\<lambda>r.
               case r of
                 Inr received \<Rightarrow>
                   (let datagram = take MAX_PACKET_LEN received
                    in if accept datagram then ret (Inr datagram)
                       else exchange_loop os send_fuel t sock request accept start interval fuel
                              retransmits_left next_retransmit)
               | Inl err \<Rightarrow>
                   (case classify err of
                      ClassUnreachable \<Rightarrow>
                        seq (elapsed_since os start) (\<lambda>elapsed.
                          if elapsed < ut_probe_timeout t then ret (Inl Unreachable) else ret (Inl Timeout))
                    | Silence \<Rightarrow>
                        if retransmits_left > 0 then
                          seq (elapsed_since os start) (\<lambda>elapsed.
                            if elapsed \<ge> next_retransmit then
                              attempt (send_request os send_fuel sock request) (\<lambda>_.
                                exchange_loop os send_fuel t sock request accept start interval fuel
                                  (retransmits_left - 1) (dur_add next_retransmit interval))
                            else exchange_loop os send_fuel t sock request accept start interval fuel
                                   retransmits_left next_retransmit)
                        else exchange_loop os send_fuel t sock request accept start interval fuel
                               retransmits_left next_retransmit
                    | Retry \<Rightarrow>
                        exchange_loop os send_fuel t sock request accept start interval fuel
                          retransmits_left next_retransmit
                    | Local \<Rightarrow> ret (Inl Io)))))"

definition udp_exchange :: "'w os \<Rightarrow> nat \<Rightarrow> udp_transport \<Rightarrow> 'w exchange_fn" where
  "udp_exchange os fuel t server request accept =
     attempt (connect os t server) (\<lambda>sock.
     attempt (send_request os fuel sock request) (\<lambda>_.
     seq (lift (os_now os)) (\<lambda>start.
       case retransmit_interval (ut_probe_timeout t) (ut_retries t) of
         None \<Rightarrow> panic
       | Some interval \<Rightarrow>
           exchange_loop os fuel t sock request accept start interval fuel (ut_retries t) interval)))"

section \<open>The transport interface\<close>

lemma exchange_loop_accepted:
  "gives (exchange_loop os sf t sock request accept start interval fuel left nxt)
     (\<lambda>r. \<forall>d. r = Inr d \<longrightarrow> accept d \<and> length d \<le> 4096)"
proof (induction fuel arbitrary: left nxt)
  case 0
  then show ?case by (simp add: gives_def)
next
  case (Suc fuel)
  show ?case unfolding exchange_loop.simps attempt_def Let_def
    by (intro gives_seq_any) (auto intro!: gives_seq_any Suc.IH split: sum.split io_class.split)
qed

lemma gives_attempt: "(\<And>a. gives (f a) P) \<Longrightarrow> (\<And>e. P (Inl e)) \<Longrightarrow> gives (attempt m f) P"
  unfolding attempt_def by (intro gives_seq_any) (auto split: sum.split)

lemma udp_exchange_accepted:
  "gives (udp_exchange os fuel t server request accept) (\<lambda>r. \<forall>d. r = Inr d \<longrightarrow> accept d \<and> length d \<le> 4096)"
  unfolding udp_exchange_def
  by (intro gives_attempt gives_seq_any) (auto intro: exchange_loop_accepted split: option.split)

interpretation udp: radius_transport "udp_exchange os fuel t"
proof
  fix server request accept w d w'
  assume "udp_exchange os fuel t server request accept w = Returns (Inr d) w'"
  from givesD [OF udp_exchange_accepted this] show "accept d" by simp
qed

section \<open>Termination\<close>

text \<open>
  The monotonic clock: it never goes back, and a receive takes time. \<open>sends_return\<close> says that a
  send is not interrupted for ever.
\<close>

definition clock_advances :: "'w os \<Rightarrow> ('w \<Rightarrow> nat) \<Rightarrow> bool" where
  "clock_advances os clock \<longleftrightarrow>
     (\<forall>w. fst (os_now os w) = Nanos (clock w) \<and> clock w \<le> clock (snd (os_now os w))) \<and>
     (\<forall>w sock d. clock w \<le> clock (snd (os_set_read_timeout os sock d w))) \<and>
     (\<forall>w sock request. clock w \<le> clock (snd (os_send os sock request w))) \<and>
     (\<forall>w sock n. clock w < clock (snd (os_recv os sock n w)))"

definition sends_return :: "'w os \<Rightarrow> nat \<Rightarrow> bool" where
  "sends_return os fuel \<longleftrightarrow> (\<forall>sock request w. send_request os fuel sock request w \<noteq> Diverges)"

lemma send_request_clock:
  assumes "clock_advances os clock"
  shows "send_request os fuel sock request w = Returns r w' \<Longrightarrow> clock w \<le> clock w'"
proof (induction fuel arbitrary: w)
  case (Suc fuel)
  have le: "clock w \<le> clock (snd (os_send os sock request w))" using assms by (simp add: clock_advances_def)
  show ?case
  proof (cases "\<exists>err. fst (os_send os sock request w) = Inl err \<and> classify err = Retry")
    case True
    then show ?thesis using Suc.prems le Suc.IH [of "snd (os_send os sock request w)"] by (auto simp: seq_lift)
  next
    case False
    then show ?thesis using Suc.prems le by (auto simp: seq_lift split: sum.splits)
  qed
qed simp

lemma send_request_not_panics: "send_request os fuel sock request w \<noteq> Panics w'"
  by (induction fuel arbitrary: w) (auto simp: seq_lift split: sum.splits)

lemma elapsed_since_apply:
  assumes "clock_advances os clock"
  obtains w' where "elapsed_since os (Nanos s) w = Returns (Nanos (clock w - s)) w'" and "clock w \<le> clock w'"
proof
  show "elapsed_since os (Nanos s) w = Returns (Nanos (clock w - s)) (snd (os_now os w))"
    using assms by (simp add: elapsed_since_def seq_lift clock_advances_def saturating_sub_def)
  show "clock w \<le> clock (snd (os_now os w))" using assms by (simp add: clock_advances_def)
qed

text \<open>One round of the loop, with the results of its calls.\<close>

lemma exchange_loop_step:
  assumes "elapsed_since os (Nanos s) w = Returns elapsed w1" and "\<not> ut_mfa_timeout t \<le> elapsed"
    and "os_set_read_timeout os sock (read_timeout t left nxt elapsed) w1 = (r2, w2)"
    and "os_recv os sock MAX_PACKET_LEN w2 = (r3, w3)"
    and "elapsed_since os (Nanos s) w3 = Returns elapsed' w4"
  shows "exchange_loop os sf t sock request accept (Nanos s) interval (Suc fuel) left nxt w =
      (case r2 of Inl _ \<Rightarrow> Returns (Inl Io) w2 | Inr _ \<Rightarrow>
        (case r3 of
           Inr received \<Rightarrow>
             if accept (take MAX_PACKET_LEN received) then Returns (Inr (take MAX_PACKET_LEN received)) w3
             else exchange_loop os sf t sock request accept (Nanos s) interval fuel left nxt w3
         | Inl err \<Rightarrow>
             (case classify err of
                ClassUnreachable \<Rightarrow>
                  Returns (if elapsed' < ut_probe_timeout t then Inl Unreachable else Inl Timeout) w4
              | Silence \<Rightarrow>
                  if left > 0 then
                    if elapsed' \<ge> nxt then
                      attempt (send_request os sf sock request) (\<lambda>_.
                        exchange_loop os sf t sock request accept (Nanos s) interval fuel (left - 1) (dur_add nxt interval)) w4
                    else exchange_loop os sf t sock request accept (Nanos s) interval fuel left nxt w4
                  else exchange_loop os sf t sock request accept (Nanos s) interval fuel left nxt w3
              | Retry \<Rightarrow> exchange_loop os sf t sock request accept (Nanos s) interval fuel left nxt w3
              | Local \<Rightarrow> Returns (Inl Io) w3)))"
  unfolding exchange_loop.simps seq_apply [of "elapsed_since os (Nanos s)" _ w] assms(1)
  using assms(2-) by (simp add: seq_apply lift_apply Let_def split: sum.split io_class.split)

lemma exchange_loop_returns:
  assumes clock: "clock_advances os clock" and send: "sends_return os sf"
  shows "0 < fuel \<Longrightarrow> s \<le> clock w \<Longrightarrow> nanos (ut_mfa_timeout t) + 1 \<le> fuel + min (clock w - s) (nanos (ut_mfa_timeout t)) \<Longrightarrow>
    \<exists>r w'. exchange_loop os sf t sock request accept (Nanos s) interval fuel left nxt w = Returns r w'"
proof (induction fuel arbitrary: left nxt w)
  case (Suc fuel)
  let ?mfa = "nanos (ut_mfa_timeout t)"
  obtain w1 where w1: "elapsed_since os (Nanos s) w = Returns (Nanos (clock w - s)) w1" "clock w \<le> clock w1"
    using elapsed_since_apply [OF clock] .
  show ?case
  proof (cases "?mfa \<le> clock w - s")
    case True
    then have "ut_mfa_timeout t \<le> Nanos (clock w - s)" by (simp add: less_eq_duration_def)
    then show ?thesis using w1(1) by (simp add: seq_apply)
  next
    case False
    then have le: "\<not> ut_mfa_timeout t \<le> Nanos (clock w - s)" by (simp add: less_eq_duration_def)
    define d where "d = read_timeout t left nxt (Nanos (clock w - s))"
    obtain r2 w2 where w2: "os_set_read_timeout os sock d w1 = (r2, w2)" by force
    then have c2: "clock w1 \<le> clock w2" using clock unfolding clock_advances_def by (metis snd_conv)
    obtain r3 w3 where w3: "os_recv os sock MAX_PACKET_LEN w2 = (r3, w3)" by force
    then have c3: "clock w2 < clock w3" using clock unfolding clock_advances_def by (metis snd_conv)
    have IH: "\<exists>r w'. exchange_loop os sf t sock request accept (Nanos s) interval fuel l n w4 = Returns r w'"
      if "clock w3 \<le> clock w4" for l n w4
    proof (rule Suc.IH)
      show "0 < fuel" using Suc.prems False by simp
      show "s \<le> clock w4" using Suc.prems(2) w1(2) c2 c3 that by linarith
      show "?mfa + 1 \<le> fuel + min (clock w4 - s) ?mfa" using Suc.prems False w1(2) c2 c3 that by linarith
    qed
    obtain w4 where w4: "elapsed_since os (Nanos s) w3 = Returns (Nanos (clock w3 - s)) w4" "clock w3 \<le> clock w4"
      using elapsed_since_apply [OF clock] .
    have send_IH: "\<exists>r w'. attempt (send_request os sf sock request) (\<lambda>_.
        exchange_loop os sf t sock request accept (Nanos s) interval fuel l n) w4 = Returns r w'" for l n
    proof (cases "send_request os sf sock request w4")
      case (Returns r w5)
      then have "clock w3 \<le> clock w5" using send_request_clock [OF clock] w4(2) by (meson order_trans)
      then show ?thesis using Returns IH [of w5] by (cases r) (simp_all add: attempt_apply)
    next
      case Panics
      then show ?thesis using send_request_not_panics by metis
    next
      case Diverges
      then show ?thesis using send by (simp add: sends_return_def)
    qed
    note step = exchange_loop_step [OF w1(1) le w2 [unfolded d_def] w3 w4(1)]
    show ?thesis
      unfolding step using IH [of w3] IH [of w4] w4(2) send_IH
      by (simp split: sum.split io_class.split)
  qed
qed simp

lemma connect_not_diverges: "connect os t server w \<noteq> Diverges" "connect os t server w \<noteq> Panics w'"
  by (auto simp: connect_def Let_def seq_lift split: sum.splits)

lemma udp_exchange_returns:
  assumes clock: "clock_advances os clock" and send: "sends_return os fuel"
    and fuel: "nanos (ut_mfa_timeout t) < fuel" and retries: "ut_retries t + 1 \<noteq> 0"
  shows "\<exists>r w'. udp_exchange os fuel t server request accept w = Returns r w'"
proof -
  have loop: "\<exists>r w'. seq (lift (os_now os)) (\<lambda>start.
       case retransmit_interval (ut_probe_timeout t) (ut_retries t) of
         None \<Rightarrow> panic
       | Some interval \<Rightarrow>
           exchange_loop os fuel t sock request accept start interval fuel (ut_retries t) interval) w1 = Returns r w'"
    for sock w1
    using exchange_loop_returns [OF clock send, where fuel = fuel and t = t and w = "snd (os_now os w1)" and s = "clock w1"]
      fuel clock retries
    by (simp add: seq_lift clock_advances_def retransmit_interval_def dur_div_def)
  have send': "send_request os fuel sock request w1 \<noteq> Diverges" for sock w1
    using send by (simp add: sends_return_def)
  show ?thesis
    unfolding udp_exchange_def using connect_not_diverges [of os t server w] send' send_request_not_panics [of os fuel]
    by (simp add: attempt_apply loop split: exec.split sum.split)
qed

end
