(* ===== verification/Udp_Trace.thy ===== *)
theory Udp_Trace
  imports Radius_Udp
begin

text \<open>
  What the UDP transport does to the network: every operating-system call of an exchange is logged
  with its result. The log gives the retransmission bound and the reason of each result. Erasing
  the log gives the transport itself (\<open>udp_traced_simulates\<close>).
\<close>

section \<open>The logged operating system\<close>

datatype os_event =
    EvBind "io_kind + socket"
  | EvConnect socket_addr "io_kind + unit"
  | EvSend bytes "io_kind + nat"
  | EvReadTimeout duration "io_kind + unit"
  | EvRecv "io_kind + bytes"
  | EvNow duration

definition traced_os :: "'w os \<Rightarrow> ('w \<times> os_event list) os" where
  "traced_os os =
     \<lparr>os_bind = (\<lambda>a. logged EvBind (os_bind os a)),
      os_connect = (\<lambda>sock a. logged (EvConnect a) (os_connect os sock a)),
      os_send = (\<lambda>sock b. logged (EvSend b) (os_send os sock b)),
      os_set_read_timeout = (\<lambda>sock d. logged (EvReadTimeout d) (os_set_read_timeout os sock d)),
      os_recv = (\<lambda>sock n. logged EvRecv (os_recv os sock n)),
      os_now = logged EvNow (os_now os)\<rparr>"

lemma traced_os_simps [simp]:
  "os_bind (traced_os os) a = logged EvBind (os_bind os a)"
  "os_connect (traced_os os) sock a = logged (EvConnect a) (os_connect os sock a)"
  "os_send (traced_os os) sock b = logged (EvSend b) (os_send os sock b)"
  "os_set_read_timeout (traced_os os) sock d = logged (EvReadTimeout d) (os_set_read_timeout os sock d)"
  "os_recv (traced_os os) sock n = logged EvRecv (os_recv os sock n)"
  "os_now (traced_os os) = logged EvNow (os_now os)"
  by (simp_all add: traced_os_def)

lemma simulates_elapsed [intro, simp]: "simulates (elapsed_since (traced_os os) start) (elapsed_since os start)"
  unfolding elapsed_since_def traced_os_simps by (intro simulates_seq simulates_lift simulates_ret)

lemma simulates_send_request [intro, simp]:
  "simulates (send_request (traced_os os) fuel sock request) (send_request os fuel sock request)"
proof (induction fuel)
  case 0
  show ?case unfolding send_request.simps by (rule simulates_diverges)
next
  case (Suc fuel)
  then show ?case unfolding send_request.simps traced_os_simps
    by (intro simulates_seq simulates_lift) (auto split: sum.split)
qed

lemma simulates_exchange_loop:
  "simulates (exchange_loop (traced_os os) sf t sock request accept start interval fuel left nxt)
     (exchange_loop os sf t sock request accept start interval fuel left nxt)"
proof (induction fuel arbitrary: left nxt)
  case 0
  show ?case unfolding exchange_loop.simps by (rule simulates_diverges)
next
  case (Suc fuel)
  show ?case unfolding exchange_loop.simps traced_os_simps Let_def
    by (intro simulates_seq simulates_lift simulates_elapsed)
      (auto intro!: Suc.IH simulates_seq simulates_attempt split: sum.split io_class.split)
qed

lemma udp_traced_simulates:
  "simulates (udp_exchange (traced_os os) fuel t server request accept) (udp_exchange os fuel t server request accept)"
proof -
  have "simulates (connect (traced_os os) t server) (connect os t server)"
    unfolding connect_def Let_def traced_os_simps
    by (intro simulates_seq simulates_lift) (auto intro!: simulates_seq split: sum.split)
  then show ?thesis
    unfolding udp_exchange_def traced_os_simps
    by (intro simulates_attempt simulates_seq simulates_lift simulates_send_request)
      (auto intro: simulates_exchange_loop split: option.split)
qed

section \<open>Reading a log\<close>

fun send_attempts :: "os_event list \<Rightarrow> bytes list" where
  "send_attempts [] = []"
| "send_attempts (EvSend b r # tr) = b # send_attempts tr"
| "send_attempts (_ # tr) = send_attempts tr"

fun sent :: "os_event list \<Rightarrow> bytes list" where
  "sent [] = []"
| "sent (EvSend b (Inr _) # tr) = b # sent tr"
| "sent (_ # tr) = sent tr"

fun clock_reads :: "os_event list \<Rightarrow> duration list" where
  "clock_reads [] = []"
| "clock_reads (EvNow d # tr) = d # clock_reads tr"
| "clock_reads (_ # tr) = clock_reads tr"

lemma send_attempts_append [simp]: "send_attempts (xs @ ys) = send_attempts xs @ send_attempts ys"
  by (induction xs rule: send_attempts.induct) auto

lemma sent_append [simp]: "sent (xs @ ys) = sent xs @ sent ys"
  by (induction xs rule: sent.induct) auto

lemma clock_reads_append [simp]: "clock_reads (xs @ ys) = clock_reads xs @ clock_reads ys"
  by (induction xs rule: clock_reads.induct) auto

definition unreachable_kind :: "io_kind \<Rightarrow> bool" where
  "unreachable_kind k \<longleftrightarrow> classify k = ClassUnreachable"

fun local_failure :: "os_event \<Rightarrow> bool" where
  "local_failure (EvBind (Inl _)) = True"
| "local_failure (EvConnect _ (Inl k)) = (\<not> unreachable_kind k)"
| "local_failure (EvSend _ (Inl k)) = (\<not> unreachable_kind k \<and> classify k \<noteq> Retry)"
| "local_failure (EvReadTimeout _ (Inl _)) = True"
| "local_failure (EvRecv (Inl k)) = (classify k = Local)"
| "local_failure _ = False"

text \<open>
  The reason of a result, given the transport's timing and the start of the wait: the last events
  of the log.
\<close>

fun explains :: "udp_transport \<Rightarrow> duration \<Rightarrow> os_event list \<Rightarrow> transport_error + bytes \<Rightarrow> bool" where
  "explains t start tr (Inr d) \<longleftrightarrow> (\<exists>pre x. tr = pre @ [EvRecv (Inr x)] \<and> d = take 4096 x)"
| "explains t start tr (Inl Timeout) \<longleftrightarrow>
     (\<exists>pre now. tr = pre @ [EvNow now] \<and>
        (ut_mfa_timeout t \<le> saturating_sub now start \<or>
         (\<exists>pre' k. pre = pre' @ [EvRecv (Inl k)] \<and> unreachable_kind k \<and>
            ut_probe_timeout t \<le> saturating_sub now start)))"
| "explains t start tr (Inl Unreachable) \<longleftrightarrow>
     (\<exists>pre k. unreachable_kind k \<and>
        ((\<exists>a. tr = pre @ [EvConnect a (Inl k)]) \<or> (\<exists>b. tr = pre @ [EvSend b (Inl k)]) \<or>
         (\<exists>now. tr = pre @ [EvRecv (Inl k), EvNow now] \<and> saturating_sub now start < ut_probe_timeout t)))"
| "explains t start tr (Inl Io) \<longleftrightarrow> (\<exists>pre e. tr = pre @ [e] \<and> local_failure e)"

lemma explains_append: "explains t start tr r \<Longrightarrow> explains t start (before @ tr) r"
  by (induction t start tr r rule: explains.induct) (simp_all, (metis append.assoc)+)

section \<open>What an exchange does\<close>

text \<open>
  The postcondition shared by the steps of an exchange: every send carries the request, at most
  \<open>n\<close> of them succeed, and the result is explained.
\<close>

definition exchange_post :: "udp_transport \<Rightarrow> duration \<Rightarrow> bytes \<Rightarrow> nat \<Rightarrow> transport_error + bytes \<Rightarrow> os_event list \<Rightarrow> bool" where
  "exchange_post t start request n r tr \<longleftrightarrow>
     set (send_attempts tr) \<subseteq> {request} \<and> length (sent tr) \<le> n \<and> explains t start tr r"

lemma exchange_post_after:
  assumes "exchange_post t start request n r tr" and "set (send_attempts before) \<subseteq> {request}"
    and "length (sent before) + n \<le> n'"
  shows "exchange_post t start request n' r (before @ tr)"
  using assms by (auto simp: exchange_post_def intro: explains_append)

lemma emits_send_request:
  "emits (send_request (traced_os os) fuel sock request)
     (\<lambda>r tr. set (send_attempts tr) \<subseteq> {request} \<and> length (sent tr) = (if is_ok r then 1 else 0) \<and>
        clock_reads tr = [] \<and>
        (case r of Inr _ \<Rightarrow> True
         | Inl e \<Rightarrow> \<exists>pre k. tr = pre @ [EvSend request (Inl k)] \<and> classify k \<noteq> Retry \<and> e = send_error k))"
    (is "emits _ ?Q")
proof (induction fuel)
  case 0
  show ?case unfolding send_request.simps by (rule emits_diverges)
next
  case (Suc fuel)
  show ?case unfolding send_request.simps traced_os_simps
  proof (rule emits_seq_logged)
    fix r
    show "emits (case r of Inr _ \<Rightarrow> ret (Inr ()) | Inl err \<Rightarrow>
        if classify err = Retry then send_request (traced_os os) fuel sock request else ret (Inl (send_error err)))
      (\<lambda>b tr. ?Q b (EvSend request r # tr))"
    proof (cases r)
      case (Inl err)
      show ?thesis
      proof (cases "classify err = Retry")
        case True
        show ?thesis unfolding Inl
          by (simp add: True) (rule emits_mono [OF Suc.IH], auto split: sum.splits intro: append_Cons [symmetric])
      next
        case False
        then show ?thesis unfolding Inl by (simp add: emits_ret)
      qed
    next
      case (Inr n)
      then show ?thesis by (simp add: emits_ret)
    qed
  qed
qed

lemma send_error_explained:
  assumes "classify k \<noteq> Retry"
  shows "explains t start (pre @ [EvSend request (Inl k)]) (Inl (send_error k))"
  using assms by (cases "classify k") (auto simp: send_error_def unreachable_kind_def)

lemma emits_seq_elapsed:
  "(\<And>now. emits (f (saturating_sub now start)) (\<lambda>b tr. R b (EvNow now # tr))) \<Longrightarrow>
     emits (seq (elapsed_since (traced_os os) start) f) R"
  unfolding elapsed_since_def traced_os_simps seq_assoc seq_ret by (rule emits_seq_logged)

lemma emits_post_after:
  assumes "emits m (exchange_post t start request n)" and "set (send_attempts before) \<subseteq> {request}"
    and "length (sent before) + n \<le> n'"
  shows "emits m (\<lambda>r tr. exchange_post t start request n' r (before @ tr))"
  using assms(1) by (rule emits_mono) (rule exchange_post_after [OF _ assms(2,3)])

lemma unat_pred: "(x::u32) > 0 \<Longrightarrow> unat (x - 1) = unat x - 1"
  by (simp add: unat_minus_one word_gt_0)

text \<open>A retransmission followed by the rest of the loop.\<close>

lemma emits_retransmit:
  assumes "emits m (exchange_post t start request n)"
  shows "emits (attempt (send_request (traced_os os) sf sock request) (\<lambda>_. m)) (exchange_post t start request (Suc n))"
proof (rule emits_attempt [OF emits_send_request])
  fix e tr
  assume "set (send_attempts tr) \<subseteq> {request} \<and> length (sent tr) = (if is_ok (Inl e :: transport_error + unit) then 1 else 0) \<and>
    clock_reads tr = [] \<and>
    (case Inl e :: transport_error + unit of Inr _ \<Rightarrow> True
     | Inl e \<Rightarrow> \<exists>pre k. tr = pre @ [EvSend request (Inl k)] \<and> classify k \<noteq> Retry \<and> e = send_error k)"
  then show "exchange_post t start request (Suc n) (Inl e) tr"
    unfolding exchange_post_def using send_error_explained [of _ t start _ request] by auto
next
  fix u tr
  assume a: "set (send_attempts tr) \<subseteq> {request} \<and> length (sent tr) = (if is_ok (Inr u :: transport_error + unit) then 1 else 0) \<and>
    clock_reads tr = [] \<and>
    (case Inr u :: transport_error + unit of Inr _ \<Rightarrow> True
     | Inl e \<Rightarrow> \<exists>pre k. tr = pre @ [EvSend request (Inl k)] \<and> classify k \<noteq> Retry \<and> e = send_error k)"
  show "emits m (\<lambda>b tr'. exchange_post t start request (Suc n) b (tr @ tr'))"
    by (rule emits_post_after [OF assms]) (use a in auto)
qed

lemma exchange_post_last:
  "set (send_attempts tr) = {} \<Longrightarrow> sent tr = [] \<Longrightarrow> explains t start tr r \<Longrightarrow> exchange_post t start request n r tr"
  by (simp add: exchange_post_def)

lemma emits_prefix:
  assumes "emits m (\<lambda>b tr. exchange_post t start request n b (e # tr))"
    and "send_attempts before = []" and "sent before = []"
  shows "emits m (\<lambda>b tr. exchange_post t start request n b (before @ e # tr))"
  using assms(1) by (rule emits_mono) (rule exchange_post_after, use assms(2,3) in auto)

lemma recv_error_trace:
  fixes left :: u32
  assumes loop: "\<And>l nx. emits (loop l nx) (exchange_post t start request (unat l))"
  shows "emits
    (case classify err of
       ClassUnreachable \<Rightarrow>
         seq (elapsed_since (traced_os os) start) (\<lambda>elapsed.
           if elapsed < ut_probe_timeout t then ret (Inl Unreachable) else ret (Inl Timeout))
     | Silence \<Rightarrow>
         if left > 0 then
           seq (elapsed_since (traced_os os) start) (\<lambda>elapsed.
             if elapsed \<ge> nxt then
               attempt (send_request (traced_os os) sf sock request) (\<lambda>_. loop (left - 1) (dur_add nxt interval))
             else loop left nxt)
         else loop left nxt
     | Retry \<Rightarrow> loop left nxt
     | Local \<Rightarrow> ret (Inl Io))
    (\<lambda>b tr. exchange_post t start request (unat left) b (EvRecv (Inl err) # tr))"
    (is "emits ?m ?R")
proof -
  have again: "emits (loop left nxt) (\<lambda>b tr. exchange_post t start request (unat left) b (EvRecv (Inl err) # tr))"
    using emits_post_after [OF loop, where before = "[EvRecv (Inl err)]"] by simp
  have again': "emits (loop left nxt)
      (\<lambda>b tr. exchange_post t start request (unat left) b (EvRecv (Inl err) # EvNow now # tr))" for now
    using emits_post_after [OF loop, where before = "[EvRecv (Inl err), EvNow now]"] by simp
  show ?thesis
  proof (cases "classify err")
    case ClassUnreachable
    have "saturating_sub now start < ut_probe_timeout t \<Longrightarrow>
          exchange_post t start request (unat left) (Inl Unreachable) [EvRecv (Inl err), EvNow now]"
      and "\<not> saturating_sub now start < ut_probe_timeout t \<Longrightarrow>
          exchange_post t start request (unat left) (Inl Timeout) [EvRecv (Inl err), EvNow now]" for now
      using ClassUnreachable by (auto simp: unreachable_kind_def intro!: exchange_post_last)
    then show ?thesis
      by (auto simp: ClassUnreachable intro!: emits_seq_elapsed emits_ret)
  next
    case Silence
    have "emits (attempt (send_request (traced_os os) sf sock request) (\<lambda>_. loop (left - 1) (dur_add nxt interval)))
        (\<lambda>b tr. exchange_post t start request (unat left) b (EvRecv (Inl err) # EvNow now # tr))"
      if "left > 0" for now
    proof -
      have "Suc (unat (left - 1)) = unat left" using that unat_pred [of left] by (simp add: word_gt_0 unat_gt_0)
      with emits_post_after [OF emits_retransmit [OF loop], where before = "[EvRecv (Inl err), EvNow now]" and n' = "unat left"]
      show ?thesis by simp
    qed
    then show ?thesis using again again' by (auto simp: Silence intro!: emits_seq_elapsed)
  next
    case Retry
    then show ?thesis using again by simp
  next
    case Local
    then show ?thesis by (auto intro!: emits_ret exchange_post_last exI [of _ "[]"])
  qed
qed

lemma exchange_loop_trace:
  "emits (exchange_loop (traced_os os) sf t sock request accept start interval fuel left nxt)
     (exchange_post t start request (unat left))"
proof (induction fuel arbitrary: left nxt)
  case 0
  show ?case unfolding exchange_loop.simps by (rule emits_diverges)
next
  case (Suc fuel)
  let ?loop = "exchange_loop (traced_os os) sf t sock request accept start interval fuel"
  show ?case unfolding exchange_loop.simps traced_os_simps
  proof (rule emits_seq_elapsed, goal_cases)
    case (1 now)
    let ?d = "read_timeout t left nxt (saturating_sub now start)"
    show ?case
    proof (cases "ut_mfa_timeout t \<le> saturating_sub now start")
      case True
      then show ?thesis by (simp add: emits_ret exchange_post_last)
    next
      case False
      show ?thesis
      proof (simp only: False if_False, rule emits_seq_logged, goal_cases)
        case (1 r2)
        show ?case
        proof (cases r2)
          case (Inl k)
          then show ?thesis by (auto intro!: emits_ret exchange_post_last exI [of _ "[EvNow now]"])
        next
          case (Inr u)
          show ?thesis unfolding Inr sum.case
          proof (rule emits_seq_logged, goal_cases)
            case (1 r3)
            have "emits (if accept (take MAX_PACKET_LEN x) then ret (Inr (take MAX_PACKET_LEN x)) else ?loop left nxt)
                (\<lambda>b tr. exchange_post t start request (unat left) b (EvRecv (Inr x) # tr))" for x
              using emits_post_after [OF Suc.IH, where before = "[EvRecv (Inr x)]"]
              by (auto intro!: emits_ret exchange_post_last)
            with recv_error_trace [where loop = ?loop, OF Suc.IH]
            have "emits (case r3 of
                Inr received \<Rightarrow>
                  (let datagram = take MAX_PACKET_LEN received
                   in if accept datagram then ret (Inr datagram) else ?loop left nxt)
              | Inl err \<Rightarrow>
                  (case classify err of
                     ClassUnreachable \<Rightarrow>
                       seq (elapsed_since (traced_os os) start) (\<lambda>elapsed.
                         if elapsed < ut_probe_timeout t then ret (Inl Unreachable) else ret (Inl Timeout))
                   | Silence \<Rightarrow>
                       if left > 0 then
                         seq (elapsed_since (traced_os os) start) (\<lambda>elapsed.
                           if elapsed \<ge> nxt then
                             attempt (send_request (traced_os os) sf sock request) (\<lambda>_.
                               ?loop (left - 1) (dur_add nxt interval))
                           else ?loop left nxt)
                       else ?loop left nxt
                   | Retry \<Rightarrow> ?loop left nxt
                   | Local \<Rightarrow> ret (Inl Io)))
                (\<lambda>b tr. exchange_post t start request (unat left) b (EvRecv r3 # tr))"
              by (cases r3) (simp_all add: Let_def)
            from emits_prefix [OF this, where before = "[EvNow now, EvReadTimeout ?d (Inr u)]"] show ?case by simp
          qed
        qed
      qed
    qed
  qed
qed

lemma connect_trace:
  "emits (connect (traced_os os) t server)
     (\<lambda>r tr. send_attempts tr = [] \<and> sent tr = [] \<and> clock_reads tr = [] \<and>
        (\<forall>e. r = Inl e \<longrightarrow> explains t start tr (Inl e)))"
  unfolding connect_def Let_def traced_os_simps
proof (rule emits_seq_logged, goal_cases)
  case (1 r)
  show ?case
  proof (cases r)
    case (Inl k)
    then show ?thesis by (auto intro!: emits_ret exI [of _ "[]"])
  next
    case (Inr sock)
    show ?thesis unfolding Inr sum.case
    proof (rule emits_seq_logged, goal_cases)
      case (1 r2)
      have "explains t start [EvBind (Inr sock), EvConnect server (Inl k)] (Inl (send_error k))" for k
        by (cases "classify k") (auto simp: send_error_def unreachable_kind_def intro!: exI [of _ "[EvBind (Inr sock)]"])
      then show ?case by (cases r2) (auto intro!: emits_ret)
    qed
  qed
qed

definition exchange_trace_ok :: "udp_transport \<Rightarrow> bytes \<Rightarrow> transport_error + bytes \<Rightarrow> os_event list \<Rightarrow> bool" where
  "exchange_trace_ok t request r tr \<longleftrightarrow>
     (\<exists>start. (clock_reads tr = [] \<or> hd (clock_reads tr) = start) \<and>
        exchange_post t start request (unat (ut_retries t) + 1) r tr)"

lemma udp_exchange_trace:
  "emits (udp_exchange (traced_os os) fuel t server request accept) (exchange_trace_ok t request)"
  unfolding udp_exchange_def
proof (rule emits_attempt [OF connect_trace [where start = "Nanos 0"]], goal_cases)
  case (1 e tr)
  then show ?case by (auto simp: exchange_trace_ok_def exchange_post_def)
next
  case (2 sock tr)
  show ?case
  proof (rule emits_attempt [OF emits_send_request], goal_cases)
    case (1 e tr1)
    then show ?case
      using 2 explains_append [OF send_error_explained [of _ t "Nanos 0" _ request], of _ tr]
      by (auto simp: exchange_trace_ok_def exchange_post_def)
  next
    case (2 u tr1)
    note pre = \<open>send_attempts tr = [] \<and> _\<close> 2
    show ?case unfolding traced_os_simps
    proof (rule emits_seq_logged, goal_cases)
      case (1 start)
      show ?case
      proof (cases "retransmit_interval (ut_probe_timeout t) (ut_retries t)")
        case None
        then show ?thesis by (simp add: emits_panic)
      next
        case (Some interval)
        have "emits (exchange_loop (traced_os os) fuel t sock request accept start interval fuel (ut_retries t) interval)
            (\<lambda>r tr'. exchange_post t start request (unat (ut_retries t) + 1) r ((tr @ tr1 @ [EvNow start]) @ tr'))"
          by (rule emits_post_after [OF exchange_loop_trace]) (use pre in auto)
        then show ?thesis unfolding Some option.case
          by (rule emits_mono) (use pre in \<open>auto simp: exchange_trace_ok_def\<close>)
      qed
    qed
  qed
qed

end
