(* ===== verification/Radius_Properties.thy ===== *)
theory Radius_Properties
  imports Udp_Trace
begin

text \<open>
  The properties of the RADIUS codec and the UDP transport, each with a concrete instance where it
  has hypotheses.
\<close>

section \<open>Responses\<close>

text \<open>C13: \<open>verify_response\<close> accepts exactly the datagrams that parse to an authentic response: the
  identifier of the request, the Response Authenticator over the received attributes, and one valid
  Message-Authenticator (none only where the binding does not require it).\<close>

theorem response_accepted_iff:
  "verify_response K b p secret \<longleftrightarrow> (\<exists>r. parse_response p = Inr r \<and> authentic_response K b secret r)"
  by (rule verify_response_iff)

text \<open>C14: Changing the Message-Authenticator of an accepted response makes it rejected: any other
  packet with the same header and the other attributes unchanged is refused.\<close>

theorem forged_message_authenticator_rejected:
  assumes "parse_response p = Inr r" and "verify_response K b p secret" and "ma_values (pr_attrs r) = [ma]"
    and "parse_response p' = Inr (r\<lparr>pr_attrs := set_ma ma' (pr_attrs r)\<rparr>)" and "ma' \<noteq> ma"
  shows "\<not> verify_response K b p' secret"
proof -
  have "response_ma_input (r\<lparr>pr_attrs := set_ma ma' (pr_attrs r)\<rparr>) ra = response_ma_input r ra" if "length ma' = 16" for ra
    using that assms(2,3) unfolding verify_response_parsed [OF assms(1)]
    by (simp add: response_ma_input_def authentic_response_def)
  then show ?thesis
    using assms(2,3,5) unfolding verify_response_parsed [OF assms(1)] verify_response_parsed [OF assms(4)]
    by (auto simp: authentic_response_def ma_values_set_ma)
qed

lemma mix_not_zeros: "mix 16 m \<noteq> zeros 16"
proof
  assume "mix 16 m = zeros 16"
  then have "mix 16 m ! 0 = mix 16 m ! 1" by (simp add: zeros_def)
  then show False by (simp add: mix_def)
qed

theorem forged_message_authenticator_rejected_witness:
  "\<exists>r. parse_response (server_response demo_crypto AccessReject 7 (zeros 16) [(MESSAGE_AUTHENTICATOR, zeros 16)] [1]) = Inr r \<and>
     \<not> verify_response demo_crypto (request_binding_new 7 (zeros 16))
        (packet_bytes (pr_code r) (pr_id r) (pr_authenticator r) [(MESSAGE_AUTHENTICATOR, zeros 16)]) [1]"
proof -
  let ?as = "[(MESSAGE_AUTHENTICATOR, zeros 16)]"
  have as: "wf_attrs ?as" "fits ?as" "ma_values ?as = [zeros 16]" "length (zeros 16) = 16"
    by (simp_all add: wf_attrs_def fits_def)
  note parsed = server_response_parsed [OF demo_crypto_ok as, of AccessReject 7 "zeros 16" "[1]"]
  obtain mac where mac: "hmac_md5_mac demo_crypto [1] (packet_bytes (code_as_u8 AccessReject) 7 (zeros 16) (set_ma (zeros 16) ?as)) = Some mac"
      "mac \<noteq> zeros 16"
    using mix_not_zeros by (simp add: demo_crypto_def)
  note ok = server_response_accepted [OF demo_crypto_ok as mac(1)]
  have m: "message_authenticator demo_crypto (packet_bytes (code_as_u8 AccessReject) 7 (zeros 16) (set_ma (zeros 16) ?as)) [1] = mac"
    using mac(1) by (simp add: message_authenticator_def hmac_md5_def)
  obtain r where r: "parse_response (server_response demo_crypto AccessReject 7 (zeros 16) ?as [1]) = Inr r"
      "pr_attrs r = [(MESSAGE_AUTHENTICATOR, mac)]" "length (pr_authenticator r) = 16"
    using parsed unfolding m by (simp add: response_authenticator_def crypto_ok_lengths [OF demo_crypto_ok])
  have "parse_response (packet_bytes (pr_code r) (pr_id r) (pr_authenticator r) ?as) = Inr (r\<lparr>pr_attrs := set_ma (zeros 16) (pr_attrs r)\<rparr>)"
    using parse_packet_bytes [OF r(3) as(1,2)] r(2) by simp
  with forged_message_authenticator_rejected [OF r(1) ok _ this] show ?thesis using r mac(2) by simp
qed

section \<open>The parser\<close>

text \<open>C20: A packet parses exactly when it is, up to trailing padding, the encoding of a header and
  well-formed attributes within the 4096 octets of RFC 2865, and the result is that header and those
  attributes.\<close>

theorem parse_response_spec:
  "parse_response p = Inr r \<longleftrightarrow>
     (\<exists>pad. p = packet_bytes (pr_code r) (pr_id r) (pr_authenticator r) (pr_attrs r) @ pad) \<and>
     length (pr_authenticator r) = 16 \<and> wf_attrs (pr_attrs r) \<and> length p \<le> 4096"
  by (rule parse_response_Inr)

section \<open>Packets\<close>

text \<open>The chain of \<open>attribute\<close> calls of a client of the builder.\<close>

fun add_attributes :: "packet_builder \<Rightarrow> (u8 \<times> bytes) list \<Rightarrow> encode_error + packet_builder" where
  "add_attributes pb [] = Inr pb"
| "add_attributes pb (a # as) = and_then (attribute pb (fst a) (snd a)) (\<lambda>pb. add_attributes pb as)"

lemma add_attributes_Inr:
  "fits bs \<Longrightarrow> add_attributes (builder_with c i auth bs) as = Inr pb \<longleftrightarrow>
     fits (bs @ as) \<and> pb = builder_with c i auth (bs @ as)"
proof (induction as arbitrary: bs)
  case (Cons a as)
  have "fits (bs @ a # as) \<Longrightarrow> fits (bs @ [a])" using fits_append [of "bs @ [a]" as] by simp
  with Cons.prems Cons.IH [of "bs @ [a]"] show ?case by (auto simp: and_then_Inr attribute_Inr)
qed auto

text \<open>C21: Building a packet succeeds exactly when every value has at most 253 octets and the packet at
  most 4096, and the packet built parses back to the same code, identifier, authenticator and
  attributes.\<close>

theorem builder_roundtrip:
  assumes "length auth = 16" and "list_all (\<lambda>a. fst a = VENDOR_SPECIFIC \<longrightarrow> vsa_ok (snd a)) as"
  shows "case and_then (add_attributes (packet_builder_new c i auth) as) build of
      Inr p \<Rightarrow> list_all (\<lambda>a. length (snd a) \<le> 253) as \<and> length p = 20 + length (enc_attrs as) \<and> length p \<le> 4096 \<and>
        parse_response p = Inr \<lparr>pr_code = code_as_u8 c, pr_id = i, pr_authenticator = auth, pr_attrs = as\<rparr>
    | Inl _ \<Rightarrow> \<not> (list_all (\<lambda>a. length (snd a) \<le> 253) as \<and> 20 + length (enc_attrs as) \<le> 4096)"
proof -
  let ?B = "and_then (add_attributes (packet_builder_new c i auth) as) build"
  have b: "?B = Inr p \<longleftrightarrow> fits as \<and> p = packet_bytes (code_as_u8 c) i auth as" for p
    unfolding packet_builder_new_eq and_then_Inr using build_builder_with [of as c i auth] by (auto simp: add_attributes_Inr)
  have f: "fits as \<longleftrightarrow> list_all (\<lambda>a. length (snd a) \<le> 253) as \<and> 20 + length (enc_attrs as) \<le> 4096"
    by (simp add: fits_def short_attrs_def)
  show ?thesis
  proof (cases ?B)
    case (Inl e)
    then have "\<not> fits as" using b by auto
    then show ?thesis unfolding Inl sum.case f .
  next
    case (Inr p)
    then have p: "fits as" "p = packet_bytes (code_as_u8 c) i auth as" using b by auto
    then have "wf_attrs as" using assms(2) by (simp add: wf_attrs_def fits_def)
    from parse_packet_bytes [OF assms(1) this p(1)] show ?thesis
      unfolding Inr sum.case p(2) using p(1) assms(1) by (simp add: f)
  qed
qed

theorem builder_roundtrip_witness:
  "case and_then (add_attributes (packet_builder_new AccessRequest 7 (zeros 16)) [(USER_NAME, [117])]) build of
      Inr p \<Rightarrow> list_all (\<lambda>a. length (snd a) \<le> 253) [(USER_NAME, [117 :: u8])] \<and>
        length p = 20 + length (enc_attrs [(USER_NAME, [117])]) \<and> length p \<le> 4096 \<and>
        parse_response p = Inr \<lparr>pr_code = code_as_u8 AccessRequest, pr_id = 7, pr_authenticator = zeros 16,
          pr_attrs = [(USER_NAME, [117])]\<rparr>
    | Inl _ \<Rightarrow> \<not> (list_all (\<lambda>a. length (snd a) \<le> 253) [(USER_NAME, [117 :: u8])] \<and>
        20 + length (enc_attrs [(USER_NAME, [117])]) \<le> 4096)"
  by (rule builder_roundtrip) simp_all

text \<open>What the checks of \<open>fill_message_authenticator\<close> leave are the packets of short attributes.\<close>

definition packet_of :: "bytes \<Rightarrow> u8 \<Rightarrow> u8 \<Rightarrow> bytes \<Rightarrow> (u8 \<times> bytes) list \<Rightarrow> bool" where
  "packet_of p c i auth as \<longleftrightarrow> length auth = 16 \<and> fits as \<and> p = packet_bytes c i auth as"

lemma walked_packet:
  assumes "20 \<le> length p" and "length p \<le> 4096" and "unat (u16_from_be (p ! 2) (p ! 3)) = length p"
    and "for_each_attribute (drop 20 p) find_ma (None, False, False) = Inr st"
  shows "\<exists>c i auth as. packet_of p c i auth as"
proof -
  obtain as where as: "short_attrs as" "drop 20 p = enc_attrs as" using walk.walk_region [OF assms(4)] by blast
  then have "slice 20 (length p) p = enc_attrs as" by (simp add: slice_to_end)
  from packet_bytes_intro [OF assms(1) _ assms(2) assms(3) [symmetric] this]
  have "p = packet_bytes (p ! 0) (p ! 1) (slice 4 20 p) as" by simp
  moreover have "length p = 20 + length (enc_attrs as)" using arg_cong [OF as(2), of length] assms(1) by simp
  then have "fits as" using as(1) assms(2) by (simp add: fits_def)
  moreover have "length (slice 4 20 p) = 16" using assms(1) by simp
  ultimately show ?thesis unfolding packet_of_def by blast
qed

lemma fill_malformed:
  assumes "\<nexists>c i auth as. packet_of p c i auth as"
  shows "fill_message_authenticator K p secret = Inl MalformedPacket"
proof (cases "length p < 20 \<or> length p > 4096 \<or> unat (u16_from_be (p ! 2) (p ! 3)) \<noteq> length p")
  case True
  then show ?thesis by (auto simp: fill_message_authenticator_def)
next
  case False
  then obtain e where "for_each_attribute (drop 20 p) find_ma (None, False, False) = Inl e"
    using walked_packet [of p] assms by (cases "for_each_attribute (drop 20 p) find_ma (None, False, False)") auto
  then show ?thesis by (simp add: fill_message_authenticator_def)
qed

text \<open>C22: Filling the Message-Authenticator of a packet of well-formed attributes replaces the one
  placeholder of 16 octets by the HMAC-MD5 of the packet with that value zeroed, changes nothing
  else, and refuses a packet without one, with two, or with one of another length. Any other octets
  (too short or too long, with another declared length, with attributes that do not end where the
  packet ends) are refused as malformed.\<close>

theorem fill_message_authenticator_spec:
  assumes "crypto_ok K"
  shows "(\<forall>c i auth as. packet_of p c i auth as \<longrightarrow>
      fill_message_authenticator K p secret =
        (if \<exists>v\<in>set (ma_values as). length v \<noteq> 16 then Inl MalformedPacket
         else case ma_values as of
           [] \<Rightarrow> Inl MissingMessageAuthenticator
         | [m] \<Rightarrow> Inr (packet_bytes c i auth
             (set_ma (message_authenticator K (packet_bytes c i auth (set_ma (zeros 16) as)) secret) as))
         | _ \<Rightarrow> Inl DuplicateMessageAuthenticator)) \<and>
    ((\<nexists>c i auth as. packet_of p c i auth as) \<longrightarrow> fill_message_authenticator K p secret = Inl MalformedPacket)"
  using fill_packet_bytes [OF assms] fill_malformed by (auto simp: packet_of_def filled_def split: list.split)

text \<open>A packet with a placeholder is filled, and refused when an octet follows it.\<close>

theorem fill_message_authenticator_spec_witness:
  "is_ok (fill_message_authenticator demo_crypto
     (packet_bytes 1 7 (zeros 16) [(USER_NAME, [117]), (MESSAGE_AUTHENTICATOR, zeros 16)]) [1, 2]) \<and>
   fill_message_authenticator demo_crypto
     (packet_bytes 1 7 (zeros 16) [(USER_NAME, [117]), (MESSAGE_AUTHENTICATOR, zeros 16)] @ [0]) [1, 2] = Inl MalformedPacket"
proof -
  let ?as = "[(USER_NAME, [117]), (MESSAGE_AUTHENTICATOR, zeros 16)]"
  let ?p = "packet_bytes 1 7 (zeros 16) ?as"
  have fit: "fits ?as" by (simp add: fits_def)
  then have "packet_of ?p 1 7 (zeros 16) ?as" by (simp add: packet_of_def)
  moreover have "\<not> packet_of (?p @ [0]) c i auth as" for c i auth as
  proof
    assume "packet_of (?p @ [0]) c i auth as"
    then have as: "length auth = 16" "20 + length (enc_attrs as) \<le> 4096" and p: "?p @ [0] = packet_bytes c i auth as"
      by (simp_all add: packet_of_def fits_def)
    have l: "length (?p @ [0]) = 42" by simp
    have "unat (u16_from_be ((?p @ [0]) ! 2) ((?p @ [0]) ! 3)) = 42"
      using declared_packet_bytes [OF as, of c i] l as(1) unfolding p by simp
    moreover have "unat (u16_from_be (?p ! 2) (?p ! 3)) = 41"
      using declared_packet_bytes [of "zeros 16" ?as 1 7] by simp
    ultimately show False by (simp add: nth_append)
  qed
  ultimately show ?thesis
    using fill_message_authenticator_spec [OF demo_crypto_ok, of ?p "[1, 2]"]
      fill_message_authenticator_spec [OF demo_crypto_ok, of "?p @ [0]" "[1, 2]"] by auto
qed

section \<open>The UDP transport\<close>

text \<open>C18: What an exchange does to the network, read from the log of its operating-system calls: only
  the request is sent, at most \<open>retries + 1\<close> times, and the result is explained by the last events:
  a returned datagram is the last one received; a timeout means that the whole wait has elapsed, or
  that the destination became unreachable after the probe window; \<open>Unreachable\<close> means a refused
  connect or send, or a refusal within the probe window; an i/o error a local failure.\<close>

theorem exchange_explained:
  "emits (udp_exchange (traced_os os) fuel t server request accept) (exchange_trace_ok t request)"
  by (rule udp_exchange_trace)

text \<open>C19: An exchange returns when the clock advances with every receive, no send is interrupted for
  ever and \<open>retries + 1\<close> does not wrap to zero: the receive loop runs at most once for each nanosecond
  of the configured wait, and that much fuel is enough.\<close>

theorem exchange_terminates:
  assumes "clock_advances os clock" and "sends_return os fuel"
    and "nanos (ut_mfa_timeout t) < fuel" and "ut_retries t + 1 \<noteq> 0"
  shows "\<exists>r w'. udp_exchange os fuel t server request accept w = Returns r w'"
  using assms by (rule udp_exchange_returns)

text \<open>A network that never answers, with a clock.\<close>

definition tick_os :: "nat os" where
  "tick_os =
     \<lparr>os_bind = (\<lambda>a w. (Inr 3, w)), os_connect = (\<lambda>s a w. (Inr (), w)), os_send = (\<lambda>s b w. (Inr (length b), w)),
      os_set_read_timeout = (\<lambda>s d w. (Inr (), w)), os_recv = (\<lambda>s n w. (Inl WouldBlock, Suc w)),
      os_now = (\<lambda>w. (Nanos w, w))\<rparr>"

lemma tick_os_clock: "clock_advances tick_os (\<lambda>w. w)"
  by (simp add: clock_advances_def tick_os_def)

lemma tick_os_sends: "0 < fuel \<Longrightarrow> sends_return tick_os fuel"
  by (cases fuel) (simp_all add: sends_return_def tick_os_def seq_lift)

theorem exchange_terminates_witness:
  "\<exists>r w'. udp_exchange tick_os 8 (udp_transport_new (Nanos 2) (Nanos 7) 1 None) (SocketV4 (Ipv4 1 2 3 4) 1812)
     [1] (\<lambda>_. True) 0 = Returns r w'"
  by (rule exchange_terminates [OF tick_os_clock tick_os_sends]) (simp_all add: udp_transport_new_def)

text \<open>C38: With \<open>retries = 4294967295\<close> the divisor \<open>retries + 1\<close> of the retransmit interval wraps to
  zero and every exchange panics after its first send.\<close>

theorem retransmit_overflow_panics:
  assumes "ut_retries t = 4294967295" and "connect os t server w = Returns (Inr sock) w1"
    and "send_request os fuel sock request w1 = Returns (Inr ()) w2"
  shows "\<exists>w'. udp_exchange os fuel t server request accept w = Panics w'"
proof -
  have "retransmit_interval (ut_probe_timeout t) (ut_retries t) = None"
    by (simp add: retransmit_interval_def dur_div_def assms(1))
  then show ?thesis using assms(2,3) by (simp add: udp_exchange_def attempt_apply seq_lift)
qed

theorem retransmit_overflow_panics_witness:
  "\<exists>w'. udp_exchange tick_os 8 (from_config 5 60 4294967295 None) (SocketV4 (Ipv4 1 2 3 4) 1812)
     [1] (\<lambda>_. True) 0 = Panics w'"
proof (rule retransmit_overflow_panics)
  show "ut_retries (from_config 5 60 4294967295 None) = 4294967295" by (simp add: from_config_def udp_transport_new_def)
  show "connect tick_os (from_config 5 60 4294967295 None) (SocketV4 (Ipv4 1 2 3 4) 1812) 0 = Returns (Inr 3) 0"
    by (simp add: connect_def tick_os_def seq_lift)
  show "send_request tick_os 8 3 [1] 0 = Returns (Inr ()) 0"
    by (simp add: tick_os_def seq_lift numeral_eq_Suc)
qed

text \<open>A network whose first receive returns late, and which has become unreachable by then.\<close>

definition late_os :: "nat os" where
  "late_os = tick_os\<lparr>os_send := (\<lambda>s b w. (if w = 0 then Inr (length b) else Inl HostUnreachable, w)),
     os_recv := (\<lambda>s n w. (Inl WouldBlock, w + 10))\<rparr>"

text \<open>C39: After the probe window the two kinds of explicit error part: in any round of the receive loop
  whose receive ends past the window, an error of the receive itself is a terminal \<open>Timeout\<close>, while a
  retransmission that is then due is still sent, and an explicit error of it is reported as
  \<open>Unreachable\<close>, the result on which the flows fail over.\<close>

theorem late_retransmit_unreachable:
  assumes "elapsed_since os (Nanos s) w = Returns elapsed w1" and "elapsed < ut_mfa_timeout t"
    and "os_set_read_timeout os sock (read_timeout t left nxt elapsed) w1 = (Inr (), w2)"
    and "os_recv os sock MAX_PACKET_LEN w2 = (Inl err, w3)"
    and "elapsed_since os (Nanos s) w3 = Returns late w4" and "ut_probe_timeout t \<le> late"
  shows "(classify err = ClassUnreachable \<longrightarrow>
      exchange_loop os sf t sock request accept (Nanos s) interval (Suc fuel) left nxt w = Returns (Inl Timeout) w4) \<and>
    (classify err = Silence \<and> 0 < left \<and> nxt \<le> late \<and> send_request os sf sock request w4 = Returns (Inl Unreachable) w5 \<longrightarrow>
      exchange_loop os sf t sock request accept (Nanos s) interval (Suc fuel) left nxt w = Returns (Inl Unreachable) w5)"
proof -
  have "\<not> ut_mfa_timeout t \<le> elapsed" "\<not> late < ut_probe_timeout t"
    using assms(2,6) by (auto simp: less_eq_duration_def less_duration_def)
  then show ?thesis
    unfolding exchange_loop_step [OF assms(1) \<open>\<not> ut_mfa_timeout t \<le> elapsed\<close> assms(3,4,5)] by (auto simp: attempt_apply)
qed

text \<open>Ten nanoseconds into a probe window of five, with the retransmission due after two.\<close>

theorem late_retransmit_unreachable_witness:
  "exchange_loop late_os (Suc 0) (udp_transport_new (Nanos 5) (Nanos 100) 1 None) 3 [1] (\<lambda>_. True) (Nanos 0) (Nanos 2)
     (Suc 0) 1 (Nanos 2) 0 = Returns (Inl Unreachable) 10"
proof -
  let ?t = "udp_transport_new (Nanos 5) (Nanos 100) 1 None"
  have e: "elapsed_since late_os (Nanos 0) w = Returns (Nanos w) w" for w
    by (simp add: elapsed_since_def late_os_def tick_os_def lift_apply saturating_sub_def)
  have calls: "os_set_read_timeout late_os 3 d 0 = (Inr (), 0)" "os_recv late_os 3 MAX_PACKET_LEN 0 = (Inl WouldBlock, 10)" for d
    by (simp_all add: late_os_def tick_os_def)
  have times: "Nanos 0 < ut_mfa_timeout ?t" "ut_probe_timeout ?t \<le> Nanos 10" "Nanos 2 \<le> Nanos 10"
    by (simp_all add: udp_transport_new_def less_eq_duration_def less_duration_def)
  have send: "send_request late_os (Suc 0) 3 [1] 10 = Returns (Inl Unreachable) 10"
    by (simp add: late_os_def tick_os_def seq_lift send_error_def)
  show ?thesis
    using late_retransmit_unreachable [OF e times(1) calls e times(2), where sf = "Suc 0"] send times(3) by simp
qed

end
