(* ===== verification/Mschap_Crypto.thy ===== *)
theory Mschap_Crypto
  imports Radius_Types
begin

text \<open>
  The MSCHAPv2 computations of RFC 2759 (\<open>crates/mschapv2/src/crypto.rs\<close>): password hashes, the
  three-DES challenge response, the authenticator response and its comparison. The lemmas say that
  the DES key expansion spreads the 56 key bits unchanged, that hex output is read back, and what
  the comparison of two authenticator strings accepts. The primitives are the record \<open>crypto\<close>.
\<close>

unbundle bit_operations_syntax

section \<open>Hashes\<close>

definition MAGIC1 :: bytes where
  "MAGIC1 = blit ''Magic server to client signing constant''"

definition MAGIC2 :: bytes where
  "MAGIC2 = blit ''Pad to make it do more than one iteration''"

definition md4_16 :: "crypto \<Rightarrow> bytes \<Rightarrow> bytes" where
  "md4_16 K bs = md4 K bs"

definition nt_password_hash :: "crypto \<Rightarrow> rstr \<Rightarrow> bytes" where
  "nt_password_hash K password = md4_16 K (concat (map u16_to_le (encode_utf16 password)))"

definition password_hash_hash :: "crypto \<Rightarrow> bytes \<Rightarrow> bytes" where
  "password_hash_hash K nt_hash = md4_16 K nt_hash"

definition challenge_hash :: "crypto \<Rightarrow> bytes \<Rightarrow> bytes \<Rightarrow> bytes \<Rightarrow> bytes" where
  "challenge_hash K peer auth username = take 8 (sha1 K (peer @ auth @ username))"

section \<open>The challenge response\<close>

definition expand_des_key :: "bytes \<Rightarrow> bytes" where
  "expand_des_key k =
     [k ! 0 AND 0xFE,
      push_bit 7 (k ! 0) OR drop_bit 1 (k ! 1),
      push_bit 6 (k ! 1) OR drop_bit 2 (k ! 2),
      push_bit 5 (k ! 2) OR drop_bit 3 (k ! 3),
      push_bit 4 (k ! 3) OR drop_bit 4 (k ! 4),
      push_bit 3 (k ! 4) OR drop_bit 5 (k ! 5),
      push_bit 2 (k ! 5) OR drop_bit 6 (k ! 6),
      push_bit 1 (k ! 6)]"

definition des_encrypt_block :: "crypto \<Rightarrow> bytes \<Rightarrow> bytes \<Rightarrow> bytes" where
  "des_encrypt_block K key8 clear8 = des_encrypt K key8 clear8"

text \<open>\<open>slice::chunks_exact\<close>: the whole chunks of \<open>n\<close> elements, without a shorter remainder.\<close>

function chunks_exact :: "nat \<Rightarrow> 'a list \<Rightarrow> 'a list list" where
  "chunks_exact n xs = (if n = 0 \<or> length xs < n then [] else take n xs # chunks_exact n (drop n xs))"
  by pat_completeness auto
termination
  by (relation "measure (\<lambda>(n, xs). length xs)") auto

declare chunks_exact.simps [simp del]

definition challenge_response :: "crypto \<Rightarrow> bytes \<Rightarrow> bytes \<Rightarrow> bytes" where
  "challenge_response K challenge nt_hash =
     (let padded = splice 0 nt_hash (zeros 21)
      in concat (map (\<lambda>group. des_encrypt_block K (expand_des_key group) challenge) (chunks_exact 7 padded)))"

definition generate_nt_response :: "crypto \<Rightarrow> bytes \<Rightarrow> bytes \<Rightarrow> bytes \<Rightarrow> rstr \<Rightarrow> bytes" where
  "generate_nt_response K auth peer username password =
     (let challenge = challenge_hash K peer auth username;
          nt_hash = nt_password_hash K password
      in challenge_response K challenge nt_hash)"

section \<open>The authenticator response\<close>

definition HEX :: rstr where
  "HEX = lit ''0123456789ABCDEF''"

definition push_upper_hex :: "rstr \<Rightarrow> bytes \<Rightarrow> rstr" where
  "push_upper_hex out bs =
     out @ concat (map (\<lambda>b. [HEX ! unat (drop_bit 4 b), HEX ! unat (b AND 0x0F)]) bs)"

definition generate_authenticator_response :: "crypto \<Rightarrow> rstr \<Rightarrow> bytes \<Rightarrow> bytes \<Rightarrow> bytes \<Rightarrow> bytes \<Rightarrow> rstr" where
  "generate_authenticator_response K password nt_response peer auth username =
     (let password_hash = nt_password_hash K password;
          password_hash_hash = password_hash_hash K password_hash;
          digest1 = sha1 K (password_hash_hash @ nt_response @ MAGIC1);
          challenge = challenge_hash K peer auth username;
          digest2 = sha1 K (digest1 @ challenge @ MAGIC2)
      in push_upper_hex (lit ''S='') digest2)"

definition hex_val :: "u8 \<Rightarrow> u8 option" where
  "hex_val c =
     (if 48 \<le> c \<and> c \<le> 57 then Some (c - 48)
      else if 97 \<le> c \<and> c \<le> 102 then Some (c - 97 + 10)
      else if 65 \<le> c \<and> c \<le> 70 then Some (c - 65 + 10)
      else None)"

fun hex_pairs :: "bytes list \<Rightarrow> bytes option" where
  "hex_pairs [] = Some []"
| "hex_pairs (pair # pairs) =
     (case hex_val (pair ! 0) of None \<Rightarrow> None
      | Some hi \<Rightarrow>
          (case hex_val (pair ! 1) of None \<Rightarrow> None
           | Some lo \<Rightarrow> map_option (Cons (push_bit 4 hi OR lo)) (hex_pairs pairs)))"

definition hex_decode_20 :: "bytes \<Rightarrow> bytes option" where
  "hex_decode_20 hex = (if length hex \<noteq> 40 then None else hex_pairs (chunks_exact 2 hex))"

definition decode_s_value :: "rstr \<Rightarrow> bytes option" where
  "decode_s_value s =
     (case strip_prefix (lit ''S='') s of None \<Rightarrow> None
      | Some hex \<Rightarrow> if length (as_bytes hex) \<noteq> 40 then None else hex_decode_20 (as_bytes hex))"

definition verify_authenticator_response :: "rstr \<Rightarrow> rstr \<Rightarrow> bool" where
  "verify_authenticator_response expected received =
     (case decode_s_value expected of None \<Rightarrow> False
      | Some a \<Rightarrow> (case decode_s_value received of None \<Rightarrow> False | Some b \<Rightarrow> a = b))"

section \<open>Lengths\<close>

lemma chunks_exact_append:
  "n \<noteq> 0 \<Longrightarrow> length xs = n \<Longrightarrow> chunks_exact n (xs @ ys) = xs # chunks_exact n ys"
  by (subst chunks_exact.simps) simp

lemma chunks_exact_short: "length xs < n \<Longrightarrow> chunks_exact n xs = []"
  by (subst chunks_exact.simps) simp

lemma length_chunks_exact: "n \<noteq> 0 \<Longrightarrow> length (chunks_exact n xs) = length xs div n"
proof (induction n xs rule: chunks_exact.induct)
  case (1 n xs)
  then show ?case by (subst chunks_exact.simps) (auto simp: le_div_geq not_less)
qed

text \<open>The three key groups of a 16-octet hash: the last has two octets of it and five zeros.\<close>

lemma challenge_response_groups:
  assumes "length h = 16"
  shows "challenge_response K c h =
    des_encrypt K (expand_des_key (take 7 h)) c @ des_encrypt K (expand_des_key (slice 7 14 h)) c @
    des_encrypt K (expand_des_key (drop 14 h @ zeros 5)) c"
proof -
  have "splice 0 h (zeros 21) = take 7 h @ slice 7 14 h @ (drop 14 h @ zeros 5)"
    using assms split_at [of 7 14 h] by (simp add: splice_def zeros_def)
  then show ?thesis
    using assms chunks_exact_append [of 7 "take 7 h"] chunks_exact_append [of 7 "slice 7 14 h"]
      chunks_exact_append [of 7 "drop 14 h @ zeros 5" "[]"]
    by (simp add: challenge_response_def des_encrypt_block_def chunks_exact_short)
qed

lemma length_generate_nt_response: "crypto_ok K \<Longrightarrow> length (generate_nt_response K auth peer user pw) = 24"
  by (simp add: generate_nt_response_def challenge_response_groups nt_password_hash_def md4_16_def
      crypto_ok_lengths Let_def)

section \<open>Key expansion\<close>

text \<open>The bits of an octet, most significant first.\<close>

definition msb_first :: "u8 \<Rightarrow> bool list" where
  "msb_first b = map (bit b) [7, 6, 5, 4, 3, 2, 1, 0]"

text \<open>
  RFC 2759, DesEncrypt: the 56 bits of the group are the high seven bits of the eight octets of
  the key, in order.
\<close>

lemma expand_des_key_bits:
  assumes "length k = 7"
  shows "concat (map (take 7 \<circ> msb_first) (expand_des_key k)) = concat (map msb_first k)"
proof -
  obtain a b c d e f g where k: "k = [a, b, c, d, e, f, g]"
    using assms by (auto simp: eval_nat_numeral length_Suc_conv)
  have "bit (0xFE :: u8) n \<longleftrightarrow> 1 \<le> n \<and> n \<le> 7" if "n \<le> 7" for n
  proof -
    have "n \<in> {0, 1, 2, 3, 4, 5, 6, 7}" using that by auto
    then show ?thesis by auto
  qed
  moreover have "\<not> bit x n" if "8 \<le> n" for x :: u8 and n
    using that bit_imp_le_length [of x n] by auto
  moreover have "bit (x * 2) n \<longleftrightarrow> n < 8 \<and> n \<noteq> 0 \<and> bit x (n - 1)" for x :: u8 and n
    using bit_double_iff [of x n] by (auto simp: mult.commute)
  ultimately show ?thesis
    unfolding k expand_des_key_def msb_first_def
    by (simp add: bit_simps) (simp add: numeral_2_eq_2 numeral_3_eq_3)
qed

section \<open>Hexadecimal\<close>

lemma hex_nibble:
  assumes "n < 16"
  shows "hex_val (as_u8 (HEX ! n)) = Some (as_u8 n)" and "HEX ! n < 128"
proof -
  have "list_all (\<lambda>k. hex_val (as_u8 (HEX ! k)) = Some (as_u8 k) \<and> HEX ! k < 128) [0..<16]"
    by (simp add: upt_conv_Cons HEX_def lit_def hex_val_def as_u8_def)
  then show "hex_val (as_u8 (HEX ! n)) = Some (as_u8 n)" "HEX ! n < 128"
    using assms by (simp_all add: list_all_iff)
qed

lemma nibbles: "push_bit 4 (drop_bit 4 b) OR (b AND 0x0F) = (b :: u8)"
proof -
  have m: "0x0F = (mask 4 :: u8)" by (simp add: mask_eq_exp_minus_1)
  show ?thesis unfolding m
    by (rule bit_eqI) (auto simp: bit_simps)
qed

lemma nibble_bounds: "unat (drop_bit 4 (b::u8)) < 16" "unat (b AND 0x0F) < 16"
proof -
  have m: "0x0F = (mask 4 :: u8)" by (simp add: mask_eq_exp_minus_1)
  have "drop_bit 4 b = of_nat (unat b div 16)" by (simp add: drop_bit_eq_div word_arith_nat_div)
  moreover have d: "unat b div 16 < 16" using unat_u8_less [of b] by (simp add: less_mult_imp_div_less)
  ultimately show "unat (drop_bit 4 b) < 16"
    using le_less_trans [OF mod_less_eq_dividend d] by (simp add: unat_of_nat)
  have "unat (b AND 0x0F) = take_bit 4 (unat b)" unfolding m by (simp only: take_bit_eq_mask [symmetric] unsigned_take_bit_eq)
  then show "unat (b AND 0x0F) < 16" using take_bit_nat_less_exp [of 4 "unat b"] by simp
qed

definition upper_hex :: "bytes \<Rightarrow> rstr" where
  "upper_hex bs = concat (map (\<lambda>b. [HEX ! unat (drop_bit 4 b), HEX ! unat (b AND 0x0F)]) bs)"

lemma push_upper_hex_eq: "push_upper_hex out bs = out @ upper_hex bs"
  by (simp add: push_upper_hex_def upper_hex_def)

lemma upper_hex_ascii: "list_all (\<lambda>c. c < 128) (upper_hex bs)"
  by (induction bs) (simp_all add: upper_hex_def hex_nibble(2) nibble_bounds)

lemma length_upper_hex [simp]: "length (upper_hex bs) = 2 * length bs"
  by (induction bs) (simp_all add: upper_hex_def)

lemma as_bytes_ascii: "list_all (\<lambda>c. c < 128) s \<Longrightarrow> as_bytes s = map as_u8 s"
  by (induction s) (simp_all add: as_bytes_Cons utf8_char_def)

lemma hex_pairs_upper_hex: "hex_pairs (chunks_exact 2 (map as_u8 (upper_hex bs))) = Some bs"
proof (induction bs)
  case Nil
  show ?case by (simp add: upper_hex_def chunks_exact_short)
next
  case (Cons b bs)
  let ?pair = "[as_u8 (HEX ! unat (drop_bit 4 b)), as_u8 (HEX ! unat (b AND 0x0F))]"
  have "map as_u8 (upper_hex (b # bs)) = ?pair @ map as_u8 (upper_hex bs)"
    by (simp add: upper_hex_def)
  then have "chunks_exact 2 (map as_u8 (upper_hex (b # bs))) = ?pair # chunks_exact 2 (map as_u8 (upper_hex bs))"
    by (simp only: chunks_exact_append [of 2 ?pair] length_Cons list.size(3))
  then show ?case
    using Cons hex_nibble(1) [OF nibble_bounds(1), of b] hex_nibble(1) [OF nibble_bounds(2), of b]
    by (simp add: nibbles)
qed

lemma lit_ascii_prefix: "strip_prefix (lit s) (lit s @ t) = Some t"
  by (simp add: strip_prefix_Some)

lemma decode_upper_hex: "length bs = 20 \<Longrightarrow> decode_s_value (lit ''S='' @ upper_hex bs) = Some bs"
  by (simp add: decode_s_value_def lit_ascii_prefix as_bytes_ascii upper_hex_ascii hex_decode_20_def hex_pairs_upper_hex)

text \<open>The 20 octets the authenticator response spells out.\<close>

definition authenticator_digest :: "crypto \<Rightarrow> rstr \<Rightarrow> bytes \<Rightarrow> bytes \<Rightarrow> bytes \<Rightarrow> bytes \<Rightarrow> bytes" where
  "authenticator_digest K password nt_response peer auth username =
     sha1 K (sha1 K (md4 K (nt_password_hash K password) @ nt_response @ MAGIC1) @
             challenge_hash K peer auth username @ MAGIC2)"

lemma authenticator_response_decoded:
  "crypto_ok K \<Longrightarrow>
     decode_s_value (generate_authenticator_response K pw nt peer auth user) =
       Some (authenticator_digest K pw nt peer auth user)"
  by (simp add: generate_authenticator_response_def push_upper_hex_eq decode_upper_hex crypto_ok_lengths
      authenticator_digest_def password_hash_hash_def md4_16_def)

lemma verify_authenticator_response_iff:
  "verify_authenticator_response e r \<longleftrightarrow> (\<exists>d. decode_s_value e = Some d \<and> decode_s_value r = Some d)"
  by (auto simp: verify_authenticator_response_def split: option.splits)

end
