(* ===== verification/Mschap_Vsa.thy ===== *)
theory Mschap_Vsa
  imports Mschap_Crypto Radius_Parse
begin

text \<open>
  The Microsoft vendor-specific attributes (\<open>crates/mschapv2/src/vsa.rs\<close>): encoding of the
  challenge and the response, parsing of MS-CHAP2-Success and MS-CHAP-Error, and the search for them
  in a parsed response. The lemmas give the octets encoded, decode them back, and say exactly which
  Success strings are accepted.
\<close>

section \<open>Encoding\<close>

abbreviation MS_CHAP_ERROR :: u8 where "MS_CHAP_ERROR \<equiv> 2"
abbreviation MS_CHAP_CHALLENGE :: u8 where "MS_CHAP_CHALLENGE \<equiv> 11"
abbreviation MS_CHAP2_RESPONSE :: u8 where "MS_CHAP2_RESPONSE \<equiv> 25"
abbreviation MS_CHAP2_SUCCESS :: u8 where "MS_CHAP2_SUCCESS \<equiv> 26"

definition vsa_value :: "u8 \<Rightarrow> bytes \<Rightarrow> bytes" where
  "vsa_value vtype data =
     (let vendor_length = 2 + length data
      in u32_to_be VENDOR_ID_MICROSOFT @ [vtype] @ [as_u8 vendor_length] @ data)"

definition encode_ms_chap_challenge :: "bytes \<Rightarrow> bytes" where
  "encode_ms_chap_challenge auth_challenge = vsa_value MS_CHAP_CHALLENGE auth_challenge"

definition encode_ms_chap2_response :: "u8 \<Rightarrow> bytes \<Rightarrow> bytes \<Rightarrow> bytes" where
  "encode_ms_chap2_response ident peer_challenge nt_response =
     (let data = zeros 50;
          data = data[0 := ident];
          data = data[1 := 0];
          data = splice 2 peer_challenge data;
          data = splice 26 nt_response data
      in vsa_value MS_CHAP2_RESPONSE data)"

section \<open>MS-CHAP2-Success\<close>

datatype success_error = TooShort | MissingSPrefix | NotHex | TrailingGarbage

definition is_ascii_hexdigit :: "u8 \<Rightarrow> bool" where
  "is_ascii_hexdigit c \<longleftrightarrow> (48 \<le> c \<and> c \<le> 57) \<or> (65 \<le> c \<and> c \<le> 70) \<or> (97 \<le> c \<and> c \<le> 102)"

definition to_ascii_uppercase :: "u8 \<Rightarrow> u8" where
  "to_ascii_uppercase c = (if 97 \<le> c \<and> c \<le> 122 then c - 32 else c)"

definition parse_ms_chap2_success :: "bytes \<Rightarrow> success_error + rstr" where
  "parse_ms_chap2_success vdata =
     (if vdata = [] then Inl TooShort
      else
        let s = drop 1 vdata
        in if length s < 42 then Inl TooShort
           else if slice 0 2 s \<noteq> blit ''S='' then Inl MissingSPrefix
           else
             let hex = slice 2 42 s
             in if \<not> list_all is_ascii_hexdigit hex then Inl NotHex
                else if length s > 42 \<and> s ! 42 \<noteq> 0x20 then Inl TrailingGarbage
                else Inr (lit ''S='' @ map (\<lambda>c. unat (to_ascii_uppercase c)) hex))"

section \<open>MS-CHAP-Error\<close>

datatype ms_chap_error =
    RestrictedHours | AccountDisabled | PasswordExpired | NoDialInPermission
  | AuthenticationFailure | ErrorChangingPassword | UnknownCode u32 | Malformed

definition from_code :: "u32 \<Rightarrow> ms_chap_error" where
  "from_code code =
     (if code = 646 then RestrictedHours
      else if code = 647 then AccountDisabled
      else if code = 648 then PasswordExpired
      else if code = 649 then NoDialInPermission
      else if code = 691 then AuthenticationFailure
      else if code = 709 then ErrorChangingPassword
      else UnknownCode code)"

fun reason :: "ms_chap_error \<Rightarrow> rstr" where
  "reason RestrictedHours = lit ''restricted-hours''"
| "reason AccountDisabled = lit ''account-disabled''"
| "reason PasswordExpired = lit ''password-expired''"
| "reason NoDialInPermission = lit ''no-dial-in''"
| "reason AuthenticationFailure = lit ''auth-failure''"
| "reason ErrorChangingPassword = lit ''error-changing-password''"
| "reason (UnknownCode _) = lit ''unknown-error-code''"
| "reason Malformed = lit ''malformed-error''"

text \<open>\<open>s.windows(2).position(|w| w == b"E=")\<close>.\<close>

fun position_e :: "bytes \<Rightarrow> nat option" where
  "position_e (a # b # s) =
     (if a = 69 \<and> b = 61 then Some 0 else map_option Suc (position_e (b # s)))"
| "position_e _ = None"

text \<open>
  The digit loop of \<open>find_e_code\<close>; \<open>None\<close> where it returns early. The accumulator is the value of a
  \<open>u32\<close> whose multiplication and addition are checked.
\<close>

fun e_digits :: "nat \<Rightarrow> nat \<Rightarrow> bool \<Rightarrow> bytes \<Rightarrow> (nat \<times> bool) option" where
  "e_digits n value any [] = Some (value, any)"
| "e_digits n value any (c # cs) =
     (if \<not> (48 \<le> c \<and> c \<le> 57) then Some (value, any)
      else if n \<ge> 9 then None
      else if value * 10 \<ge> 2 ^ 32 then None
      else if value * 10 + unat (c - 48) \<ge> 2 ^ 32 then None
      else e_digits (n + 1) (value * 10 + unat (c - 48)) True cs)"

definition find_e_code :: "bytes \<Rightarrow> u32 option" where
  "find_e_code s =
     (case position_e s of
        None \<Rightarrow> None
      | Some pos \<Rightarrow>
          (let start = pos + 2
           in case e_digits 0 0 False (drop start s) of
                None \<Rightarrow> None
              | Some (value, any) \<Rightarrow> if any then Some (of_nat value) else None))"

definition parse_ms_chap_error :: "bytes \<Rightarrow> ms_chap_error" where
  "parse_ms_chap_error vdata =
     (if vdata = [] then Malformed
      else case find_e_code (drop 1 vdata) of Some code \<Rightarrow> from_code code | None \<Rightarrow> Malformed)"

section \<open>Searching a response\<close>

fun first_vendor_data :: "u8 \<Rightarrow> bytes list \<Rightarrow> bytes option" where
  "first_vendor_data vtype [] = None"
| "first_vendor_data vtype (v # vs) =
     (case decode_vendor_specific v of
        Inr vsa \<Rightarrow>
          if vendor_id vsa = VENDOR_ID_MICROSOFT \<and> vendor_type vsa = vtype then Some (vendor_data vsa)
          else first_vendor_data vtype vs
      | Inl _ \<Rightarrow> first_vendor_data vtype vs)"

definition find_vendor_data :: "parsed_response \<Rightarrow> u8 \<Rightarrow> bytes option" where
  "find_vendor_data response vtype = first_vendor_data vtype (attr_values response VENDOR_SPECIFIC)"

definition find_ms_chap2_success :: "parsed_response \<Rightarrow> bytes option" where
  "find_ms_chap2_success response = find_vendor_data response MS_CHAP2_SUCCESS"

definition find_ms_chap_error :: "parsed_response \<Rightarrow> bytes option" where
  "find_ms_chap_error response = find_vendor_data response MS_CHAP_ERROR"

section \<open>The encodings\<close>

lemma u32_311: "u32_to_be VENDOR_ID_MICROSOFT = [0, 0, 1, 55]"
  by (simp add: u32_to_be_def as_u8_def)

lemma vsa_value_eq: "vsa_value vt d = [0, 0, 1, 55, vt, as_u8 (length d + 2)] @ d"
  by (simp add: vsa_value_def u32_311 add.commute)

lemma length_vsa_value [simp]: "length (vsa_value vt d) = 6 + length d"
  by (simp add: vsa_value_eq)

lemma encode_ms_chap2_response_eq:
  assumes "length peer = 16" and "length nt = 24"
  shows "encode_ms_chap2_response ident peer nt =
    vsa_value MS_CHAP2_RESPONSE (ident # 0 # peer @ zeros 8 @ nt)"
proof -
  have "splice 26 nt (splice 2 peer ((zeros 50)[0 := ident, 1 := 0])) = ident # 0 # peer @ zeros 8 @ nt"
    using assms by (simp add: splice_def zeros_def numeral_eq_Suc)
  then show ?thesis by (simp add: encode_ms_chap2_response_def)
qed

lemma decode_vsa_value:
  "length d \<le> 253 \<Longrightarrow>
     decode_vendor_specific (vsa_value vt d) =
       Inr \<lparr>vendor_id = VENDOR_ID_MICROSOFT, vendor_type = vt, vendor_data = d\<rparr>"
  by (simp add: decode_vendor_specific_def vsa_value_eq u32_from_be_def Let_def)

lemma vsa_value_ok: "length d \<le> 253 \<Longrightarrow> vsa_ok (vsa_value vt d)"
  unfolding vsa_ok_iff
  by (auto simp: vsa_value_eq enc_attr_def intro!: exI [of _ "[(vt, d)]"])

text \<open>
  The first Microsoft attribute of the wanted type whose inner length is exact is the one found.
\<close>

lemma first_vendor_data_Some:
  "first_vendor_data vt vs = Some d \<longleftrightarrow>
     (\<exists>pre v post r. vs = pre @ v # post \<and> decode_vendor_specific v = Inr r \<and> vendor_id r = VENDOR_ID_MICROSOFT \<and>
        vendor_type r = vt \<and> vendor_data r = d \<and>
        list_all (\<lambda>u. \<forall>q. decode_vendor_specific u = Inr q \<longrightarrow> vendor_id q \<noteq> VENDOR_ID_MICROSOFT \<or> vendor_type q \<noteq> vt) pre)"
    (is "_ \<longleftrightarrow> ?R vs")
proof (induction vs)
  case Nil
  then show ?case by simp
next
  case (Cons v vs)
  show ?case
  proof (cases "\<exists>r. decode_vendor_specific v = Inr r \<and> vendor_id r = VENDOR_ID_MICROSOFT \<and> vendor_type r = vt")
    case True
    then obtain r where r: "decode_vendor_specific v = Inr r" "vendor_id r = VENDOR_ID_MICROSOFT" "vendor_type r = vt" by blast
    then have "?R (v # vs) \<longleftrightarrow> vendor_data r = d"
      by (auto simp: Cons_eq_append_conv intro: exI [of _ "[]"])
    then show ?thesis using r by simp
  next
    case False
    have "?R (v # vs) \<longleftrightarrow> ?R vs"
    proof
      assume "?R (v # vs)"
      then obtain pre u post r where R: "v # vs = pre @ u # post" "decode_vendor_specific u = Inr r"
          "vendor_id r = VENDOR_ID_MICROSOFT" "vendor_type r = vt" "vendor_data r = d"
          "list_all (\<lambda>u. \<forall>q. decode_vendor_specific u = Inr q \<longrightarrow> vendor_id q \<noteq> VENDOR_ID_MICROSOFT \<or> vendor_type q \<noteq> vt) pre"
        by blast
      then obtain pre' where "pre = v # pre'" using False by (cases pre) auto
      with R show "?R vs" by auto
    next
      assume "?R vs"
      then obtain pre u post r where "vs = pre @ u # post" "decode_vendor_specific u = Inr r"
          "vendor_id r = VENDOR_ID_MICROSOFT" "vendor_type r = vt" "vendor_data r = d"
          "list_all (\<lambda>u. \<forall>q. decode_vendor_specific u = Inr q \<longrightarrow> vendor_id q \<noteq> VENDOR_ID_MICROSOFT \<or> vendor_type q \<noteq> vt) pre"
        by blast
      with False show "?R (v # vs)" by (intro exI [of _ "v # pre"] exI [of _ u] exI [of _ post] exI [of _ r]) auto
    qed
    then show ?thesis using False Cons.IH by (auto split: sum.split)
  qed
qed

section \<open>The Success string\<close>

lemma hex_val_hexdigit: "is_ascii_hexdigit c \<longleftrightarrow> hex_val c \<noteq> None"
  by (auto simp: is_ascii_hexdigit_def hex_val_def)

lemma u8_cases:
  assumes "\<And>n. n < 256 \<Longrightarrow> P (as_u8 n)" shows "P c"
  using assms [of "unat c"] by simp

lemma to_ascii_uppercase_sub:
  assumes "97 \<le> c" and "c \<le> 102" shows "65 \<le> c - 32 \<and> c - 32 \<le> (70::u8)"
  using assms by (simp add: word_le_nat_alt unat_sub) linarith

lemma hex_val_upper:
  assumes "is_ascii_hexdigit c"
  shows "hex_val (to_ascii_uppercase c) = hex_val c" and "unat (to_ascii_uppercase c) < 128"
proof -
  consider "48 \<le> c" "c \<le> 57" | "65 \<le> c" "c \<le> 70" | "97 \<le> c" "c \<le> 102"
    using assms by (auto simp: is_ascii_hexdigit_def)
  then have "hex_val (to_ascii_uppercase c) = hex_val c \<and> unat (to_ascii_uppercase c) < 128"
  proof cases
    case 3
    note b = to_ascii_uppercase_sub [OF 3]
    have "\<not> c - 32 \<le> 57" "\<not> 97 \<le> c - 32" "\<not> c \<le> 57"
      using b 3 by (auto simp: word_le_nat_alt)
    moreover have "c \<le> 122" using 3(2) by (rule order_trans) simp
    ultimately show ?thesis using 3 b by (simp add: to_ascii_uppercase_def hex_val_def) (simp add: word_le_nat_alt)
  qed (auto simp: to_ascii_uppercase_def word_le_nat_alt)
  then show "hex_val (to_ascii_uppercase c) = hex_val c" "unat (to_ascii_uppercase c) < 128" by simp_all
qed

lemma hex_pairs_upper:
  "list_all is_ascii_hexdigit hex \<Longrightarrow>
     hex_pairs (chunks_exact 2 (map to_ascii_uppercase hex)) = hex_pairs (chunks_exact 2 hex)"
proof (induction hex rule: induct_list012)
  case (3 a b hex)
  have "chunks_exact 2 (a # b # hex) = [a, b] # chunks_exact 2 hex" for a b :: u8 and hex
    using chunks_exact_append [of 2 "[a, b]" hex] by simp
  with 3 show ?case by (simp add: hex_val_upper(1) split: option.split)
qed (simp_all add: chunks_exact_short)

definition success_data :: "bytes \<Rightarrow> bytes \<Rightarrow> bool" where
  "success_data hex d \<longleftrightarrow>
     (\<exists>ident rest. d = ident # blit ''S='' @ hex @ rest \<and> length hex = 40 \<and> list_all is_ascii_hexdigit hex \<and>
        (rest = [] \<or> hd rest = 0x20))"

lemma parse_ms_chap2_success_Inr:
  "parse_ms_chap2_success d = Inr s \<longleftrightarrow>
     (\<exists>hex. success_data hex d \<and> s = lit ''S='' @ map (\<lambda>c. unat (to_ascii_uppercase c)) hex)"
proof
  assume a: "parse_ms_chap2_success d = Inr s"
  then obtain ident t where d: "d = ident # t" by (cases d) (auto simp: parse_ms_chap2_success_def)
  from a have p: "42 \<le> length t" "slice 0 2 t = blit ''S=''" "list_all is_ascii_hexdigit (slice 2 42 t)"
      "length t > 42 \<longrightarrow> t ! 42 = 0x20" "s = lit ''S='' @ map (\<lambda>c. unat (to_ascii_uppercase c)) (slice 2 42 t)"
    by (auto simp: parse_ms_chap2_success_def d Let_def split: if_splits)
  have "t = slice 0 2 t @ slice 2 42 t @ drop 42 t"
    using split_at [of 2 42 t] by (simp add: slice_def)
  moreover have "drop 42 t = [] \<or> hd (drop 42 t) = 0x20" using p(4) by (cases "42 < length t") (simp_all add: hd_drop_conv_nth)
  ultimately have "success_data (slice 2 42 t) d"
    using p(1-3) unfolding success_data_def d by (intro exI [of _ ident] exI [of _ "drop 42 t"]) simp
  with p(5) show "\<exists>hex. success_data hex d \<and> s = lit ''S='' @ map (\<lambda>c. unat (to_ascii_uppercase c)) hex" by blast
next
  assume "\<exists>hex. success_data hex d \<and> s = lit ''S='' @ map (\<lambda>c. unat (to_ascii_uppercase c)) hex"
  then obtain hex ident rest where d: "d = ident # blit ''S='' @ hex @ rest" "length hex = 40"
      "list_all is_ascii_hexdigit hex" "rest = [] \<or> hd rest = 0x20"
      and s: "s = lit ''S='' @ map (\<lambda>c. unat (to_ascii_uppercase c)) hex"
    by (auto simp: success_data_def)
  define t where "t = blit ''S='' @ hex @ rest"
  have "slice 0 2 t = blit ''S=''" "slice 2 42 t = hex" using d(2) by (simp_all add: t_def slice_def)
  moreover have "length t > 42 \<Longrightarrow> t ! 42 = 0x20"
    using d(2,4) by (cases rest) (simp_all add: t_def nth_append)
  ultimately show "parse_ms_chap2_success d = Inr s"
    using d(2,3) by (auto simp: parse_ms_chap2_success_def d(1) t_def [symmetric] s Let_def)
qed

lemma decode_success:
  assumes "success_data hex d"
  shows "decode_s_value (lit ''S='' @ map (\<lambda>c. unat (to_ascii_uppercase c)) hex) = hex_pairs (chunks_exact 2 hex)"
proof -
  from assms have h: "length hex = 40" "list_all is_ascii_hexdigit hex" by (auto simp: success_data_def)
  then have "list_all (\<lambda>c. c < 128) (map (\<lambda>c. unat (to_ascii_uppercase c)) hex)"
    by (auto simp: list_all_iff hex_val_upper(2))
  then have "as_bytes (map (\<lambda>c. unat (to_ascii_uppercase c)) hex) = map to_ascii_uppercase hex"
    by (simp add: as_bytes_ascii comp_def)
  then show ?thesis
    using h by (simp add: decode_s_value_def lit_ascii_prefix hex_decode_20_def hex_pairs_upper)
qed

section \<open>The error code\<close>

text \<open>The limit of nine digits keeps the checked arithmetic from failing.\<close>

lemma digit_value: "48 \<le> c \<Longrightarrow> c \<le> (57::u8) \<Longrightarrow> unat (c - 48) \<le> 9"
  by (simp add: word_le_nat_alt unat_sub)

lemma e_digits_no_overflow:
  "value < 10 ^ n \<Longrightarrow> n \<le> 9 \<Longrightarrow>
     e_digits n value any cs = None \<longleftrightarrow>
       9 - n < length (takeWhile (\<lambda>c. 48 \<le> c \<and> c \<le> 57) cs)"
proof (induction n "value" any cs rule: e_digits.induct)
  case (2 n val any c cs)
  show ?case
  proof (cases "48 \<le> c \<and> c \<le> 57 \<and> n < 9")
    case True
    then have d: "unat (c - 48) \<le> 9" using digit_value by blast
    have "val * 10 + unat (c - 48) < 10 ^ (n + 1)" using 2(2) d by simp
    moreover have "(10::nat) ^ (n + 1) \<le> 10 ^ 9" using True by (intro power_increasing) auto
    ultimately have v: "val * 10 + unat (c - 48) < 10 ^ (n + 1)" "val * 10 + unat (c - 48) < 4294967296" by simp_all
    then show ?thesis using 2(1) [OF _ _ _ _ v(1)] True by (auto simp: not_less)
  next
    case False
    then show ?thesis using 2(3) by auto
  qed
qed simp

end
