(* ===== verification/Mschap_Flow.thy ===== *)
theory Mschap_Flow
  imports Mschap_Vsa Effects
begin

text \<open>
  The MSCHAPv2 exchange (\<open>crates/mschapv2/src/flow.rs\<close>): fresh challenges, the request attributes
  with the expected authenticator, and the check of the server's Success on an Access-Accept.
\<close>

section \<open>The request\<close>

text \<open>The crate's own \<open>RngError\<close>, of the same name as that of the \<open>radius\<close> crate.\<close>

datatype mschap_rng_error = MschapRngError

record challenges =
  authenticator_challenge :: bytes
  peer_challenge :: bytes

definition generate_challenges :: "(bytes option, 'w) io \<Rightarrow> (mschap_rng_error + challenges, 'w) io" where
  "generate_challenges getrandom =
     attempt (seq getrandom (\<lambda>r. ret (ok_or MschapRngError r))) (\<lambda>authenticator_challenge.
     attempt (seq getrandom (\<lambda>r. ret (ok_or MschapRngError r))) (\<lambda>peer_challenge.
       ret (Inr \<lparr>authenticator_challenge = authenticator_challenge, peer_challenge = peer_challenge\<rparr>)))"

record mschapv2_request =
  mr_ms_chap_challenge :: bytes
  mr_ms_chap2_response :: bytes
  mr_expected_authenticator :: rstr

definition build_request :: "crypto \<Rightarrow> bytes \<Rightarrow> rstr \<Rightarrow> challenges \<Rightarrow> u8 \<Rightarrow> mschapv2_request" where
  "build_request K username password challenges ident =
     (let nt_response = generate_nt_response K (authenticator_challenge challenges) (peer_challenge challenges) username password;
          expected_authenticator =
            generate_authenticator_response K password nt_response (peer_challenge challenges)
              (authenticator_challenge challenges) username
      in \<lparr>mr_ms_chap_challenge = encode_ms_chap_challenge (authenticator_challenge challenges),
          mr_ms_chap2_response = encode_ms_chap2_response ident (peer_challenge challenges) nt_response,
          mr_expected_authenticator = expected_authenticator\<rparr>)"

section \<open>The Success check\<close>

definition verify_success :: "rstr \<Rightarrow> bytes \<Rightarrow> bool" where
  "verify_success expected_authenticator success_vendor_data =
     (case parse_ms_chap2_success success_vendor_data of
        Inr received \<Rightarrow> verify_authenticator_response expected_authenticator received
      | Inl _ \<Rightarrow> False)"

definition verify_access_accept :: "parsed_response \<Rightarrow> rstr \<Rightarrow> bool" where
  "verify_access_accept response expected_authenticator =
     (case find_ms_chap2_success response of
        Some data \<Rightarrow> verify_success expected_authenticator data
      | None \<Rightarrow> False)"

section \<open>What is verified\<close>

lemma verify_success_iff:
  assumes "decode_s_value expected = Some D"
  shows "verify_success expected d \<longleftrightarrow> (\<exists>hex. success_data hex d \<and> hex_pairs (chunks_exact 2 hex) = Some D)"
proof (cases "parse_ms_chap2_success d")
  case (Inl e)
  then have "\<not> success_data hex d" for hex using parse_ms_chap2_success_Inr [of d] by (metis sum.distinct(1))
  then show ?thesis using Inl by (simp add: verify_success_def)
next
  case (Inr s)
  then obtain hex where hex: "success_data hex d" "s = lit ''S='' @ map (\<lambda>c. unat (to_ascii_uppercase c)) hex"
    by (auto simp: parse_ms_chap2_success_Inr)
  have "hex' = hex" if "success_data hex' d" for hex'
    using that hex(1) by (auto simp: success_data_def blit_def)
  moreover have "verify_success expected d \<longleftrightarrow> hex_pairs (chunks_exact 2 hex) = Some D"
    unfolding verify_success_def Inr sum.case verify_authenticator_response_iff assms hex(2) decode_success [OF hex(1)]
    by auto
  ultimately show ?thesis using hex(1) by metis
qed

text \<open>
  Mutual authentication: an Access-Accept passes exactly when its first Microsoft MS-CHAP2-Success
  spells out the digest computed from the password and the challenges.
\<close>

lemma verify_access_accept_iff:
  assumes "crypto_ok K"
  shows "verify_access_accept r (generate_authenticator_response K pw nt peer auth user) \<longleftrightarrow>
    (\<exists>d hex. find_ms_chap2_success r = Some d \<and> success_data hex d \<and>
       hex_pairs (chunks_exact 2 hex) = Some (authenticator_digest K pw nt peer auth user))"
  using verify_success_iff [OF authenticator_response_decoded [OF assms]]
  by (simp add: verify_access_accept_def split: option.split)

text \<open>The Success attribute of a server that knows the password.\<close>

definition server_success :: "u8 \<Rightarrow> bytes \<Rightarrow> bytes" where
  "server_success ident digest = vsa_value MS_CHAP2_SUCCESS (ident # blit ''S='' @ map as_u8 (upper_hex digest))"

lemma is_ascii_hexdigit_upper_hex: "list_all is_ascii_hexdigit (map as_u8 (upper_hex bs))"
  unfolding hex_val_hexdigit [abs_def]
  by (induction bs) (simp_all add: upper_hex_def hex_nibble(1) nibble_bounds)

lemma server_success_verified:
  assumes K: "crypto_ok K"
    and r: "attr_values r VENDOR_SPECIFIC = server_success ident (authenticator_digest K pw nt peer auth user) # vs"
  shows "verify_access_accept r (generate_authenticator_response K pw nt peer auth user)"
proof -
  let ?D = "authenticator_digest K pw nt peer auth user"
  have len: "length ?D = 20" using K by (simp add: authenticator_digest_def crypto_ok_lengths)
  have "success_data (map as_u8 (upper_hex ?D)) (ident # blit ''S='' @ map as_u8 (upper_hex ?D))"
    using len by (simp add: success_data_def is_ascii_hexdigit_upper_hex)
  moreover have "find_ms_chap2_success r = Some (ident # blit ''S='' @ map as_u8 (upper_hex ?D))"
    using len by (simp add: find_ms_chap2_success_def find_vendor_data_def r server_success_def decode_vsa_value)
  ultimately show ?thesis
    unfolding verify_access_accept_iff [OF K] using hex_pairs_upper_hex by blast
qed

section \<open>What is sent\<close>

lemma build_request_attrs:
  assumes K: "crypto_ok K" and "length (authenticator_challenge ch) = 16" and "length (peer_challenge ch) = 16"
  shows "mr_ms_chap_challenge (build_request K user pw ch ident) =
      vsa_value MS_CHAP_CHALLENGE (authenticator_challenge ch)" (is ?A)
    and "mr_ms_chap2_response (build_request K user pw ch ident) =
      vsa_value MS_CHAP2_RESPONSE (ident # 0 # peer_challenge ch @ zeros 8 @
        generate_nt_response K (authenticator_challenge ch) (peer_challenge ch) user pw)" (is ?B)
proof -
  show ?A by (simp add: build_request_def Let_def encode_ms_chap_challenge_def)
  show ?B using assms by (simp add: build_request_def Let_def encode_ms_chap2_response_eq length_generate_nt_response)
qed

end
