(* ===== verification/Secrets.thy ===== *)
theory Secrets
  imports Rust_Std
begin

text \<open>
  The secret wrappers (\<open>crates/secrets/src/lib.rs\<close>) as values: the contents each wrapper exposes, its
  length, and its \<open>Debug\<close> text, which does not depend on the contents. The memory behind them, and
  what is left of it when a buffer grows or is dropped, is in Secret_Memory.
\<close>

datatype secret_bytes = SecretBytes (sb_bytes: bytes)

definition secret_bytes_from_vec :: "bytes \<Rightarrow> secret_bytes" where
  "secret_bytes_from_vec bs = SecretBytes bs"

definition secret_bytes_from_bytes :: "bytes \<Rightarrow> secret_bytes" where
  "secret_bytes_from_bytes bs = SecretBytes bs"

definition secret_bytes_expose :: "secret_bytes \<Rightarrow> bytes" where
  "secret_bytes_expose s = sb_bytes s"

definition secret_bytes_len :: "secret_bytes \<Rightarrow> nat" where
  "secret_bytes_len s = length (sb_bytes s)"

definition secret_bytes_is_empty :: "secret_bytes \<Rightarrow> bool" where
  "secret_bytes_is_empty s \<longleftrightarrow> sb_bytes s = []"

definition secret_bytes_debug :: "secret_bytes \<Rightarrow> rstr" where
  "secret_bytes_debug s = lit ''SecretBytes([REDACTED])''"

datatype secret_string = SecretString (ss_text: rstr)

definition secret_string_from_string :: "rstr \<Rightarrow> secret_string" where
  "secret_string_from_string t = SecretString t"

definition secret_string_from_text :: "rstr \<Rightarrow> secret_string" where
  "secret_string_from_text t = SecretString t"

definition expose_secret :: "secret_string \<Rightarrow> rstr" where
  "expose_secret s = ss_text s"

definition secret_string_len :: "secret_string \<Rightarrow> nat" where
  "secret_string_len s = length (as_bytes (ss_text s))"

definition secret_string_is_empty :: "secret_string \<Rightarrow> bool" where
  "secret_string_is_empty s \<longleftrightarrow> ss_text s = []"

definition secret_string_debug :: "secret_string \<Rightarrow> rstr" where
  "secret_string_debug s = lit ''SecretString([REDACTED])''"

datatype zeroizing_bytes = ZeroizingBytes (zb_bytes: bytes)

definition zeroizing_bytes_new :: zeroizing_bytes where
  "zeroizing_bytes_new = ZeroizingBytes []"

definition zeroizing_bytes_with_capacity :: "nat \<Rightarrow> zeroizing_bytes" where
  "zeroizing_bytes_with_capacity cap = ZeroizingBytes []"

text \<open>\<open>as_mut_vec\<close>, with what its caller does to the vector.\<close>

definition zeroizing_bytes_as_mut_vec :: "(bytes \<Rightarrow> bytes) \<Rightarrow> zeroizing_bytes \<Rightarrow> zeroizing_bytes" where
  "zeroizing_bytes_as_mut_vec change z = ZeroizingBytes (change (zb_bytes z))"

definition zeroizing_bytes_as_slice :: "zeroizing_bytes \<Rightarrow> bytes" where
  "zeroizing_bytes_as_slice z = zb_bytes z"

definition zeroizing_bytes_len :: "zeroizing_bytes \<Rightarrow> nat" where
  "zeroizing_bytes_len z = length (zb_bytes z)"

definition zeroizing_bytes_is_empty :: "zeroizing_bytes \<Rightarrow> bool" where
  "zeroizing_bytes_is_empty z \<longleftrightarrow> zb_bytes z = []"

definition zeroizing_bytes_debug :: "zeroizing_bytes \<Rightarrow> rstr" where
  "zeroizing_bytes_debug z = lit ''ZeroizingBytes([REDACTED])''"

lemma expose_from_text [simp]: "expose_secret (secret_string_from_text t) = t"
  by (simp add: expose_secret_def secret_string_from_text_def)

lemma secret_string_is_empty_iff: "secret_string_is_empty s \<longleftrightarrow> secret_string_len s = 0"
  by (simp add: secret_string_is_empty_def secret_string_len_def)

text \<open>A \<open>Debug\<close> text never tells two secrets apart.\<close>

lemma debug_constant:
  "secret_bytes_debug a = secret_bytes_debug b" "secret_string_debug s = secret_string_debug t"
  "zeroizing_bytes_debug x = zeroizing_bytes_debug y"
  by (simp_all add: secret_bytes_debug_def secret_string_debug_def zeroizing_bytes_debug_def)

end
