(* ===== verification/Pam_Ffi.thy ===== *)
theory Pam_Ffi
  imports Effects Secrets
begin

text \<open>
  The libpam shim (\<open>crates/pam-ffi/src/ffi.rs\<close>): fetching the user name and the authentication
  token, running the conversation, the module arguments and the hardening calls. libpam, the
  application's conversation function and libc are the record \<open>pam\<close>, a parameter of the model; a C
  string is its octets without the final NUL, a null pointer is \<open>None\<close>. The memory of the
  responses is the subject of \<open>Reply_Memory\<close>.
\<close>

section \<open>Return codes\<close>

abbreviation PAM_SUCCESS :: int where "PAM_SUCCESS \<equiv> 0"
abbreviation SYSTEM_ERR :: int where "SYSTEM_ERR \<equiv> 4"
abbreviation AUTH_ERR :: int where "AUTH_ERR \<equiv> 7"
abbreviation AUTHINFO_UNAVAIL :: int where "AUTHINFO_UNAVAIL \<equiv> 9"
abbreviation USER_UNKNOWN :: int where "USER_UNKNOWN \<equiv> 10"
abbreviation CONV_ERR :: int where "CONV_ERR \<equiv> 19"
abbreviation PAM_IGNORE :: int where "PAM_IGNORE \<equiv> 25"

abbreviation PAM_PROMPT_ECHO_OFF :: int where "PAM_PROMPT_ECHO_OFF \<equiv> 1"
abbreviation PAM_TEXT_INFO :: int where "PAM_TEXT_INFO \<equiv> 4"
abbreviation PAM_MAX_NUM_MSG :: nat where "PAM_MAX_NUM_MSG \<equiv> 32"
abbreviation PAM_MAX_MSG_SIZE :: nat where "PAM_MAX_MSG_SIZE \<equiv> 512"

section \<open>libpam\<close>

text \<open>
  \<open>pam_conv_item\<close> is the result of \<open>pam_get_item(PAM_CONV)\<close>: the code, and whether the item and its
  function are present. \<open>pam_converse\<close> calls that function on the messages: its code and, where it
  returned a response array, one optional string for each message.
\<close>

record 'w pam =
  pam_handle_null :: bool
  pam_get_user :: "'w \<Rightarrow> (int \<times> bytes option) \<times> 'w"
  pam_get_authtok :: "'w \<Rightarrow> (int \<times> bytes option) \<times> 'w"
  pam_authtok_item :: "'w \<Rightarrow> (int \<times> bytes option) \<times> 'w"
  pam_conv_item :: "'w \<Rightarrow> (int \<times> bool option) \<times> 'w"
  pam_converse :: "(int \<times> bytes) list \<Rightarrow> 'w \<Rightarrow> (int \<times> bytes option list option) \<times> 'w"
  libc_harden :: "'w \<Rightarrow> 'w"
  libc_mlock :: "bytes \<Rightarrow> 'w \<Rightarrow> int \<times> 'w"

section \<open>Inputs\<close>

definition get_user :: "'w pam \<Rightarrow> (int + rstr, 'w) io" where
  "get_user P =
     (if pam_handle_null P then ret (Inl SYSTEM_ERR)
      else seq (lift (pam_get_user P)) (\<lambda>(r, user).
        if r \<noteq> PAM_SUCCESS then ret (Inl r)
        else case user of
               None \<Rightarrow> ret (Inl USER_UNKNOWN)
             | Some bs \<Rightarrow>
                 (case from_utf8 bs of
                    Some name \<Rightarrow> if name \<noteq> [] then ret (Inr name) else ret (Inl USER_UNKNOWN)
                  | None \<Rightarrow> ret (Inl USER_UNKNOWN))))"

definition copy_pam_authtok :: "bytes \<Rightarrow> int + secret_string" where
  "copy_pam_authtok bs =
     (case from_utf8 bs of Some s \<Rightarrow> Inr (secret_string_from_text s) | None \<Rightarrow> Inl AUTH_ERR)"

definition get_authtok_prompting :: "'w pam \<Rightarrow> (int + secret_string option, 'w) io" where
  "get_authtok_prompting P =
     (if pam_handle_null P then ret (Inl SYSTEM_ERR)
      else seq (lift (pam_get_authtok P)) (\<lambda>(r, tok).
        if r \<noteq> PAM_SUCCESS then ret (Inl r)
        else case tok of
               None \<Rightarrow> ret (Inr None)
             | Some bs \<Rightarrow> ret (and_then (copy_pam_authtok bs) (\<lambda>s. Inr (Some s)))))"

definition get_authtok_item :: "'w pam \<Rightarrow> (int + secret_string option, 'w) io" where
  "get_authtok_item P =
     (if pam_handle_null P then ret (Inl SYSTEM_ERR)
      else seq (lift (pam_authtok_item P)) (\<lambda>(r, tok).
        if r \<noteq> PAM_SUCCESS then ret (Inl r)
        else case tok of
               None \<Rightarrow> ret (Inr None)
             | Some bs \<Rightarrow> ret (and_then (copy_pam_authtok bs) (\<lambda>s. Inr (Some s)))))"

text \<open>\<open>argv\<close> as a list of optional C strings; undecodable entries are skipped.\<close>

fun module_args :: "bytes option list \<Rightarrow> rstr list" where
  "module_args [] = []"
| "module_args (None # argv) = module_args argv"
| "module_args (Some bs # argv) =
     (case from_utf8 bs of Some s \<Rightarrow> s # module_args argv | None \<Rightarrow> module_args argv)"

definition harden_process :: "'w pam \<Rightarrow> (unit, 'w) io" where
  "harden_process P = act (libc_harden P)"

definition mlock_best_effort :: "'w pam \<Rightarrow> bytes \<Rightarrow> (bool, 'w) io" where
  "mlock_best_effort P buf =
     (if buf = [] then ret True else seq (lift (libc_mlock P buf)) (\<lambda>r. ret (r = 0)))"

section \<open>The conversation\<close>

text \<open>The texts as C strings; \<open>None\<close> where one is too long or holds a NUL.\<close>

fun message_texts :: "(int \<times> rstr) list \<Rightarrow> (int \<times> bytes) list option" where
  "message_texts [] = Some []"
| "message_texts ((style, text) # ms) =
     (if length (as_bytes text) \<ge> PAM_MAX_MSG_SIZE then None
      else if 0 \<in> set text then None
      else map_option (Cons (style, as_bytes text)) (message_texts ms))"

text \<open>Decoding the responses: every string is consumed, one that is not UTF-8 fails the whole call.\<close>

fun read_replies :: "bytes option list \<Rightarrow> secret_string option list \<times> bool" where
  "read_replies [] = ([], False)"
| "read_replies (None # rs) = (let (out, failed) = read_replies rs in (None # out, failed))"
| "read_replies (Some bs # rs) =
     (let (out, failed) = read_replies rs
      in case from_utf8 bs of
           Some s \<Rightarrow> (Some (secret_string_from_text s) # out, failed)
         | None \<Rightarrow> (out, True))"

text \<open>What the shim makes of the function's return code and responses.\<close>

definition replies_of :: "int \<Rightarrow> bytes option list option \<Rightarrow> nat \<Rightarrow> int + secret_string option list" where
  "replies_of r resp n =
     (if r \<noteq> PAM_SUCCESS then Inl CONV_ERR
      else case resp of
             None \<Rightarrow> Inl CONV_ERR
           | Some rs \<Rightarrow>
               (let (out, decode_failed) = read_replies (take n rs)
                in if decode_failed then Inl CONV_ERR else Inr out))"

definition converse :: "'w pam \<Rightarrow> (int \<times> rstr) list \<Rightarrow> (int + secret_string option list, 'w) io" where
  "converse P messages =
     (if pam_handle_null P then ret (Inl SYSTEM_ERR)
      else if messages = [] \<or> length messages > PAM_MAX_NUM_MSG then ret (Inl CONV_ERR)
      else seq (lift (pam_conv_item P)) (\<lambda>(r, item).
        if r \<noteq> PAM_SUCCESS \<or> item = None then ret (Inl CONV_ERR)
        else if item = Some False then ret (Inl CONV_ERR)
        else
          (case message_texts messages of
             None \<Rightarrow> ret (Inl CONV_ERR)
           | Some msgs \<Rightarrow>
               seq (lift (pam_converse P msgs)) (\<lambda>(r, resp). ret (replies_of r resp (length messages))))))"

lemma get_user_not_empty: "gives (get_user P) (\<lambda>r. case r of Inl c \<Rightarrow> c \<noteq> 0 | Inr u \<Rightarrow> u \<noteq> [] \<and> valid_str u)"
  by (auto simp: get_user_def dest: from_utf8_Some intro!: gives_seq_any split: prod.split option.split)

lemma get_authtok_errors:
  "gives (get_authtok_item P) (\<lambda>r. \<forall>c. r = Inl c \<longrightarrow> c \<noteq> 0)"
  "gives (get_authtok_prompting P) (\<lambda>r. \<forall>c. r = Inl c \<longrightarrow> c \<noteq> 0)"
  by (auto simp: get_authtok_item_def get_authtok_prompting_def copy_pam_authtok_def
      intro!: gives_seq_any split: prod.split option.split)

end
