(* ===== verification/Pap.thy ===== *)
theory Pap
  imports Radius_Binding Mschap_Crypto
begin

text \<open>
  PAP (\<open>crates/pap/src/lib.rs\<close>): User-Password hiding, sanitized Reply-Message text, the reading of
  an Access-Challenge and the follow-up request. Hiding is proved equal to the recursive definition
  of RFC 2865 and is inverted by the server's computation.
\<close>

section \<open>Hiding a password\<close>

abbreviation MAX_PASSWORD_LEN :: nat where "MAX_PASSWORD_LEN \<equiv> 128"

datatype pap_error =
    PasswordTooLong | NotAChallenge | MissingState | MultipleState | Encode encode_error

definition padded_len :: "nat \<Rightarrow> nat" where
  "padded_len n = max ((n + 15) div 16) 1 * 16"

text \<open>One round of the block loop, on the output buffer.\<close>

definition hide_block :: "crypto \<Rightarrow> bytes \<Rightarrow> bytes \<Rightarrow> bytes \<Rightarrow> nat \<Rightarrow> bytes \<Rightarrow> bytes" where
  "hide_block K secret request_authenticator plain block out =
     (let keystream = md5 K (secret @ (if block = 0 then request_authenticator
                                       else slice ((block - 1) * 16) (block * 16) out));
          base = block * 16
      in splice base (map2 (XOR) (slice base (base + 16) plain) keystream) out)"

definition hide_core :: "crypto \<Rightarrow> bytes \<Rightarrow> bytes \<Rightarrow> bytes \<Rightarrow> bytes" where
  "hide_core K password secret request_authenticator =
     (let total = padded_len (length password);
          plain = splice 0 password (zeros total)
      in fold (hide_block K secret request_authenticator plain) [0..<total div 16] (zeros total))"

definition hide_password :: "crypto \<Rightarrow> bytes \<Rightarrow> bytes \<Rightarrow> bytes \<Rightarrow> bytes" where
  "hide_password K password secret request_authenticator =
     (let clamped = take (min (length password) MAX_PASSWORD_LEN) password
      in hide_core K clamped secret request_authenticator)"

definition try_hide_password :: "crypto \<Rightarrow> bytes \<Rightarrow> bytes \<Rightarrow> bytes \<Rightarrow> pap_error + bytes" where
  "try_hide_password K password secret request_authenticator =
     (if length password > MAX_PASSWORD_LEN then Inl PasswordTooLong
      else Inr (hide_core K password secret request_authenticator))"

section \<open>Challenges\<close>

definition sanitize_reply_message :: "bytes \<Rightarrow> rstr" where
  "sanitize_reply_message raw = map unat (filter (\<lambda>b. 0x20 \<le> b \<and> b \<le> 0x7e) raw)"

record challenge =
  ch_prompt :: rstr
  ch_state :: "bytes option"

definition challenge_from_response :: "parsed_response \<Rightarrow> pap_error + challenge" where
  "challenge_from_response resp =
     (if known_code resp \<noteq> Some AccessChallenge then Inl NotAChallenge
      else
        let raw = concat (attr_values resp REPLY_MESSAGE);
            prompt = sanitize_reply_message raw
        in (case attr_values resp STATE of
              [] \<Rightarrow> Inr \<lparr>ch_prompt = prompt, ch_state = None\<rparr>
            | [s] \<Rightarrow> Inr \<lparr>ch_prompt = prompt, ch_state = Some s\<rparr>
            | _ \<Rightarrow> Inl MultipleState))"

definition has_state :: "challenge \<Rightarrow> bool" where
  "has_state c \<longleftrightarrow> ch_state c \<noteq> None"

definition build_challenge_response ::
  "crypto \<Rightarrow> u8 \<Rightarrow> bytes \<Rightarrow> bytes \<Rightarrow> bytes \<Rightarrow> bytes \<Rightarrow> bytes \<Rightarrow> pap_error + bytes" where
  "build_challenge_response K i request_authenticator username one_time_code state secret =
     and_then (try_hide_password K one_time_code secret request_authenticator) (\<lambda>hidden.
     map_err Encode
      (and_then (attribute (packet_builder_new AccessRequest i request_authenticator) USER_NAME username) (\<lambda>pb.
       and_then (attribute pb USER_PASSWORD hidden) (\<lambda>pb.
       and_then (attribute pb STATE state) (\<lambda>pb.
       and_then (message_authenticator_placeholder pb) (\<lambda>pb.
       and_then (build pb) (\<lambda>packet.
         fill_message_authenticator K packet secret)))))))"

definition build_response ::
  "crypto \<Rightarrow> challenge \<Rightarrow> u8 \<Rightarrow> bytes \<Rightarrow> bytes \<Rightarrow> bytes \<Rightarrow> bytes \<Rightarrow> pap_error + bytes" where
  "build_response K c i request_authenticator username one_time_code secret =
     and_then (ok_or MissingState (ch_state c)) (\<lambda>state.
       build_challenge_response K i request_authenticator username one_time_code state secret)"

section \<open>RFC 2865, section 5.2\<close>

fun rfc_hide :: "crypto \<Rightarrow> bytes \<Rightarrow> bytes \<Rightarrow> bytes list \<Rightarrow> bytes list" where
  "rfc_hide K secret prev [] = []"
| "rfc_hide K secret prev (p # ps) =
     (let c = map2 (XOR) p (md5 K (secret @ prev)) in c # rfc_hide K secret c ps)"

fun rfc_unhide :: "crypto \<Rightarrow> bytes \<Rightarrow> bytes \<Rightarrow> bytes list \<Rightarrow> bytes list" where
  "rfc_unhide K secret prev [] = []"
| "rfc_unhide K secret prev (c # cs) = map2 (XOR) c (md5 K (secret @ prev)) # rfc_unhide K secret c cs"

definition pad_password :: "bytes \<Rightarrow> bytes" where
  "pad_password password = password @ zeros (padded_len (length password) - length password)"

definition unhide :: "crypto \<Rightarrow> bytes \<Rightarrow> bytes \<Rightarrow> bytes \<Rightarrow> bytes" where
  "unhide K hidden secret ra = concat (rfc_unhide K secret ra (chunks_exact 16 hidden))"

lemma length_rfc_hide [simp]: "length (rfc_hide K secret prev ps) = length ps"
  by (induction ps arbitrary: prev) (simp_all add: Let_def)

lemma rfc_hide_blocks:
  "crypto_ok K \<Longrightarrow> list_all (\<lambda>p. length p = 16) ps \<Longrightarrow> list_all (\<lambda>c. length c = 16) (rfc_hide K secret prev ps)"
  by (induction ps arbitrary: prev) (simp_all add: Let_def crypto_ok_lengths)

lemma rfc_hide_snoc:
  "rfc_hide K secret prev (ps @ [p]) =
     rfc_hide K secret prev ps @
       [map2 (XOR) p (md5 K (secret @ (if ps = [] then prev else last (rfc_hide K secret prev ps))))]"
proof (induction ps arbitrary: prev)
  case (Cons q ps)
  have "rfc_hide K secret c ps = [] \<longleftrightarrow> ps = []" for c by (cases ps) (simp_all add: Let_def)
  with Cons show ?case by (simp add: Let_def)
qed (simp add: Let_def)

lemma map2_xor_cancel: "length xs = length ks \<Longrightarrow> map2 (XOR) (map2 (XOR) xs ks) ks = (xs :: bytes)"
  by (induction xs ks rule: list_induct2) (simp_all add: xor.assoc)

lemma rfc_unhide_hide:
  "crypto_ok K \<Longrightarrow> list_all (\<lambda>p. length p = 16) ps \<Longrightarrow> rfc_unhide K secret prev (rfc_hide K secret prev ps) = ps"
  by (induction ps arbitrary: prev) (simp_all add: Let_def map2_xor_cancel crypto_ok_lengths)

lemma padded_len_bounds: "n \<le> padded_len n" "16 \<le> padded_len n" "padded_len n mod 16 = 0"
  "n \<le> 128 \<Longrightarrow> padded_len n \<le> 128"
  unfolding padded_len_def by (auto simp: max_def)

lemma concat_chunks_exact:
  "n \<noteq> 0 \<Longrightarrow> length xs mod n = 0 \<Longrightarrow> concat (chunks_exact n xs) = xs"
proof (induction n xs rule: chunks_exact.induct)
  case (1 n xs)
  show ?case
  proof (cases "length xs < n")
    case True
    then show ?thesis using 1 by (simp add: chunks_exact_short)
  next
    case False
    then have "(length xs - n) mod n = 0" using "1.prems" by (simp add: le_mod_geq)
    then show ?thesis using 1 False by (subst chunks_exact.simps) simp
  qed
qed

lemma chunks_exact_lengths: "list_all (\<lambda>c. length c = n) (chunks_exact n xs)"
  by (induction n xs rule: chunks_exact.induct) (subst chunks_exact.simps, simp)

lemma chunks_exact_concat:
  "n \<noteq> 0 \<Longrightarrow> list_all (\<lambda>c. length c = n) cs \<Longrightarrow> chunks_exact n (concat cs) = cs"
  by (induction cs) (simp_all add: chunks_exact_short chunks_exact_append)

lemma length_concat_blocks: "list_all (\<lambda>c. length c = n) cs \<Longrightarrow> length (concat cs) = n * length cs"
  by (induction cs) simp_all

lemma concat_blocks_slice:
  assumes "list_all (\<lambda>c. length c = n) cs" and "k < length cs"
  shows "slice (k * n) (k * n + n) (concat cs @ ys) = cs ! k"
proof -
  have t: "list_all (\<lambda>c. length c = n) (take k cs)" using assms(1) by (auto simp: list_all_iff dest: in_set_takeD)
  have cs: "cs = take k cs @ cs ! k # drop (Suc k) cs" by (rule id_take_nth_drop [OF assms(2)])
  have "concat cs = concat (take k cs) @ cs ! k @ concat (drop (Suc k) cs)" by (subst cs) simp
  moreover have "length (concat (take k cs)) = k * n" using length_concat_blocks [OF t] assms(2) by (simp add: mult.commute)
  moreover have "length (cs ! k) = n" using assms by (simp add: list_all_length)
  ultimately show ?thesis by (simp add: slice_def)
qed

lemma splice_block:
  "length pre = off \<Longrightarrow> length old = length new \<Longrightarrow> splice off new (pre @ old @ post) = pre @ new @ post"
  by (auto simp: splice_def)

text \<open>The block loop computes the recursion.\<close>

lemma hide_loop:
  assumes K: "crypto_ok K" and ps: "list_all (\<lambda>p. length p = 16) ps"
  shows "k \<le> length ps \<Longrightarrow>
    fold (hide_block K secret ra (concat ps)) [0..<k] (zeros (16 * length ps)) =
      concat (rfc_hide K secret ra (take k ps)) @ zeros (16 * (length ps - k))"
proof (induction k)
  case 0
  then show ?case by simp
next
  case (Suc k)
  let ?cs = "rfc_hide K secret ra (take k ps)"
  have tk: "list_all (\<lambda>p. length p = 16) (take k ps)" using ps by (auto simp: list_all_iff dest: in_set_takeD)
  have cs: "list_all (\<lambda>c. length c = 16) ?cs" "length ?cs = k" "length (concat ?cs) = 16 * k"
    using rfc_hide_blocks [OF K tk] length_concat_blocks [OF rfc_hide_blocks [OF K tk]] Suc.prems by simp_all
  have p: "slice (k * 16) (k * 16 + 16) (concat ps) = ps ! k"
    using concat_blocks_slice [OF ps, of k "[]"] Suc.prems by simp
  have prev: "(if k = 0 then ra else slice ((k - 1) * 16) (k * 16) (concat ?cs @ zs)) =
      (if take k ps = [] then ra else last ?cs)" for zs
  proof (cases k)
    case (Suc j)
    have ne: "?cs \<noteq> []" using cs(2) Suc by (metis list.size(3) nat.distinct(1))
    show ?thesis
      using Suc concat_blocks_slice [OF cs(1), of j zs] cs(2) Suc.prems last_conv_nth [OF ne]
      by (auto simp: algebra_simps)
  qed simp
  let ?c = "map2 (XOR) (ps ! k) (md5 K (secret @ (if take k ps = [] then ra else last ?cs)))"
  have lc: "length ?c = 16" using ps Suc.prems K by (simp add: list_all_length crypto_ok_lengths)
  have "zeros (16 * (length ps - k)) = zeros 16 @ zeros (16 * (length ps - Suc k))"
  proof -
    have "16 * (length ps - k) = 16 + 16 * (length ps - Suc k)" using Suc.prems by simp
    then show ?thesis unfolding zeros_def by (simp only: replicate_add)
  qed
  moreover have "splice (k * 16) ?c (concat ?cs @ zeros 16 @ zs) = concat ?cs @ ?c @ zs" for zs
    by (rule splice_block) (use cs(3) lc in \<open>simp_all only: length_zeros mult.commute\<close>)
  ultimately have "hide_block K secret ra (concat ps) k (concat ?cs @ zeros (16 * (length ps - k))) =
      concat ?cs @ ?c @ zeros (16 * (length ps - Suc k))"
    unfolding hide_block_def Let_def prev p by simp
  moreover have "rfc_hide K secret ra (take (Suc k) ps) = ?cs @ [?c]"
    using Suc.prems by (simp add: take_Suc_conv_app_nth rfc_hide_snoc)
  ultimately show ?case using Suc by simp
qed

lemma hide_core_rfc:
  assumes K: "crypto_ok K"
  shows "hide_core K password secret ra = concat (rfc_hide K secret ra (chunks_exact 16 (pad_password password)))"
proof -
  let ?n = "padded_len (length password)"
  let ?ps = "chunks_exact 16 (pad_password password)"
  have l: "length (pad_password password) = ?n" using padded_len_bounds(1) [of "length password"] by (simp add: pad_password_def)
  have plain: "splice 0 password (zeros ?n) = pad_password password"
    by (simp add: splice_def pad_password_def zeros_def)
  have c: "concat ?ps = pad_password password" using padded_len_bounds(3) by (intro concat_chunks_exact) (simp_all add: l)
  have lp: "length ?ps = ?n div 16" by (simp add: length_chunks_exact l)
  have n: "16 * (?n div 16) = ?n" using padded_len_bounds(3) [of "length password"] by auto
  have "fold (hide_block K secret ra (concat ?ps)) [0..<length ?ps] (zeros (16 * length ?ps)) = concat (rfc_hide K secret ra ?ps)"
    using hide_loop [OF K chunks_exact_lengths [of 16 "pad_password password"], of "length ?ps" secret ra]
    by (simp add: zeros_def)
  then show ?thesis unfolding hide_core_def Let_def plain c lp n .
qed

lemma length_hide_core:
  assumes "crypto_ok K" shows "length (hide_core K password secret ra) = padded_len (length password)"
proof -
  let ?ps = "chunks_exact 16 (pad_password password)"
  have "length (pad_password password) = padded_len (length password)"
    using padded_len_bounds(1) [of "length password"] by (simp add: pad_password_def)
  then show ?thesis
    using length_concat_blocks [OF rfc_hide_blocks [OF assms chunks_exact_lengths], of secret ra "pad_password password"]
      padded_len_bounds(3) [of "length password"]
    by (simp add: hide_core_rfc [OF assms] length_chunks_exact) auto
qed

lemma unhide_hide_core:
  assumes K: "crypto_ok K"
  shows "unhide K (hide_core K password secret ra) secret ra = pad_password password"
proof -
  have l: "length (pad_password password) mod 16 = 0"
    using padded_len_bounds [of "length password"] by (simp add: pad_password_def)
  then show ?thesis
    using concat_chunks_exact [OF _ l]
    by (simp add: unhide_def hide_core_rfc [OF K] chunks_exact_concat rfc_hide_blocks K chunks_exact_lengths rfc_unhide_hide)
qed

end
