(* ===== verification/Conversation.thy ===== *)
theory Conversation
  imports Pam_Ffi Pap
begin

text \<open>
  The conversation layer (\<open>crates/pam-ffi/src/conversation.rs\<close>): the interface the flow uses, the
  real conversation over the libpam shim, the prompt for network-supplied text and the clamping of
  texts to a \<open>pam_message\<close>.
\<close>

section \<open>The interface\<close>

datatype conv_error = ConvFailed

record 'w conversation =
  cv_info :: "rstr \<Rightarrow> (conv_error + unit, 'w) io"
  cv_prompt_echo_off :: "rstr \<Rightarrow> (conv_error + secret_string, 'w) io"

definition DEFAULT_OTP_PROMPT :: rstr where
  "DEFAULT_OTP_PROMPT = lit ''Verification code: ''"

text \<open>The text shown for a challenge: what is printable of it, or the default prompt.\<close>

definition otp_prompt :: "rstr \<Rightarrow> rstr" where
  "otp_prompt network_text =
     (let sanitized = sanitize_reply_message (as_bytes network_text)
      in if sanitized = [] then DEFAULT_OTP_PROMPT else sanitized)"

definition prompt_response :: "'w conversation \<Rightarrow> rstr \<Rightarrow> (conv_error + secret_string, 'w) io" where
  "prompt_response C network_text = cv_prompt_echo_off C (otp_prompt network_text)"

section \<open>Clamping\<close>

text \<open>
  \<open>str::is_char_boundary\<close>, and the string before such a boundary.
\<close>

fun is_char_boundary :: "rstr \<Rightarrow> nat \<Rightarrow> bool" where
  "is_char_boundary s 0 = True"
| "is_char_boundary [] k = False"
| "is_char_boundary (c # s) k = (length (utf8_char c) \<le> k \<and> is_char_boundary s (k - length (utf8_char c)))"

fun str_take :: "rstr \<Rightarrow> nat \<Rightarrow> rstr" where
  "str_take s 0 = []"
| "str_take [] k = []"
| "str_take (c # s) k = (if length (utf8_char c) \<le> k then c # str_take s (k - length (utf8_char c)) else [])"

fun clamp_end :: "rstr \<Rightarrow> nat \<Rightarrow> nat" where
  "clamp_end s 0 = 0"
| "clamp_end s (Suc k) = (if \<not> is_char_boundary s (Suc k) then clamp_end s k else Suc k)"

definition clamp :: "rstr \<Rightarrow> rstr" where
  "clamp text = (if length (as_bytes text) \<le> 511 then text else str_take text (clamp_end text 511))"

section \<open>The real conversation\<close>

definition pam_conversation :: "'w pam \<Rightarrow> bool \<Rightarrow> 'w conversation" where
  "pam_conversation P silent =
     \<lparr>cv_info = (\<lambda>text.
        if silent then ret (Inr ())
        else seq (converse P [(PAM_TEXT_INFO, clamp text)]) (\<lambda>r.
               ret (case r of Inl _ \<Rightarrow> Inl ConvFailed | Inr _ \<Rightarrow> Inr ()))),
      cv_prompt_echo_off = (\<lambda>prompt.
        seq (converse P [(PAM_PROMPT_ECHO_OFF, clamp prompt)]) (\<lambda>r.
          ret (case r of
                 Inl _ \<Rightarrow> Inl ConvFailed
               | Inr replies \<Rightarrow>
                   (if replies = [] then Inl ConvFailed
                    else case last replies of None \<Rightarrow> Inl ConvFailed | Some s \<Rightarrow> Inr s))))\<rparr>"

section \<open>Lemmas\<close>

lemma utf8_char_length: "1 \<le> length (utf8_char c) \<and> length (utf8_char c) \<le> 4"
  by (simp add: utf8_char_def)

lemma str_take_prefix: "\<exists>t. s = str_take s k @ t"
proof (induction s k rule: str_take.induct)
  case (3 c s k)
  then show ?case by (cases "length (utf8_char c) \<le> Suc k") auto
qed auto

lemma length_str_take: "length (as_bytes (str_take s k)) \<le> k"
  by (induction s k rule: str_take.induct) (auto simp: as_bytes_Cons)

lemma boundary_str_take: "is_char_boundary s k \<Longrightarrow> length (as_bytes (str_take s k)) = k"
  by (induction s k rule: is_char_boundary.induct) (auto simp: as_bytes_Cons)

lemma boundary_prefix: "is_char_boundary (t @ u) (length (as_bytes t))"
proof (induction t)
  case (Cons c t)
  obtain n where "length (utf8_char c) = Suc n" using utf8_char_length [of c] by (cases "length (utf8_char c)") auto
  with Cons show ?case by (simp add: as_bytes_Cons)
qed simp

lemma clamp_end_boundary: "is_char_boundary s (clamp_end s k) \<and> clamp_end s k \<le> k"
  by (induction k) auto

lemma clamp_end_max: "is_char_boundary s j \<Longrightarrow> j \<le> k \<Longrightarrow> j \<le> clamp_end s k"
  by (induction k) (auto simp: le_Suc_eq)

lemma clamp_prefix: "\<exists>t. text = clamp text @ t"
  using str_take_prefix [of "text" "clamp_end text 511"] by (auto simp: clamp_def)

lemma clamp_fits: "length (as_bytes (clamp text)) \<le> 511"
  using length_str_take [of "text" "clamp_end text 511"] clamp_end_boundary [of "text" 511]
  by (auto simp: clamp_def)

lemma clamp_longest:
  assumes "text = t @ u" and "length (as_bytes t) \<le> 511"
  shows "length (as_bytes t) \<le> length (as_bytes (clamp text))"
proof (cases "length (as_bytes text) \<le> 511")
  case True
  then show ?thesis using assms by (simp add: clamp_def as_bytes_append)
next
  case False
  have "length (as_bytes t) \<le> clamp_end text 511"
    using clamp_end_max [OF boundary_prefix [of t u]] assms by simp
  then show ?thesis
    using False boundary_str_take [of "text" "clamp_end text 511"] clamp_end_boundary [of "text" 511]
    by (simp add: clamp_def)
qed

text \<open>What is shown for a challenge is printable ASCII.\<close>

definition printable :: "rstr \<Rightarrow> bool" where
  "printable s \<longleftrightarrow> list_all (\<lambda>c. 0x20 \<le> c \<and> c \<le> 0x7e) s"

lemma sanitize_reply_message_printable: "printable (sanitize_reply_message raw)"
  by (auto simp: printable_def sanitize_reply_message_def list_all_iff word_le_nat_alt)

lemma otp_prompt_printable: "printable (otp_prompt text) \<and> otp_prompt text \<noteq> []"
proof -
  have "printable DEFAULT_OTP_PROMPT \<and> DEFAULT_OTP_PROMPT \<noteq> []"
    by (simp add: printable_def DEFAULT_OTP_PROMPT_def lit_def)
  then show ?thesis using sanitize_reply_message_printable by (simp add: otp_prompt_def Let_def)
qed

lemma sanitize_printable:
  "printable s \<Longrightarrow> sanitize_reply_message (as_bytes s) = s"
proof (induction s)
  case (Cons c s)
  then have "utf8_char c = [as_u8 c]" "unat (as_u8 c) = c" "0x20 \<le> as_u8 c" "as_u8 c \<le> 0x7e"
    by (auto simp: printable_def utf8_char_def word_le_nat_alt)
  with Cons show ?case by (simp add: as_bytes_Cons sanitize_reply_message_def printable_def)
qed (simp add: sanitize_reply_message_def)

end
