(* ===== verification/Protocol_Properties.thy ===== *)
theory Protocol_Properties
  imports Mschap_Flow Conversation
begin

text \<open>
  The properties of the two authentication protocols and of the conversation layer, each with a
  concrete instance where it has hypotheses.
\<close>

section \<open>MSCHAPv2\<close>

text \<open>C23: Mutual authentication: an Access-Accept is verified exactly when the first MS-CHAP2-Success of
  the response has the form of RFC 2759 and its 40 hexadecimal digits, in either case, are the digest
  that only a holder of the password can compute for the two challenges.\<close>

theorem access_accept_verified_iff:
  assumes "crypto_ok K"
  shows "verify_access_accept r (generate_authenticator_response K pw nt peer auth user) \<longleftrightarrow>
    (\<exists>d hex. find_ms_chap2_success r = Some d \<and> success_data hex d \<and>
       hex_pairs (chunks_exact 2 hex) = Some (authenticator_digest K pw nt peer auth user))"
  using assms by (rule verify_access_accept_iff)

theorem access_accept_verified_iff_witness:
  "\<not> verify_access_accept \<lparr>pr_code = 2, pr_id = 7, pr_authenticator = zeros 16, pr_attrs = []\<rparr>
     (generate_authenticator_response demo_crypto [112] (zeros 24) (zeros 16) (zeros 16) [117])"
  unfolding access_accept_verified_iff [OF demo_crypto_ok]
  by (simp add: find_ms_chap2_success_def find_vendor_data_def attr_values_def)

text \<open>
  RFC 2759, DesEncrypt: a DES key of eight octets for a group of seven carries the 56 bits of the
  group, most significant first, in the high seven bits of its octets; the low bits are parity.
\<close>

definition des_key_for :: "bytes \<Rightarrow> bytes \<Rightarrow> bool" where
  "des_key_for g k \<longleftrightarrow> length k = 8 \<and> concat (map (take 7 \<circ> msb_first) k) = concat (map msb_first g)"

lemma expand_des_key_for: "length g = 7 \<Longrightarrow> des_key_for g (expand_des_key g)"
  using expand_des_key_bits [of g] by (simp add: des_key_for_def expand_des_key_def)

text \<open>C28: The NT-Response of RFC 2759: DES of the challenge hash under three keys, which carry the bits
  of the MD4 of the UTF-16LE password padded with five zero octets, in three groups of 56.\<close>

theorem nt_response_rfc:
  fixes K :: crypto and pw :: rstr
  defines "h \<equiv> md4 K (concat (map u16_to_le (encode_utf16 pw)))"
  assumes "crypto_ok K"
  shows "\<exists>k1 k2 k3. des_key_for (take 7 h) k1 \<and> des_key_for (slice 7 14 h) k2 \<and> des_key_for (drop 14 h @ zeros 5) k3 \<and>
    generate_nt_response K auth peer user pw =
      concat (map (\<lambda>k. des_encrypt K k (take 8 (sha1 K (peer @ auth @ user)))) [k1, k2, k3])"
proof -
  have "length h = 16" using assms(2) by (simp add: h_def crypto_ok_lengths)
  then show ?thesis
    using challenge_response_groups [of h K "take 8 (sha1 K (peer @ auth @ user))"]
    by (intro exI [of _ "expand_des_key (take 7 h)"] exI [of _ "expand_des_key (slice 7 14 h)"]
        exI [of _ "expand_des_key (drop 14 h @ zeros 5)"])
      (simp add: expand_des_key_for generate_nt_response_def nt_password_hash_def md4_16_def challenge_hash_def h_def Let_def)
qed

theorem nt_response_rfc_witness:
  "\<exists>k1 k2 k3. des_key_for (take 7 (md4 demo_crypto [112, 0])) k1 \<and> des_key_for (slice 7 14 (md4 demo_crypto [112, 0])) k2 \<and>
    des_key_for (drop 14 (md4 demo_crypto [112, 0]) @ zeros 5) k3 \<and>
    generate_nt_response demo_crypto (zeros 16) (zeros 16) [117] [112] =
      concat (map (\<lambda>k. des_encrypt demo_crypto k (take 8 (sha1 demo_crypto (zeros 16 @ zeros 16 @ [117])))) [k1, k2, k3])"
proof -
  have "concat (map u16_to_le (encode_utf16 [112])) = [112, 0]"
    by (simp add: encode_utf16_def utf16_char_def u16_to_le_def as_u8_def)
  then show ?thesis using nt_response_rfc [OF demo_crypto_ok, of "[112]" "zeros 16" "zeros 16" "[117]"] by (simp only:)
qed

text \<open>A DES key made from a group of seven octets carries the 56 bits of the group, in order, in
  the high seven bits of its eight octets.\<close>

theorem des_key_bits:
  assumes "length k = 7"
  shows "concat (map (take 7 \<circ> msb_first) (expand_des_key k)) = concat (map msb_first k)"
  using assms by (rule expand_des_key_bits)

theorem des_key_bits_witness:
  "concat (map (take 7 \<circ> msb_first) (expand_des_key [1, 2, 3, 4, 5, 6, 255])) = concat (map msb_first [1, 2, 3, 4, 5, 6, 255])"
  by (rule des_key_bits) simp

text \<open>The authenticator response \<open>S=<40 hex digits>\<close> that the client computes decodes to the digest
  it encodes, and a comparison with another value holds exactly when that decodes to the same digest.\<close>

theorem authenticator_response_roundtrip:
  assumes "crypto_ok K"
  shows "verify_authenticator_response (generate_authenticator_response K pw nt peer auth user) s \<longleftrightarrow>
    decode_s_value s = Some (authenticator_digest K pw nt peer auth user)"
  by (simp add: verify_authenticator_response_iff authenticator_response_decoded [OF assms])

theorem authenticator_response_roundtrip_witness:
  "verify_authenticator_response (generate_authenticator_response demo_crypto [112] (zeros 24) (zeros 16) (zeros 16) [117])
     (generate_authenticator_response demo_crypto [112] (zeros 24) (zeros 16) (zeros 16) [117])"
  unfolding authenticator_response_roundtrip [OF demo_crypto_ok] by (rule authenticator_response_decoded [OF demo_crypto_ok])

text \<open>An MS-CHAP2-Success parses exactly when it is an identifier octet, \<open>S=\<close>, 40 hexadecimal
  digits and then nothing or any text after a space, and the result is the digits in upper case.\<close>

theorem success_parse_spec:
  "parse_ms_chap2_success d = Inr s \<longleftrightarrow>
     (\<exists>ident hex rest. d = ident # blit ''S='' @ hex @ rest \<and> length hex = 40 \<and> list_all is_ascii_hexdigit hex \<and>
        (rest = [] \<or> hd rest = 0x20) \<and> s = lit ''S='' @ map (\<lambda>c. unat (to_ascii_uppercase c)) hex)"
  unfolding parse_ms_chap2_success_Inr success_data_def by blast

text \<open>The decimal digits after \<open>E=\<close> and their value.\<close>

definition dec_octet :: "u8 \<Rightarrow> bool" where
  "dec_octet c \<longleftrightarrow> 48 \<le> c \<and> c \<le> 57"

definition dec_value :: "nat \<Rightarrow> bytes \<Rightarrow> nat" where
  "dec_value v ds = foldl (\<lambda>v c. v * 10 + unat (c - 48)) v ds"

lemma e_digits_value:
  "val < 10 ^ n \<Longrightarrow> n + length (takeWhile dec_octet cs) \<le> 9 \<Longrightarrow>
     e_digits n val any cs = Some (dec_value val (takeWhile dec_octet cs), any \<or> takeWhile dec_octet cs \<noteq> [])"
proof (induction n val any cs rule: e_digits.induct)
  case (2 n val any c cs)
  show ?case
  proof (cases "dec_octet c")
    case True
    then have c: "48 \<le> c" "c \<le> 57" and d: "unat (c - 48) \<le> 9" using digit_value by (auto simp: dec_octet_def)
    have n: "n < 9" using 2(3) True by simp
    have "val * 10 + unat (c - 48) < 10 ^ (n + 1)" using 2(2) d by simp
    moreover have "(10::nat) ^ (n + 1) \<le> 10 ^ 9" using n by (intro power_increasing) auto
    ultimately have v: "val * 10 + unat (c - 48) < 10 ^ (n + 1)" "val * 10 + unat (c - 48) < 4294967296" by simp_all
    then show ?thesis using 2(1) [OF _ _ _ _ v(1)] 2(3) True c n by (auto simp: dec_value_def)
  qed (auto simp: dec_octet_def dec_value_def)
qed (simp add: dec_value_def)

lemma e_digits_too_long:
  "9 < length (takeWhile dec_octet cs) \<Longrightarrow> e_digits 0 0 False cs = None"
  using e_digits_no_overflow [of 0 0 False cs] by (simp add: dec_octet_def [abs_def])

text \<open>The error code of an MS-CHAP-Error is the decimal number after the first \<open>E=\<close>, read without
  overflow: at most nine digits are accepted, and no digit or a tenth digit makes the attribute
  malformed.\<close>

theorem error_code_spec:
  "find_e_code s =
     (case position_e s of
        None \<Rightarrow> None
      | Some pos \<Rightarrow>
          (let ds = takeWhile dec_octet (drop (pos + 2) s)
           in if ds = [] \<or> 9 < length ds then None else Some (of_nat (dec_value 0 ds))))"
proof (cases "position_e s")
  case (Some pos)
  show ?thesis
  proof (cases "9 < length (takeWhile dec_octet (drop (pos + 2) s))")
    case True
    then show ?thesis using e_digits_too_long [OF True] by (simp add: find_e_code_def Some)
  next
    case False
    then show ?thesis using e_digits_value [of 0 0 "drop (pos + 2) s" False] by (simp add: find_e_code_def Some Let_def)
  qed
qed (simp add: find_e_code_def)

section \<open>PAP\<close>

text \<open>C26: The password is hidden as RFC 2865 section 5.2 defines it, block by block over the padded
  password, and a password longer than 128 octets is refused, never truncated.\<close>

theorem hide_password_rfc:
  assumes "crypto_ok K"
  shows "try_hide_password K pw secret ra =
    (if 128 < length pw then Inl PasswordTooLong
     else Inr (concat (rfc_hide K secret ra (chunks_exact 16 (pad_password pw)))))"
  using hide_core_rfc [OF assms] by (simp add: try_hide_password_def)

theorem hide_password_rfc_witness:
  "try_hide_password demo_crypto [112] [1, 2] (zeros 16) =
    (if 128 < length [112 :: u8] then Inl PasswordTooLong
     else Inr (concat (rfc_hide demo_crypto [1, 2] (zeros 16) (chunks_exact 16 (pad_password [112])))))"
  by (rule hide_password_rfc [OF demo_crypto_ok])

text \<open>C27: The server, which knows the secret, recovers the padded password from the hidden value; its
  length is a multiple of 16 between 16 and 128.\<close>

theorem hidden_password_recovered:
  assumes "crypto_ok K" and "try_hide_password K pw secret ra = Inr h"
  shows "unhide K h secret ra = pw @ zeros (length h - length pw) \<and> length h mod 16 = 0 \<and> 16 \<le> length h \<and> length h \<le> 128"
proof -
  have h: "h = hide_core K pw secret ra" "length pw \<le> 128" using assms(2) by (auto simp: try_hide_password_def split: if_splits)
  then show ?thesis
    using padded_len_bounds [of "length pw"] unhide_hide_core [OF assms(1)] length_hide_core [OF assms(1)]
    by (simp add: pad_password_def)
qed

theorem hidden_password_recovered_witness:
  "\<exists>h. try_hide_password demo_crypto [112] [1, 2] (zeros 16) = Inr h \<and> unhide demo_crypto h [1, 2] (zeros 16) = 112 # zeros 15"
proof -
  have t: "try_hide_password demo_crypto [112] [1, 2] (zeros 16) = Inr (hide_core demo_crypto [112] [1, 2] (zeros 16))"
    by (simp add: try_hide_password_def)
  then show ?thesis
    using hidden_password_recovered [OF demo_crypto_ok t]
    by (simp add: length_hide_core [OF demo_crypto_ok] padded_len_def)
qed

text \<open>A challenge is read exactly from an Access-Challenge with at most one State: its prompt is the
  printable text of all Reply-Messages in order, its State is kept octet for octet.\<close>

theorem challenge_spec:
  "challenge_from_response r = Inr c \<longleftrightarrow>
     known_code r = Some AccessChallenge \<and>
     ch_prompt c = map unat (filter (\<lambda>b. 0x20 \<le> b \<and> b \<le> 0x7e) (concat (attr_values r REPLY_MESSAGE))) \<and>
     attr_values r STATE = (case ch_state c of None \<Rightarrow> [] | Some s \<Rightarrow> [s])"
  by (cases c) (auto simp: challenge_from_response_def sanitize_reply_message_def Let_def split: list.split option.split)

section \<open>The conversation\<close>

text \<open>A text is clamped to its longest prefix that ends on a character boundary and fits the 511
  octets of a PAM message.\<close>

theorem clamp_spec:
  "(\<exists>t. text = clamp text @ t) \<and> length (as_bytes (clamp text)) \<le> 511 \<and>
   (\<forall>t u. text = t @ u \<longrightarrow> length (as_bytes t) \<le> 511 \<longrightarrow> length (as_bytes t) \<le> length (as_bytes (clamp text)))"
  using clamp_prefix clamp_fits clamp_longest by blast

theorem clamp_spec_witness:
  "length (as_bytes (clamp (lit ''abc''))) = 3"
proof -
  let ?s = "lit ''abc''"
  have l: "length (as_bytes ?s) = 3" by (simp add: lit_def as_bytes_def utf8_char_def)
  obtain t where t: "?s = clamp ?s @ t" using clamp_spec [of ?s] by blast
  have "length (as_bytes ?s) \<le> length (as_bytes (clamp ?s))"
    by (rule conjunct2 [OF conjunct2 [OF clamp_spec], rule_format, of ?s ?s "[]"]) (simp_all add: l)
  moreover have "length (as_bytes (clamp ?s)) \<le> length (as_bytes ?s)"
    by (subst (2) t) (simp add: as_bytes_append)
  ultimately show ?thesis using l by simp
qed

lemma clamp_printable: "printable s \<Longrightarrow> printable (clamp s)"
  using clamp_prefix [of s] by (metis list_all_append printable_def)

text \<open>A printable text is one octet for each character, so that clamping keeps its first 511 characters.\<close>

lemma printable_octets: "printable s \<Longrightarrow> length (as_bytes s) = length s"
  by (induction s) (auto simp: printable_def as_bytes_Cons utf8_char_def)

lemma clamp_printable_take:
  assumes "printable s"
  shows "clamp s = take 511 s"
proof -
  obtain t where t: "s = clamp s @ t" using clamp_prefix by blast
  have "length (clamp s) \<le> 511" using clamp_fits [of s] printable_octets [OF clamp_printable [OF assms]] by simp
  moreover have "printable (take 511 s)"
    using assms by (metis append_take_drop_id list_all_append printable_def)
  then have "min (length s) 511 \<le> length (clamp s)"
    using clamp_longest [of s "take 511 s" "drop 511 s"] printable_octets [OF clamp_printable [OF assms]]
    by (simp add: printable_octets)
  ultimately have "length (clamp s) = min (length s) 511"
    using arg_cong [OF t, of length] by simp
  then show ?thesis using arg_cong [OF t, of "take (length (clamp s))"] by (simp add: min_def split: if_splits)
qed

text \<open>C34: Whatever text a server sends in a challenge, what reaches the user is the first 511 characters
  of its prompt, is printable ASCII, not empty, and is never refused by the shim for its length or a
  NUL: the message holds exactly these characters, one octet each.\<close>

theorem prompt_delivered:
  "clamp (otp_prompt network_text) = take 511 (otp_prompt network_text) \<and>
   printable (clamp (otp_prompt network_text)) \<and> clamp (otp_prompt network_text) \<noteq> [] \<and>
   message_texts [(style, clamp (otp_prompt network_text))] = Some [(style, map as_u8 (take 511 (otp_prompt network_text)))]"
proof -
  let ?p = "otp_prompt network_text"
  have p: "printable ?p" "?p \<noteq> []" using otp_prompt_printable by blast+
  have c: "clamp ?p = take 511 ?p" by (rule clamp_printable_take [OF p(1)])
  have pc: "printable (clamp ?p)" by (rule clamp_printable [OF p(1)])
  then have "0 \<notin> set (clamp ?p)" by (auto simp: printable_def list_all_iff)
  moreover have "as_bytes (clamp ?p) = map as_u8 (clamp ?p)"
    using pc by (intro as_bytes_ascii) (auto simp: printable_def list_all_iff)
  ultimately show ?thesis using p pc c clamp_fits [of ?p] by simp
qed

end
