(* ===== verification/Config.thy ===== *)
theory Config
  imports Net_Addr Secrets Effects
begin

text \<open>
  The configuration (\<open>crates/config/src/lib.rs\<close>): its types and errors, the permission check, the
  line parser, and loading. The file system is the record \<open>fs\<close> of operations on the outside world, a
  parameter of the model.
\<close>

unbundle bit_operations_syntax

section \<open>Types\<close>

abbreviation ROOT_UID :: u32 where "ROOT_UID \<equiv> 0"
abbreviation DEFAULT_TIMEOUT :: u32 where "DEFAULT_TIMEOUT \<equiv> 60"
abbreviation DEFAULT_PROBE_TIMEOUT :: u32 where "DEFAULT_PROBE_TIMEOUT \<equiv> 5"
abbreviation DEFAULT_RETRIES :: u32 where "DEFAULT_RETRIES \<equiv> 1"

datatype protocol = Mschapv2 | Pap

datatype audit_backend = AuditAuditd | AuditSyslog | AuditBoth

record server =
  sv_addr :: socket_addr
  sv_secret :: secret_string

record config =
  cf_servers :: "server list"
  cf_protocol :: protocol
  cf_timeout :: u32
  cf_probe_timeout :: u32
  cf_retries :: u32
  cf_nas_identifier :: "rstr option"
  cf_nas_ip :: "ipv4_addr option"
  cf_source_ip :: "ipv4_addr option"
  cf_require_message_authenticator :: bool
  cf_audit :: audit_backend
  cf_debug :: bool

record parsed_server =
  ps_addr :: socket_addr
  ps_secret_path :: rstr

record parsed_config =
  pc_servers :: "parsed_server list"
  pc_protocol :: protocol
  pc_timeout :: u32
  pc_probe_timeout :: u32
  pc_retries :: u32
  pc_nas_identifier :: "rstr option"
  pc_nas_ip :: "ipv4_addr option"
  pc_source_ip :: "ipv4_addr option"
  pc_require_message_authenticator :: bool
  pc_audit :: audit_backend
  pc_debug :: bool

section \<open>Errors\<close>

datatype perm_issue = NotRegularFile | WrongOwner u32 u32 | GroupOrOtherAccessible u32

datatype config_parse_error =
    UnknownKey nat rstr
  | DuplicateKey nat rstr
  | MalformedValue nat rstr
  | MissingRequired rstr

text \<open>An \<open>io::Error\<close>: an operating-system error number, or invalid data with a message.\<close>

datatype io_error = OsError nat | InvalidData rstr

datatype config_error =
    ConfigOpen rstr io_error
  | ConfigRead rstr io_error
  | InsecurePermissions rstr perm_issue
  | ConfigParse config_parse_error

fun perm_issue_display :: "perm_issue \<Rightarrow> rstr" where
  "perm_issue_display NotRegularFile = lit ''not a regular file''"
| "perm_issue_display (WrongOwner found expected) =
     lit ''wrong owner: found uid '' @ dec (unat found) @ lit '', require uid '' @ dec (unat expected)"
| "perm_issue_display (GroupOrOtherAccessible mode) =
     lit ''group/other-accessible (mode 0o'' @ digits 8 (unat mode) @ lit ''); require mode & 0o077 == 0''"

fun config_parse_error_display :: "config_parse_error \<Rightarrow> rstr" where
  "config_parse_error_display (UnknownKey line key) =
     lit ''line '' @ dec line @ lit '': unknown key '' @ [39] @ key @ [39]"
| "config_parse_error_display (DuplicateKey line key) =
     lit ''line '' @ dec line @ lit '': duplicate key '' @ [39] @ key @ [39]"
| "config_parse_error_display (MalformedValue line key) =
     lit ''line '' @ dec line @ lit '': malformed value for key '' @ [39] @ key @ [39]"
| "config_parse_error_display (MissingRequired key) =
     lit ''missing required key '' @ [39] @ key @ [39]"

section \<open>The permission check\<close>

record metadata =
  md_is_file :: bool
  md_uid :: u32
  md_mode :: u32
  md_len :: nat

definition validate_permissions :: "metadata \<Rightarrow> u32 \<Rightarrow> perm_issue + unit" where
  "validate_permissions meta expected_uid =
     (if \<not> md_is_file meta then Inl NotRegularFile
      else if md_uid meta \<noteq> expected_uid then Inl (WrongOwner (md_uid meta) expected_uid)
      else if md_mode meta AND 63 \<noteq> 0 then Inl (GroupOrOtherAccessible (md_mode meta))
      else Inr ())"

section \<open>The parser\<close>

definition malformed :: "nat \<Rightarrow> rstr \<Rightarrow> config_parse_error" where
  "malformed line key = MalformedValue line key"

definition single :: "rstr list \<Rightarrow> nat \<Rightarrow> rstr \<Rightarrow> config_parse_error + rstr" where
  "single rest line key = (case rest of [only] \<Rightarrow> Inr only | _ \<Rightarrow> Inl (malformed line key))"

definition set_once :: "'a option \<Rightarrow> nat \<Rightarrow> rstr \<Rightarrow> config_parse_error + unit" where
  "set_once slot line key = (if slot \<noteq> None then Inl (DuplicateKey line key) else Inr ())"

definition parse_u32 :: "rstr \<Rightarrow> nat \<Rightarrow> rstr \<Rightarrow> config_parse_error + u32" where
  "parse_u32 v line key = ok_or (malformed line key) (u32_from_str v)"

definition parse_bool :: "rstr \<Rightarrow> nat \<Rightarrow> rstr \<Rightarrow> config_parse_error + bool" where
  "parse_bool v line key =
     (if v = lit ''true'' then Inr True
      else if v = lit ''false'' then Inr False
      else Inl (malformed line key))"

text \<open>The local variables of \<open>parse\<close>.\<close>

record parse_state =
  st_servers :: "parsed_server list"
  st_protocol :: "protocol option"
  st_timeout :: "u32 option"
  st_probe_timeout :: "u32 option"
  st_retries :: "u32 option"
  st_nas_identifier :: "rstr option"
  st_nas_ip :: "ipv4_addr option"
  st_source_ip :: "ipv4_addr option"
  st_require_ma :: "bool option"
  st_audit :: "audit_backend option"
  st_debug :: "bool option"

definition parse_start :: parse_state where
  "parse_start =
     \<lparr>st_servers = [], st_protocol = None, st_timeout = None, st_probe_timeout = None, st_retries = None,
      st_nas_identifier = None, st_nas_ip = None, st_source_ip = None, st_require_ma = None,
      st_audit = None, st_debug = None\<rparr>"

text \<open>The body of the \<open>match key\<close>.\<close>

definition parse_entry :: "parse_state \<Rightarrow> nat \<Rightarrow> rstr \<Rightarrow> rstr list \<Rightarrow> config_parse_error + parse_state" where
  "parse_entry st line key rest =
     (if key = lit ''server'' then
        (if length rest \<noteq> 2 then Inl (malformed line key)
         else and_then (ok_or (malformed line key) (socket_addr_from_str (rest ! 0))) (\<lambda>addr.
           Inr (st\<lparr>st_servers := st_servers st @ [\<lparr>ps_addr = addr, ps_secret_path = rest ! 1\<rparr>]\<rparr>)))
      else if key = lit ''protocol'' then
        and_then (single rest line key) (\<lambda>v.
        and_then (set_once (st_protocol st) line key) (\<lambda>_.
          if v = lit ''mschapv2'' then Inr (st\<lparr>st_protocol := Some Mschapv2\<rparr>)
          else if v = lit ''pap'' then Inr (st\<lparr>st_protocol := Some Pap\<rparr>)
          else Inl (malformed line key)))
      else if key = lit ''timeout'' then
        and_then (single rest line key) (\<lambda>v.
        and_then (set_once (st_timeout st) line key) (\<lambda>_.
        and_then (parse_u32 v line key) (\<lambda>n. Inr (st\<lparr>st_timeout := Some n\<rparr>))))
      else if key = lit ''probe_timeout'' then
        and_then (single rest line key) (\<lambda>v.
        and_then (set_once (st_probe_timeout st) line key) (\<lambda>_.
        and_then (parse_u32 v line key) (\<lambda>n. Inr (st\<lparr>st_probe_timeout := Some n\<rparr>))))
      else if key = lit ''retries'' then
        and_then (single rest line key) (\<lambda>v.
        and_then (set_once (st_retries st) line key) (\<lambda>_.
        and_then (parse_u32 v line key) (\<lambda>n. Inr (st\<lparr>st_retries := Some n\<rparr>))))
      else if key = lit ''nas_identifier'' then
        and_then (single rest line key) (\<lambda>v.
        and_then (set_once (st_nas_identifier st) line key) (\<lambda>_.
          Inr (st\<lparr>st_nas_identifier := Some v\<rparr>)))
      else if key = lit ''nas_ip'' then
        and_then (single rest line key) (\<lambda>v.
        and_then (set_once (st_nas_ip st) line key) (\<lambda>_.
        and_then (ok_or (malformed line key) (ipv4_from_str v)) (\<lambda>ip. Inr (st\<lparr>st_nas_ip := Some ip\<rparr>))))
      else if key = lit ''source_ip'' then
        and_then (single rest line key) (\<lambda>v.
        and_then (set_once (st_source_ip st) line key) (\<lambda>_.
        and_then (ok_or (malformed line key) (ipv4_from_str v)) (\<lambda>ip. Inr (st\<lparr>st_source_ip := Some ip\<rparr>))))
      else if key = lit ''require_message_authenticator'' then
        and_then (single rest line key) (\<lambda>v.
        and_then (set_once (st_require_ma st) line key) (\<lambda>_.
        and_then (parse_bool v line key) (\<lambda>b. Inr (st\<lparr>st_require_ma := Some b\<rparr>))))
      else if key = lit ''audit'' then
        and_then (single rest line key) (\<lambda>v.
        and_then (set_once (st_audit st) line key) (\<lambda>_.
          if v = lit ''auditd'' then Inr (st\<lparr>st_audit := Some AuditAuditd\<rparr>)
          else if v = lit ''syslog'' then Inr (st\<lparr>st_audit := Some AuditSyslog\<rparr>)
          else if v = lit ''both'' then Inr (st\<lparr>st_audit := Some AuditBoth\<rparr>)
          else Inl (malformed line key)))
      else if key = lit ''debug'' then
        and_then (single rest line key) (\<lambda>v.
        and_then (set_once (st_debug st) line key) (\<lambda>_.
        and_then (parse_bool v line key) (\<lambda>b. Inr (st\<lparr>st_debug := Some b\<rparr>))))
      else Inl (UnknownKey line key))"

text \<open>One line: the comment is cut off, white space trimmed, blank lines skipped.\<close>

definition parse_line :: "parse_state \<Rightarrow> nat \<Rightarrow> rstr \<Rightarrow> config_parse_error + parse_state" where
  "parse_line st line raw_line =
     (let content = trim (takeWhile (\<lambda>c. c \<noteq> 35) raw_line)
      in if content = [] then Inr st
         else (case split_whitespace content of
                 [] \<Rightarrow> Inr st
               | key # rest \<Rightarrow> parse_entry st line key rest))"

fun parse_lines :: "parse_state \<Rightarrow> nat \<Rightarrow> rstr list \<Rightarrow> config_parse_error + parse_state" where
  "parse_lines st idx [] = Inr st"
| "parse_lines st idx (raw_line # ls) =
     and_then (parse_line st (idx + 1) raw_line) (\<lambda>st. parse_lines st (idx + 1) ls)"

definition unwrap_or :: "'a \<Rightarrow> 'a option \<Rightarrow> 'a" where
  "unwrap_or d x = (case x of None \<Rightarrow> d | Some a \<Rightarrow> a)"

definition parse_finish :: "parse_state \<Rightarrow> config_parse_error + parsed_config" where
  "parse_finish st =
     (if st_servers st = [] then Inl (MissingRequired (lit ''server''))
      else and_then (ok_or (MissingRequired (lit ''protocol'')) (st_protocol st)) (\<lambda>protocol.
        Inr \<lparr>pc_servers = st_servers st, pc_protocol = protocol,
             pc_timeout = unwrap_or DEFAULT_TIMEOUT (st_timeout st),
             pc_probe_timeout = unwrap_or DEFAULT_PROBE_TIMEOUT (st_probe_timeout st),
             pc_retries = unwrap_or DEFAULT_RETRIES (st_retries st),
             pc_nas_identifier = st_nas_identifier st, pc_nas_ip = st_nas_ip st, pc_source_ip = st_source_ip st,
             pc_require_message_authenticator = unwrap_or True (st_require_ma st),
             pc_audit = unwrap_or AuditBoth (st_audit st), pc_debug = unwrap_or False (st_debug st)\<rparr>))"

definition parse :: "rstr \<Rightarrow> config_parse_error + parsed_config" where
  "parse text = and_then (parse_lines parse_start 0 (lines text)) parse_finish"

section \<open>Loading\<close>

text \<open>
  The file system: \<open>open\<close> with \<open>O_NOFOLLOW\<close>, \<open>fstat\<close> on the descriptor and reading it to the end.
\<close>

type_synonym fd = nat

record 'w fs =
  fs_open :: "rstr \<Rightarrow> 'w \<Rightarrow> (nat + fd) \<times> 'w"
  fs_metadata :: "fd \<Rightarrow> 'w \<Rightarrow> (nat + metadata) \<times> 'w"
  fs_read_to_end :: "fd \<Rightarrow> 'w \<Rightarrow> (nat + bytes) \<times> 'w"

definition open_secure :: "'w fs \<Rightarrow> rstr \<Rightarrow> u32 \<Rightarrow> (config_error + fd \<times> metadata, 'w) io" where
  "open_secure fs path expected_uid =
     attempt (seq (lift (fs_open fs path)) (\<lambda>r. ret (map_err (\<lambda>e. ConfigOpen path (OsError e)) r))) (\<lambda>file.
     attempt (seq (lift (fs_metadata fs file)) (\<lambda>r. ret (map_err (\<lambda>e. ConfigRead path (OsError e)) r))) (\<lambda>meta.
     attempt (ret (map_err (InsecurePermissions path) (validate_permissions meta expected_uid))) (\<lambda>_.
       ret (Inr (file, meta)))))"

definition read_config_text :: "'w fs \<Rightarrow> fd \<Rightarrow> rstr \<Rightarrow> (config_error + rstr, 'w) io" where
  "read_config_text fs file path =
     seq (lift (fs_read_to_end fs file)) (\<lambda>r.
       case r of
         Inl e \<Rightarrow> ret (Inl (ConfigRead path (OsError e)))
       | Inr bs \<Rightarrow>
           (case from_utf8 bs of
              None \<Rightarrow> ret (Inl (ConfigRead path (InvalidData (lit ''stream did not contain valid UTF-8''))))
            | Some text \<Rightarrow> ret (Inr text)))"

text \<open>\<open>split_last\<close>: one trailing line feed is dropped.\<close>

definition strip_newline :: "bytes \<Rightarrow> bytes" where
  "strip_newline bs = (if bs \<noteq> [] \<and> last bs = 10 then butlast bs else bs)"

definition read_secret :: "'w fs \<Rightarrow> fd \<Rightarrow> metadata \<Rightarrow> rstr \<Rightarrow> (config_error + secret_string, 'w) io" where
  "read_secret fs file meta path =
     attempt (seq (lift (fs_read_to_end fs file)) (\<lambda>r. ret (map_err (\<lambda>e. ConfigRead path (OsError e)) r))) (\<lambda>scratch.
       case from_utf8 (strip_newline scratch) of
         None \<Rightarrow> ret (Inl (ConfigRead path (InvalidData (lit ''secret file is not valid UTF-8''))))
       | Some text \<Rightarrow> ret (Inr (secret_string_from_text text)))"

fun resolve_servers :: "'w fs \<Rightarrow> u32 \<Rightarrow> parsed_server list \<Rightarrow> (config_error + server list, 'w) io" where
  "resolve_servers fs expected_uid [] = ret (Inr [])"
| "resolve_servers fs expected_uid (ps # pss) =
     attempt (open_secure fs (ps_secret_path ps) expected_uid) (\<lambda>(file, meta).
     attempt (read_secret fs file meta (ps_secret_path ps)) (\<lambda>secret.
     attempt (resolve_servers fs expected_uid pss) (\<lambda>servers.
       ret (Inr (\<lparr>sv_addr = ps_addr ps, sv_secret = secret\<rparr> # servers)))))"

definition resolve :: "'w fs \<Rightarrow> parsed_config \<Rightarrow> u32 \<Rightarrow> (config_error + config, 'w) io" where
  "resolve fs parsed expected_uid =
     attempt (resolve_servers fs expected_uid (pc_servers parsed)) (\<lambda>servers.
       ret (Inr \<lparr>cf_servers = servers, cf_protocol = pc_protocol parsed, cf_timeout = pc_timeout parsed,
                 cf_probe_timeout = pc_probe_timeout parsed, cf_retries = pc_retries parsed,
                 cf_nas_identifier = pc_nas_identifier parsed, cf_nas_ip = pc_nas_ip parsed,
                 cf_source_ip = pc_source_ip parsed,
                 cf_require_message_authenticator = pc_require_message_authenticator parsed,
                 cf_audit = pc_audit parsed, cf_debug = pc_debug parsed\<rparr>))"

definition load_with_expected_uid :: "'w fs \<Rightarrow> rstr \<Rightarrow> u32 \<Rightarrow> (config_error + config, 'w) io" where
  "load_with_expected_uid fs path expected_uid =
     attempt (open_secure fs path expected_uid) (\<lambda>(file, _).
     attempt (read_config_text fs file path) (\<lambda>text.
     attempt (ret (map_err ConfigParse (parse text))) (\<lambda>parsed.
       resolve fs parsed expected_uid)))"

definition load :: "'w fs \<Rightarrow> rstr \<Rightarrow> (config_error + config, 'w) io" where
  "load fs path = load_with_expected_uid fs path ROOT_UID"

end
