(* ===== verification/Auth_Flow.thy ===== *)
theory Auth_Flow
  imports Mschap_Flow Conversation Config Radius_Transport
begin

text \<open>
  One authentication attempt (\<open>crates/pam-ffi/src/flow.rs\<close>): the MSCHAPv2 push flow and the PAP
  challenge flow over the configured servers, with the outcome, the deciding server and the reason
  that the audit record needs. The random source, the conversation and the transport are the
  record \<open>env\<close>; each is an argument of the flow in the code as well, except the random source, which
  the code reaches through \<open>getrandom\<close>.
\<close>

section \<open>Outcomes and reports\<close>

abbreviation REASON_SUCCESS :: rstr where "REASON_SUCCESS \<equiv> lit ''success''"
abbreviation REASON_EMPTY_USERNAME :: rstr where "REASON_EMPTY_USERNAME \<equiv> lit ''empty_username''"
abbreviation REASON_EMPTY_PASSWORD :: rstr where "REASON_EMPTY_PASSWORD \<equiv> lit ''empty_password''"
abbreviation REASON_NO_SERVERS :: rstr where "REASON_NO_SERVERS \<equiv> lit ''no_servers''"
abbreviation REASON_RNG_FAILURE :: rstr where "REASON_RNG_FAILURE \<equiv> lit ''rng_failure''"
abbreviation REASON_ENCODE_FAILURE :: rstr where "REASON_ENCODE_FAILURE \<equiv> lit ''encode_failure''"
abbreviation REASON_CONV_ERROR :: rstr where "REASON_CONV_ERROR \<equiv> lit ''conv_error''"
abbreviation REASON_ALL_UNREACHABLE :: rstr where "REASON_ALL_UNREACHABLE \<equiv> lit ''all_unreachable''"
abbreviation REASON_TIMEOUT :: rstr where "REASON_TIMEOUT \<equiv> lit ''timeout''"
abbreviation REASON_IO_ERROR :: rstr where "REASON_IO_ERROR \<equiv> lit ''io_error''"
abbreviation REASON_BAD_RESPONSE :: rstr where "REASON_BAD_RESPONSE \<equiv> lit ''bad_response''"
abbreviation REASON_MUTUAL_AUTH_FAILED :: rstr where "REASON_MUTUAL_AUTH_FAILED \<equiv> lit ''mutual_auth_failed''"
abbreviation REASON_REJECT :: rstr where "REASON_REJECT \<equiv> lit ''reject''"
abbreviation REASON_UNEXPECTED_CODE :: rstr where "REASON_UNEXPECTED_CODE \<equiv> lit ''unexpected_code''"
abbreviation REASON_PASSWORD_UNREPRESENTABLE :: rstr where
  "REASON_PASSWORD_UNREPRESENTABLE \<equiv> lit ''password_unrepresentable''"
abbreviation REASON_BAD_CHALLENGE :: rstr where "REASON_BAD_CHALLENGE \<equiv> lit ''bad_challenge''"
abbreviation REASON_CHALLENGE_UNANSWERABLE :: rstr where
  "REASON_CHALLENGE_UNANSWERABLE \<equiv> lit ''challenge_unanswerable''"
abbreviation REASON_EMPTY_OTP :: rstr where "REASON_EMPTY_OTP \<equiv> lit ''empty_otp''"
abbreviation REASON_MAX_ROUNDS :: rstr where "REASON_MAX_ROUNDS \<equiv> lit ''max_rounds''"
abbreviation REASON_TRANSPORT_ERROR :: rstr where "REASON_TRANSPORT_ERROR \<equiv> lit ''transport_error''"
abbreviation REASON_USER_ERROR :: rstr where "REASON_USER_ERROR \<equiv> lit ''user_error''"
abbreviation REASON_NULL_AUTHTOK :: rstr where "REASON_NULL_AUTHTOK \<equiv> lit ''null_authtok''"
abbreviation REASON_AUTHTOK_ERROR :: rstr where "REASON_AUTHTOK_ERROR \<equiv> lit ''authtok_error''"
abbreviation REASON_CONFIG_ERROR :: rstr where "REASON_CONFIG_ERROR \<equiv> lit ''config_error''"

datatype pam_outcome = PamSuccess | PamAuthErr | PamUnavail | PamConvErr

fun pam_code :: "pam_outcome \<Rightarrow> int" where
  "pam_code PamSuccess = PAM_SUCCESS"
| "pam_code PamAuthErr = AUTH_ERR"
| "pam_code PamUnavail = AUTHINFO_UNAVAIL"
| "pam_code PamConvErr = CONV_ERR"

record auth_report =
  rp_outcome :: pam_outcome
  rp_server :: "socket_addr option"
  rp_reason :: rstr

definition report_of :: "pam_outcome \<Rightarrow> rstr \<Rightarrow> auth_report" where
  "report_of out why = \<lparr>rp_outcome = out, rp_server = None, rp_reason = why\<rparr>"

definition with_server :: "auth_report \<Rightarrow> socket_addr \<Rightarrow> auth_report" where
  "with_server rep addr = rep\<lparr>rp_server := Some addr\<rparr>"

definition PUSH_NOTICE :: rstr where
  "PUSH_NOTICE = lit ''A sign-in request was sent to your MFA device. Approve it there to continue.''"

definition PASSWORD_EXPIRED_NOTICE :: rstr where
  "PASSWORD_EXPIRED_NOTICE =
     lit ''Your password has expired. Change it through your organization's password reset process, then try again.''"

abbreviation MAX_CHALLENGE_ROUNDS :: nat where "MAX_CHALLENGE_ROUNDS \<equiv> 8"

record attempt_context =
  ac_username :: rstr
  ac_password :: secret_string
  ac_corr :: rstr

definition outcome_for_config_error :: "config_error \<Rightarrow> pam_outcome" where
  "outcome_for_config_error e = PamUnavail"

section \<open>The environment of an attempt\<close>

record 'w env =
  env_crypto :: crypto
  env_random :: "(bytes option, 'w) io"
  env_conv :: "'w conversation"
  env_exchange :: "'w exchange_fn"

text \<open>\<open>server.secret.expose_secret().as_bytes()\<close>.\<close>

definition secret_of :: "server \<Rightarrow> bytes" where
  "secret_of sv = as_bytes (expose_secret (sv_secret sv))"

text \<open>The binding of both flows.\<close>

definition attempt_binding :: "config \<Rightarrow> u8 \<Rightarrow> bytes \<Rightarrow> request_binding" where
  "attempt_binding cf i ra =
     require_message_authenticator (request_binding_new i ra) (cf_require_message_authenticator cf)"

section \<open>Requests\<close>

definition add_nas_attributes :: "packet_builder \<Rightarrow> config \<Rightarrow> encode_error + packet_builder" where
  "add_nas_attributes pb cf =
     and_then (case cf_nas_identifier cf of
                 Some nas_identifier \<Rightarrow> attribute pb NAS_IDENTIFIER (as_bytes nas_identifier)
               | None \<Rightarrow> Inr pb) (\<lambda>pb.
       case cf_nas_ip cf of
         Some nas_ip \<Rightarrow> attribute pb NAS_IP_ADDRESS (octets nas_ip)
       | None \<Rightarrow> Inr pb)"

definition build_mschapv2_packet ::
  "crypto \<Rightarrow> rstr \<Rightarrow> mschapv2_request \<Rightarrow> u8 \<Rightarrow> bytes \<Rightarrow> config \<Rightarrow> bytes \<Rightarrow> encode_error + bytes" where
  "build_mschapv2_packet K username request i request_authenticator cf secret =
     and_then (attribute (packet_builder_new AccessRequest i request_authenticator) USER_NAME (as_bytes username)) (\<lambda>pb.
     and_then (attribute pb VENDOR_SPECIFIC (mr_ms_chap_challenge request)) (\<lambda>pb.
     and_then (attribute pb VENDOR_SPECIFIC (mr_ms_chap2_response request)) (\<lambda>pb.
     and_then (add_nas_attributes pb cf) (\<lambda>pb.
     and_then (message_authenticator_placeholder pb) (\<lambda>pb.
     and_then (build pb) (\<lambda>packet.
       fill_message_authenticator K packet secret))))))"

definition build_pap_packet ::
  "crypto \<Rightarrow> rstr \<Rightarrow> bytes \<Rightarrow> u8 \<Rightarrow> bytes \<Rightarrow> config \<Rightarrow> bytes \<Rightarrow> encode_error + bytes" where
  "build_pap_packet K username hidden_password i request_authenticator cf secret =
     and_then (attribute (packet_builder_new AccessRequest i request_authenticator) USER_NAME (as_bytes username)) (\<lambda>pb.
     and_then (attribute pb USER_PASSWORD hidden_password) (\<lambda>pb.
     and_then (add_nas_attributes pb cf) (\<lambda>pb.
     and_then (message_authenticator_placeholder pb) (\<lambda>pb.
     and_then (build pb) (\<lambda>packet.
       fill_message_authenticator K packet secret)))))"

section \<open>The MSCHAPv2 flow\<close>

definition mschapv2_response_outcome :: "'w env \<Rightarrow> bytes \<Rightarrow> mschapv2_request \<Rightarrow> (auth_report, 'w) io" where
  "mschapv2_response_outcome E response request =
     (case parse_response response of
        Inl _ \<Rightarrow> ret (report_of PamUnavail REASON_BAD_RESPONSE)
      | Inr parsed \<Rightarrow>
          (case known_code parsed of
             Some AccessAccept \<Rightarrow>
               if verify_access_accept parsed (mr_expected_authenticator request)
               then ret (report_of PamSuccess REASON_SUCCESS)
               else ret (report_of PamAuthErr REASON_MUTUAL_AUTH_FAILED)
           | Some AccessReject \<Rightarrow>
               seq (case find_ms_chap_error parsed of
                      Some vdata \<Rightarrow>
                        if parse_ms_chap_error vdata = PasswordExpired
                        then seq (cv_info (env_conv E) PASSWORD_EXPIRED_NOTICE) (\<lambda>_. ret ())
                        else ret ()
                    | None \<Rightarrow> ret ()) (\<lambda>_.
                 ret (report_of PamAuthErr REASON_REJECT))
           | _ \<Rightarrow> ret (report_of PamAuthErr REASON_UNEXPECTED_CODE)))"

fun mschapv2_servers ::
  "'w env \<Rightarrow> attempt_context \<Rightarrow> config \<Rightarrow> bool \<Rightarrow> server list \<Rightarrow> (auth_report, 'w) io" where
  "mschapv2_servers E ctx cf push_notice_sent [] = ret (report_of PamUnavail REASON_ALL_UNREACHABLE)"
| "mschapv2_servers E ctx cf push_notice_sent (sv # svs) =
     (let secret = secret_of sv; fail = (\<lambda>out why. ret (with_server (report_of out why) (sv_addr sv))) in
      seq (fresh_request_authenticator (env_random E)) (\<lambda>r. case r of
        Inl _ \<Rightarrow> fail PamUnavail REASON_RNG_FAILURE
      | Inr request_authenticator \<Rightarrow>
      let i = request_authenticator ! 0 in
      seq (generate_challenges (env_random E)) (\<lambda>r. case r of
        Inl _ \<Rightarrow> fail PamUnavail REASON_RNG_FAILURE
      | Inr challenges \<Rightarrow>
      let request = build_request (env_crypto E) (as_bytes (ac_username ctx)) (expose_secret (ac_password ctx)) challenges i in
      case build_mschapv2_packet (env_crypto E) (ac_username ctx) request i request_authenticator cf secret of
        Inl _ \<Rightarrow> fail PamUnavail REASON_ENCODE_FAILURE
      | Inr packet \<Rightarrow>
      seq (if push_notice_sent then ret (Inr ()) else cv_info (env_conv E) PUSH_NOTICE) (\<lambda>r. case r of
        Inl _ \<Rightarrow> fail PamConvErr REASON_CONV_ERROR
      | Inr _ \<Rightarrow>
      let binding = attempt_binding cf i request_authenticator in
      seq (env_exchange E (sv_addr sv) packet (\<lambda>d. verify_response (env_crypto E) binding d secret)) (\<lambda>r. case r of
        Inl Unreachable \<Rightarrow> mschapv2_servers E ctx cf True svs
      | Inl Timeout \<Rightarrow> fail PamUnavail REASON_TIMEOUT
      | Inl Io \<Rightarrow> fail PamUnavail REASON_IO_ERROR
      | Inr response \<Rightarrow>
          seq (mschapv2_response_outcome E response request) (\<lambda>rep. ret (with_server rep (sv_addr sv))))))))"

definition mschapv2_flow :: "'w env \<Rightarrow> attempt_context \<Rightarrow> config \<Rightarrow> (auth_report, 'w) io" where
  "mschapv2_flow E ctx cf = mschapv2_servers E ctx cf False (cf_servers cf)"

section \<open>The PAP flow\<close>

datatype round = Done auth_report | Challenge challenge

definition pap_round :: "bytes \<Rightarrow> auth_report + round" where
  "pap_round response =
     (case parse_response response of
        Inl _ \<Rightarrow> Inl (report_of PamUnavail REASON_BAD_RESPONSE)
      | Inr parsed \<Rightarrow> Inr
          (case known_code parsed of
             Some AccessAccept \<Rightarrow> Done (report_of PamSuccess REASON_SUCCESS)
           | Some AccessReject \<Rightarrow> Done (report_of PamAuthErr REASON_REJECT)
           | Some AccessChallenge \<Rightarrow>
               (case challenge_from_response parsed of
                  Inr challenge \<Rightarrow> Challenge challenge
                | Inl _ \<Rightarrow> Done (report_of PamAuthErr REASON_BAD_CHALLENGE))
           | _ \<Rightarrow> Done (report_of PamAuthErr REASON_UNEXPECTED_CODE)))"

text \<open>The loop \<open>for _round in 0..MAX_CHALLENGE_ROUNDS\<close>, by the number of rounds left.\<close>

fun pap_loop ::
  "'w env \<Rightarrow> attempt_context \<Rightarrow> config \<Rightarrow> socket_addr \<Rightarrow> bytes \<Rightarrow> nat \<Rightarrow> bytes \<Rightarrow> (auth_report, 'w) io" where
  "pap_loop E ctx cf addr secret 0 response = ret (report_of PamAuthErr REASON_MAX_ROUNDS)"
| "pap_loop E ctx cf addr secret (Suc n) response =
     (case pap_round response of
        Inl rep \<Rightarrow> ret rep
      | Inr (Done rep) \<Rightarrow> ret rep
      | Inr (Challenge challenge) \<Rightarrow>
      seq (prompt_response (env_conv E) (ch_prompt challenge)) (\<lambda>r. case r of
        Inl _ \<Rightarrow> ret (report_of PamConvErr REASON_CONV_ERROR)
      | Inr code \<Rightarrow>
      if secret_string_is_empty code then ret (report_of PamAuthErr REASON_EMPTY_OTP)
      else
      seq (fresh_request_authenticator (env_random E)) (\<lambda>r. case r of
        Inl _ \<Rightarrow> ret (report_of PamUnavail REASON_RNG_FAILURE)
      | Inr request_authenticator \<Rightarrow>
      let i = request_authenticator ! 0 in
      case build_response (env_crypto E) challenge i request_authenticator (as_bytes (ac_username ctx))
             (as_bytes (expose_secret code)) secret of
        Inl _ \<Rightarrow> ret (report_of PamAuthErr REASON_CHALLENGE_UNANSWERABLE)
      | Inr follow_up \<Rightarrow>
      let binding = attempt_binding cf i request_authenticator in
      seq (env_exchange E addr follow_up (\<lambda>d. verify_response (env_crypto E) binding d secret)) (\<lambda>r. case r of
        Inr response' \<Rightarrow> pap_loop E ctx cf addr secret n response'
      | Inl _ \<Rightarrow> ret (report_of PamUnavail REASON_TRANSPORT_ERROR)))))"

definition pap_rounds ::
  "'w env \<Rightarrow> attempt_context \<Rightarrow> config \<Rightarrow> socket_addr \<Rightarrow> bytes \<Rightarrow> bytes \<Rightarrow> (auth_report, 'w) io" where
  "pap_rounds E ctx cf addr secret response = pap_loop E ctx cf addr secret MAX_CHALLENGE_ROUNDS response"

fun pap_servers :: "'w env \<Rightarrow> attempt_context \<Rightarrow> config \<Rightarrow> server list \<Rightarrow> (auth_report, 'w) io" where
  "pap_servers E ctx cf [] = ret (report_of PamUnavail REASON_ALL_UNREACHABLE)"
| "pap_servers E ctx cf (sv # svs) =
     (let secret = secret_of sv; fail = (\<lambda>out why. ret (with_server (report_of out why) (sv_addr sv))) in
      seq (fresh_request_authenticator (env_random E)) (\<lambda>r. case r of
        Inl _ \<Rightarrow> fail PamUnavail REASON_RNG_FAILURE
      | Inr request_authenticator \<Rightarrow>
      let i = request_authenticator ! 0 in
      case try_hide_password (env_crypto E) (as_bytes (expose_secret (ac_password ctx))) secret request_authenticator of
        Inl _ \<Rightarrow> fail PamAuthErr REASON_PASSWORD_UNREPRESENTABLE
      | Inr hidden \<Rightarrow>
      case build_pap_packet (env_crypto E) (ac_username ctx) hidden i request_authenticator cf secret of
        Inl _ \<Rightarrow> fail PamUnavail REASON_ENCODE_FAILURE
      | Inr packet \<Rightarrow>
      let binding = attempt_binding cf i request_authenticator in
      seq (env_exchange E (sv_addr sv) packet (\<lambda>d. verify_response (env_crypto E) binding d secret)) (\<lambda>r. case r of
        Inl Unreachable \<Rightarrow> pap_servers E ctx cf svs
      | Inl Timeout \<Rightarrow> fail PamUnavail REASON_TIMEOUT
      | Inl Io \<Rightarrow> fail PamUnavail REASON_IO_ERROR
      | Inr response \<Rightarrow>
          seq (pap_rounds E ctx cf (sv_addr sv) secret response) (\<lambda>rep. ret (with_server rep (sv_addr sv))))))"

definition pap_flow :: "'w env \<Rightarrow> attempt_context \<Rightarrow> config \<Rightarrow> (auth_report, 'w) io" where
  "pap_flow E ctx cf = pap_servers E ctx cf (cf_servers cf)"

section \<open>One attempt\<close>

definition authenticate_report :: "'w env \<Rightarrow> attempt_context \<Rightarrow> config \<Rightarrow> (auth_report, 'w) io" where
  "authenticate_report E ctx cf =
     (if ac_username ctx = [] then ret (report_of PamAuthErr REASON_EMPTY_USERNAME)
      else if secret_string_is_empty (ac_password ctx) then ret (report_of PamAuthErr REASON_EMPTY_PASSWORD)
      else if cf_servers cf = [] then ret (report_of PamUnavail REASON_NO_SERVERS)
      else case cf_protocol cf of
             Mschapv2 \<Rightarrow> mschapv2_flow E ctx cf
           | Pap \<Rightarrow> pap_flow E ctx cf)"

definition authenticate :: "'w env \<Rightarrow> attempt_context \<Rightarrow> config \<Rightarrow> (pam_outcome, 'w) io" where
  "authenticate E ctx cf = seq (authenticate_report E ctx cf) (\<lambda>rep. ret (rp_outcome rep))"

end
