(* ===== verification/Auth_Requests.thy ===== *)
theory Auth_Requests
  imports Auth_Flow
begin

text \<open>
  The requests of the two flows: the attributes each one carries, in order, and when the builders
  succeed. Every request ends with one Message-Authenticator over the whole packet.
\<close>

section \<open>Access-Requests\<close>

definition access_request :: "crypto \<Rightarrow> u8 \<Rightarrow> bytes \<Rightarrow> (u8 \<times> bytes) list \<Rightarrow> bytes \<Rightarrow> bytes" where
  "access_request K i ra as secret = filled K 1 i ra (as @ [(MESSAGE_AUTHENTICATOR, zeros 16)]) secret"

definition request_fits :: "(u8 \<times> bytes) list \<Rightarrow> bool" where
  "request_fits as \<longleftrightarrow> fits (as @ [(MESSAGE_AUTHENTICATOR, zeros 16)])"

lemma request_fits_prefix: "request_fits (as @ bs) \<Longrightarrow> fits as"
  unfolding request_fits_def append_assoc by (rule fits_append)

lemma request_fits_fits: "request_fits as \<Longrightarrow> fits as"
  using request_fits_prefix [of as "[]"] by simp

lemma add_attribute:
  assumes "fits as"
  shows "and_then (attribute (builder_with c i ra as) t v) f = Inr p \<longleftrightarrow>
    fits (as @ [(t, v)]) \<and> f (builder_with c i ra (as @ [(t, v)])) = Inr p"
proof (cases "attribute (builder_with c i ra as) t v")
  case (Inl e)
  then have "\<not> fits (as @ [(t, v)])" using attribute_Inr [OF assms, of c i ra t v] by auto
  then show ?thesis using Inl by simp
next
  case (Inr pb)
  then show ?thesis using attribute_Inr [OF assms, of c i ra t v pb] by auto
qed

lemma finish_request:
  assumes K: "crypto_ok K" and ra: "length ra = 16" and as: "fits as" "ma_values as = []"
  shows "and_then (message_authenticator_placeholder (builder_with AccessRequest i ra as)) (\<lambda>pb.
      and_then (build pb) (\<lambda>packet. fill_message_authenticator K packet secret)) = Inr p \<longleftrightarrow>
    request_fits as \<and> p = access_request K i ra as secret"
proof (cases "request_fits as")
  case False
  then show ?thesis
    unfolding message_authenticator_placeholder_def add_attribute [OF as(1)] by (simp add: request_fits_def)
next
  case True
  then have f: "fits (as @ [(MESSAGE_AUTHENTICATOR, zeros 16)])" by (simp add: request_fits_def)
  have "fill_message_authenticator K (packet_bytes 1 i ra (as @ [(MESSAGE_AUTHENTICATOR, zeros 16)])) secret =
      Inr (access_request K i ra as secret)"
    using fill_packet_bytes [OF K ra f] as(2) by (simp add: access_request_def)
  then show ?thesis
    unfolding message_authenticator_placeholder_def add_attribute [OF as(1)]
    using True f by (auto simp: build_builder_with)
qed

definition nas_attrs :: "config \<Rightarrow> (u8 \<times> bytes) list" where
  "nas_attrs cf =
     (case cf_nas_identifier cf of Some n \<Rightarrow> [(NAS_IDENTIFIER, as_bytes n)] | None \<Rightarrow> []) @
     (case cf_nas_ip cf of Some ip \<Rightarrow> [(NAS_IP_ADDRESS, octets ip)] | None \<Rightarrow> [])"

lemma ma_values_nas_attrs [simp]: "ma_values (nas_attrs cf) = []"
  by (simp add: nas_attrs_def split: option.split)

lemma add_nas_attributes_Inr:
  assumes "fits as"
  shows "and_then (add_nas_attributes (builder_with c i ra as) cf) f = Inr p \<longleftrightarrow>
    fits (as @ nas_attrs cf) \<and> f (builder_with c i ra (as @ nas_attrs cf)) = Inr p"
proof -
  have assoc: "and_then (and_then m g) h = and_then m (\<lambda>x. and_then (g x) h)"
    for m :: "encode_error + packet_builder" and g :: "packet_builder \<Rightarrow> encode_error + packet_builder" and h
    by (cases m) simp_all
  have 2: "and_then (case cf_nas_ip cf of Some ip \<Rightarrow> attribute (builder_with c i ra bs) NAS_IP_ADDRESS (octets ip)
        | None \<Rightarrow> Inr (builder_with c i ra bs)) f = Inr p \<longleftrightarrow>
      fits (bs @ (case cf_nas_ip cf of Some ip \<Rightarrow> [(NAS_IP_ADDRESS, octets ip)] | None \<Rightarrow> [])) \<and>
      f (builder_with c i ra (bs @ (case cf_nas_ip cf of Some ip \<Rightarrow> [(NAS_IP_ADDRESS, octets ip)] | None \<Rightarrow> []))) = Inr p"
    if "fits bs" for bs
    using that by (cases "cf_nas_ip cf") (simp_all add: add_attribute)
  show ?thesis
  proof (cases "cf_nas_identifier cf")
    case None
    then show ?thesis using 2 [OF assms] by (simp add: add_nas_attributes_def nas_attrs_def)
  next
    case (Some n)
    have "fits (as @ [(NAS_IDENTIFIER, as_bytes n)])" if "fits (as @ [(NAS_IDENTIFIER, as_bytes n)] @ bs)" for bs
      using fits_append [of "as @ [(NAS_IDENTIFIER, as_bytes n)]" bs] that by simp
    then show ?thesis
      using 2 [of "as @ [(NAS_IDENTIFIER, as_bytes n)]"]
      by (auto simp: add_nas_attributes_def nas_attrs_def Some assoc add_attribute [OF assms])
  qed
qed

section \<open>The three requests\<close>

definition mschapv2_attrs :: "rstr \<Rightarrow> mschapv2_request \<Rightarrow> config \<Rightarrow> (u8 \<times> bytes) list" where
  "mschapv2_attrs user request cf =
     [(USER_NAME, as_bytes user), (VENDOR_SPECIFIC, mr_ms_chap_challenge request),
      (VENDOR_SPECIFIC, mr_ms_chap2_response request)] @ nas_attrs cf"

definition pap_attrs :: "rstr \<Rightarrow> bytes \<Rightarrow> config \<Rightarrow> (u8 \<times> bytes) list" where
  "pap_attrs user hidden cf = [(USER_NAME, as_bytes user), (USER_PASSWORD, hidden)] @ nas_attrs cf"

definition follow_up_attrs :: "bytes \<Rightarrow> bytes \<Rightarrow> bytes \<Rightarrow> (u8 \<times> bytes) list" where
  "follow_up_attrs username hidden state = [(USER_NAME, username), (USER_PASSWORD, hidden), (STATE, state)]"

lemmas request_building = packet_builder_new_eq add_attribute add_nas_attributes_Inr finish_request fits_Nil

text \<open>A prefix of attributes that fit fits.\<close>

lemma request_fits_take: "request_fits as \<Longrightarrow> fits (take n as)"
  using request_fits_prefix [of "take n as" "drop n as"] by simp

lemma build_mschapv2_packet_Inr:
  assumes K: "crypto_ok K" and ra: "length ra = 16"
  shows "build_mschapv2_packet K user request i ra cf secret = Inr p \<longleftrightarrow>
    request_fits (mschapv2_attrs user request cf) \<and> p = access_request K i ra (mschapv2_attrs user request cf) secret"
    (is "?L \<longleftrightarrow> ?R")
proof -
  let ?a = "[(USER_NAME, as_bytes user)]" and ?b = "[(USER_NAME, as_bytes user), (VENDOR_SPECIFIC, mr_ms_chap_challenge request)]"
  let ?c = "[(USER_NAME, as_bytes user), (VENDOR_SPECIFIC, mr_ms_chap_challenge request),
      (VENDOR_SPECIFIC, mr_ms_chap2_response request)]"
  have "?L \<longleftrightarrow> fits ?a \<and> fits ?b \<and> fits ?c \<and> fits (?c @ nas_attrs cf) \<and>
      request_fits (?c @ nas_attrs cf) \<and> p = access_request K i ra (?c @ nas_attrs cf) secret"
    unfolding build_mschapv2_packet_def by (auto simp: request_building K ra)
  moreover have "fits ?a \<and> fits ?b \<and> fits ?c \<and> fits (?c @ nas_attrs cf)" if "request_fits (?c @ nas_attrs cf)"
    using request_fits_take [OF that, of 1] request_fits_take [OF that, of 2]
      request_fits_take [OF that, of 3] request_fits_fits [OF that] by simp
  ultimately show ?thesis by (auto simp: mschapv2_attrs_def)
qed

lemma build_pap_packet_Inr:
  assumes K: "crypto_ok K" and ra: "length ra = 16"
  shows "build_pap_packet K user hidden i ra cf secret = Inr p \<longleftrightarrow>
    request_fits (pap_attrs user hidden cf) \<and> p = access_request K i ra (pap_attrs user hidden cf) secret"
    (is "?L \<longleftrightarrow> ?R")
proof -
  let ?a = "[(USER_NAME, as_bytes user)]" and ?b = "[(USER_NAME, as_bytes user), (USER_PASSWORD, hidden)]"
  have "?L \<longleftrightarrow> fits ?a \<and> fits ?b \<and> fits (?b @ nas_attrs cf) \<and>
      request_fits (?b @ nas_attrs cf) \<and> p = access_request K i ra (?b @ nas_attrs cf) secret"
    unfolding build_pap_packet_def by (auto simp: request_building K ra)
  moreover have "fits ?a \<and> fits ?b \<and> fits (?b @ nas_attrs cf)" if "request_fits (?b @ nas_attrs cf)"
    using request_fits_take [OF that, of 1] request_fits_take [OF that, of 2] request_fits_fits [OF that] by simp
  ultimately show ?thesis by (auto simp: pap_attrs_def)
qed

lemma build_challenge_response_Inr:
  assumes K: "crypto_ok K" and ra: "length ra = 16"
  shows "build_challenge_response K i ra username otp state secret = Inr p \<longleftrightarrow>
    length otp \<le> 128 \<and>
    request_fits (follow_up_attrs username (hide_core K otp secret ra) state) \<and>
    p = access_request K i ra (follow_up_attrs username (hide_core K otp secret ra) state) secret"
proof (cases "length otp \<le> 128")
  case False
  then show ?thesis by (simp add: build_challenge_response_def try_hide_password_def)
next
  case True
  let ?h = "hide_core K otp secret ra"
  let ?a = "[(USER_NAME, username)]" and ?b = "[(USER_NAME, username), (USER_PASSWORD, ?h)]"
  let ?c = "[(USER_NAME, username), (USER_PASSWORD, ?h), (STATE, state)]"
  have "build_challenge_response K i ra username otp state secret = Inr p \<longleftrightarrow>
      fits ?a \<and> fits ?b \<and> fits ?c \<and> request_fits ?c \<and> p = access_request K i ra ?c secret"
    using True unfolding build_challenge_response_def try_hide_password_def
    by (auto simp: request_building K ra)
  moreover have "fits ?a \<and> fits ?b \<and> fits ?c" if "request_fits ?c"
    using request_fits_take [OF that, of 1] request_fits_take [OF that, of 2] request_fits_fits [OF that] by simp
  ultimately show ?thesis using True by (auto simp: follow_up_attrs_def)
qed

lemma build_response_Inr:
  assumes "crypto_ok K" and "length ra = 16"
  shows "build_response K c i ra username otp secret = Inr p \<longleftrightarrow>
    (\<exists>state. ch_state c = Some state \<and> length otp \<le> 128 \<and>
      request_fits (follow_up_attrs username (hide_core K otp secret ra) state) \<and>
      p = access_request K i ra (follow_up_attrs username (hide_core K otp secret ra) state) secret)"
  by (cases "ch_state c") (simp_all add: build_response_def build_challenge_response_Inr assms)

section \<open>What the receiver of a request reads\<close>

lemma request_values: "ma_values (mschapv2_attrs user request cf) = []" "ma_values (pap_attrs user hidden cf) = []"
    "ma_values (follow_up_attrs username hidden state) = []"
  by (simp_all add: mschapv2_attrs_def pap_attrs_def follow_up_attrs_def)

text \<open>
  A request is read back as its attributes followed by one Message-Authenticator, which is the
  HMAC-MD5 of the packet with that value zeroed.
\<close>

lemma access_request_parsed:
  fixes i :: u8 and secret :: bytes
  assumes K: "crypto_ok K" and ra: "length ra = 16" and as: "request_fits as" "ma_values as = []" "wf_attrs as"
  defines "mac \<equiv> message_authenticator K (packet_bytes 1 i ra (as @ [(MESSAGE_AUTHENTICATOR, zeros 16)])) secret"
  shows "parse_response (access_request K i ra as secret) =
    Inr \<lparr>pr_code = 1, pr_id = i, pr_authenticator = ra, pr_attrs = as @ [(MESSAGE_AUTHENTICATOR, mac)]\<rparr>"
proof -
  let ?as = "as @ [(MESSAGE_AUTHENTICATOR, zeros 16)]"
  have len: "length mac = 16" unfolding mac_def by (rule length_message_authenticator [OF K])
  have set: "set_ma m ?as = as @ [(MESSAGE_AUTHENTICATOR, m)]" for m using as(2) by (simp add: set_ma_none)
  have "fits (set_ma mac ?as)" using fits_set_ma [of mac ?as] as(1,2) len by (simp add: request_fits_def)
  moreover have "wf_attrs (set_ma mac ?as)" using as(3) len unfolding set by (simp add: wf_attrs_def)
  ultimately show ?thesis
    unfolding access_request_def filled_def set mac_def [symmetric] using ra by (simp add: parse_packet_bytes)
qed

end
