(* ===== verification/Auth_Trace.thy ===== *)
theory Auth_Trace
  imports Auth_Requests
begin

text \<open>
  What an attempt does to its environment: every call of the random source, the conversation and
  the transport is logged with its result. The relations \<open>mschap_run\<close> and \<open>pap_run\<close> say which logs
  and reports are possible; the flows are proved to follow them, and their properties are by rule
  induction. Erasing the log gives the flow itself.
\<close>

section \<open>The logged environment\<close>

datatype event =
    EvRandom "bytes option"
  | EvInfo rstr "conv_error + unit"
  | EvPrompt rstr "conv_error + secret_string"
  | EvExchange socket_addr bytes "transport_error + bytes"

definition traced_env :: "'w env \<Rightarrow> ('w \<times> event list) env" where
  "traced_env E =
     \<lparr>env_crypto = env_crypto E,
      env_random = logged_io EvRandom (env_random E),
      env_conv =
        \<lparr>cv_info = (\<lambda>text. logged_io (EvInfo text) (cv_info (env_conv E) text)),
         cv_prompt_echo_off = (\<lambda>text. logged_io (EvPrompt text) (cv_prompt_echo_off (env_conv E) text))\<rparr>,
      env_exchange = (\<lambda>server request accept.
        logged_io (EvExchange server request) (env_exchange E server request accept))\<rparr>"

lemma traced_env_simps [simp]:
  "env_crypto (traced_env E) = env_crypto E"
  "env_random (traced_env E) = logged_io EvRandom (env_random E)"
  "cv_info (env_conv (traced_env E)) text = logged_io (EvInfo text) (cv_info (env_conv E) text)"
  "cv_prompt_echo_off (env_conv (traced_env E)) text = logged_io (EvPrompt text) (cv_prompt_echo_off (env_conv E) text)"
  "env_exchange (traced_env E) server request accept =
     logged_io (EvExchange server request) (env_exchange E server request accept)"
  by (simp_all add: traced_env_def)

lemma simulates_fresh [intro, simp]:
  "simulates (fresh_request_authenticator (logged_io EvRandom m)) (fresh_request_authenticator m)"
  unfolding fresh_request_authenticator_def by (intro simulates_seq simulates_logged_io simulates_ret)

lemma simulates_challenges [intro, simp]:
  "simulates (generate_challenges (logged_io EvRandom m)) (generate_challenges m)"
  unfolding generate_challenges_def
  by (intro simulates_attempt simulates_seq simulates_logged_io simulates_ret)

lemma simulates_response_outcome [intro, simp]:
  "simulates (mschapv2_response_outcome (traced_env E) response request) (mschapv2_response_outcome E response request)"
  unfolding mschapv2_response_outcome_def traced_env_simps
  by (auto intro!: simulates_seq split: sum.split option.split code.split)

lemma simulates_mschapv2_servers:
  "simulates (mschapv2_servers (traced_env E) ctx cf notice svs) (mschapv2_servers E ctx cf notice svs)"
proof (induction svs arbitrary: notice)
  case (Cons sv svs)
  show ?case unfolding mschapv2_servers.simps Let_def traced_env_simps
    by (auto intro!: Cons.IH simulates_seq split: sum.split transport_error.split)
qed simp

lemma simulates_pap_loop:
  "simulates (pap_loop (traced_env E) ctx cf addr secret n response) (pap_loop E ctx cf addr secret n response)"
proof (induction n arbitrary: response)
  case (Suc n)
  show ?case unfolding pap_loop.simps Let_def traced_env_simps prompt_response_def
    by (auto intro!: Suc.IH simulates_seq split: sum.split round.split)
qed simp

lemma simulates_pap_servers:
  "simulates (pap_servers (traced_env E) ctx cf svs) (pap_servers E ctx cf svs)"
proof (induction svs)
  case (Cons sv svs)
  show ?case unfolding pap_servers.simps pap_rounds_def Let_def traced_env_simps
    by (auto intro!: Cons.IH simulates_pap_loop simulates_seq split: sum.split transport_error.split)
qed simp

lemma simulates_authenticate_report:
  "simulates (authenticate_report (traced_env E) ctx cf) (authenticate_report E ctx cf)"
  by (simp add: authenticate_report_def mschapv2_flow_def pap_flow_def simulates_mschapv2_servers
      simulates_pap_servers split: protocol.split)

section \<open>Reading a log\<close>

fun exchanged :: "event list \<Rightarrow> (socket_addr \<times> bytes \<times> (transport_error + bytes)) list" where
  "exchanged [] = []"
| "exchanged (EvExchange s b r # tr) = (s, b, r) # exchanged tr"
| "exchanged (_ # tr) = exchanged tr"

fun prompted :: "event list \<Rightarrow> rstr list" where
  "prompted [] = []"
| "prompted (EvPrompt s r # tr) = s # prompted tr"
| "prompted (_ # tr) = prompted tr"

fun informed :: "event list \<Rightarrow> rstr list" where
  "informed [] = []"
| "informed (EvInfo s r # tr) = s # informed tr"
| "informed (_ # tr) = informed tr"

lemma exchanged_append [simp]: "exchanged (xs @ ys) = exchanged xs @ exchanged ys"
  by (induction xs rule: exchanged.induct) auto

lemma prompted_append [simp]: "prompted (xs @ ys) = prompted xs @ prompted ys"
  by (induction xs rule: prompted.induct) auto

lemma informed_append [simp]: "informed (xs @ ys) = informed xs @ informed ys"
  by (induction xs rule: informed.induct) auto

section \<open>The interface of an attempt\<close>

text \<open>
  What the flows rely on: the transport returns what its \<open>accept\<close> took, and the random source
  fills its array of 16 octets.
\<close>

locale auth_env = radius_transport "env_exchange E" for E :: "'w env" +
  assumes random_16: "env_random E w = Returns (Some b) w' \<Longrightarrow> length b = 16"
begin

lemma emits_draw:
  assumes "\<And>ra. length ra = 16 \<Longrightarrow> emits (f (Inr ra)) (\<lambda>b tr. R b (EvRandom (Some ra) # tr))"
    and "emits (f (Inl e)) (\<lambda>b tr. R b (EvRandom None # tr))"
  shows "emits (seq (seq (logged_io EvRandom (env_random E)) (\<lambda>r. ret (ok_or e r))) f) R"
  unfolding seq_assoc seq_ret
proof (rule emits_seq_logged_io [where P = "\<lambda>r. \<forall>b. r = Some b \<longrightarrow> length b = 16"])
  fix r :: "bytes option"
  assume "\<forall>b. r = Some b \<longrightarrow> length b = 16"
  then show "emits (f (ok_or e r)) (\<lambda>b tr. R b (EvRandom r # tr))" using assms by (cases r) simp_all
qed (use random_16 in blast)

lemma emits_fresh:
  assumes "\<And>ra. length ra = 16 \<Longrightarrow> emits (f (Inr ra)) (\<lambda>b tr. R b (EvRandom (Some ra) # tr))"
    and "emits (f (Inl RngError)) (\<lambda>b tr. R b (EvRandom None # tr))"
  shows "emits (seq (fresh_request_authenticator (logged_io EvRandom (env_random E))) f) R"
  unfolding fresh_request_authenticator_def by (rule emits_draw) (use assms in auto)

lemma emits_challenges:
  assumes "\<And>a p. length a = 16 \<Longrightarrow> length p = 16 \<Longrightarrow>
      emits (f (Inr \<lparr>authenticator_challenge = a, peer_challenge = p\<rparr>))
        (\<lambda>b tr. R b (EvRandom (Some a) # EvRandom (Some p) # tr))"
    and "emits (f (Inl MschapRngError)) (\<lambda>b tr. R b (EvRandom None # tr))"
    and "\<And>a. length a = 16 \<Longrightarrow> emits (f (Inl MschapRngError)) (\<lambda>b tr. R b (EvRandom (Some a) # EvRandom None # tr))"
  shows "emits (seq (generate_challenges (logged_io EvRandom (env_random E))) f) R"
proof -
  have "emits (generate_challenges (logged_io EvRandom (env_random E)))
      (\<lambda>r tr. (\<exists>a p. length a = 16 \<and> length p = 16 \<and> tr = [EvRandom (Some a), EvRandom (Some p)] \<and>
           r = Inr \<lparr>authenticator_challenge = a, peer_challenge = p\<rparr>) \<or>
         (r = Inl MschapRngError \<and> (tr = [EvRandom None] \<or> (\<exists>a. length a = 16 \<and> tr = [EvRandom (Some a), EvRandom None]))))"
    unfolding generate_challenges_def attempt_def
    by (intro emits_draw) (auto intro!: emits_draw emits_ret)
  then show ?thesis by (rule emits_seq) (use assms in auto)
qed

end

end
