(* ===== verification/Auth_Runs.thy ===== *)
theory Auth_Runs
  imports Auth_Trace
begin

text \<open>
  The possible runs of the two flows, as inductive relations between the servers left, the report
  and the log, and the proof that the flows follow them. A run contacts servers in order, fails
  over after an explicit error only, and ends with the first server that stops or decides it.
\<close>

definition randoms :: "bytes list \<Rightarrow> event list" where
  "randoms bs = map (\<lambda>b. EvRandom (Some b)) bs"

lemma randoms_simps [simp]: "randoms [] = []" "randoms (b # bs) = EvRandom (Some b) # randoms bs"
  by (simp_all add: randoms_def)

lemma reads_randoms [simp]: "exchanged (randoms bs) = []" "prompted (randoms bs) = []" "informed (randoms bs) = []"
  by (induction bs) simp_all

section \<open>Verdicts\<close>

text \<open>The report for an authentic MSCHAPv2 response, and for a PAP response that is no challenge.\<close>

definition mschap_verdict :: "mschapv2_request \<Rightarrow> parsed_response \<Rightarrow> auth_report" where
  "mschap_verdict request r =
     (if known_code r = Some AccessAccept then
        (if verify_access_accept r (mr_expected_authenticator request) then report_of PamSuccess REASON_SUCCESS
         else report_of PamAuthErr REASON_MUTUAL_AUTH_FAILED)
      else if known_code r = Some AccessReject then report_of PamAuthErr REASON_REJECT
      else report_of PamAuthErr REASON_UNEXPECTED_CODE)"

definition pap_verdict :: "parsed_response \<Rightarrow> auth_report option" where
  "pap_verdict r =
     (if known_code r = Some AccessAccept then Some (report_of PamSuccess REASON_SUCCESS)
      else if known_code r = Some AccessReject then Some (report_of PamAuthErr REASON_REJECT)
      else if known_code r = Some AccessChallenge then
        (if is_ok (challenge_from_response r) then None else Some (report_of PamAuthErr REASON_BAD_CHALLENGE))
      else Some (report_of PamAuthErr REASON_UNEXPECTED_CODE))"

lemma mschap_verdict_success:
  "rp_outcome (mschap_verdict request r) = PamSuccess \<longleftrightarrow>
     known_code r = Some AccessAccept \<and> verify_access_accept r (mr_expected_authenticator request)"
  by (simp add: mschap_verdict_def report_of_def)

lemma pap_verdict_success:
  "pap_verdict r = Some rep \<Longrightarrow> rp_outcome rep = PamSuccess \<longleftrightarrow> known_code r = Some AccessAccept"
  by (auto simp: pap_verdict_def report_of_def split: if_splits)

lemma pap_round_eq:
  "parse_response d = Inr r \<Longrightarrow>
     pap_round d = Inr (case pap_verdict r of Some rep \<Rightarrow> Done rep
                        | None \<Rightarrow> Challenge (projr (challenge_from_response r)))"
  by (auto simp: pap_round_def pap_verdict_def split: option.split code.split sum.split)

lemma pap_verdict_None: "pap_verdict r = None \<Longrightarrow> \<exists>c. challenge_from_response r = Inr c"
  by (auto simp: pap_verdict_def is_ok_iff split: if_splits)

lemma report_simps [simp]:
  "rp_outcome (report_of out why) = out" "rp_reason (report_of out why) = why" "rp_server (report_of out why) = None"
  "rp_outcome (with_server rep addr) = rp_outcome rep" "rp_reason (with_server rep addr) = rp_reason rep"
  "rp_server (with_server rep addr) = Some addr"
  by (simp_all add: report_of_def with_server_def)

section \<open>MSCHAPv2 runs\<close>

definition mschap_request :: "crypto \<Rightarrow> attempt_context \<Rightarrow> bytes \<Rightarrow> challenges \<Rightarrow> mschapv2_request" where
  "mschap_request K ctx ra ch =
     build_request K (as_bytes (ac_username ctx)) (expose_secret (ac_password ctx)) ch (ra ! 0)"

text \<open>The events before a request is sent to a server.\<close>

definition mschap_opened ::
  "crypto \<Rightarrow> attempt_context \<Rightarrow> config \<Rightarrow> bool \<Rightarrow> server \<Rightarrow> bytes \<Rightarrow> challenges \<Rightarrow> bytes \<Rightarrow> event list \<Rightarrow> bool" where
  "mschap_opened K ctx cf notice sv ra ch packet tr \<longleftrightarrow>
     length ra = 16 \<and> length (authenticator_challenge ch) = 16 \<and> length (peer_challenge ch) = 16 \<and>
     tr = randoms [ra, authenticator_challenge ch, peer_challenge ch]
          @ (if notice then [] else [EvInfo PUSH_NOTICE (Inr ())]) \<and>
     build_mschapv2_packet K (ac_username ctx) (mschap_request K ctx ra ch) (ra ! 0) ra cf (secret_of sv) = Inr packet"

definition mschap_stopped :: "bool \<Rightarrow> event list \<Rightarrow> auth_report \<Rightarrow> bool" where
  "mschap_stopped notice tr rep \<longleftrightarrow>
     (\<exists>bs. tr = randoms bs @ [EvRandom None] \<and> rep = report_of PamUnavail REASON_RNG_FAILURE) \<or>
     (\<exists>bs. tr = randoms bs \<and> rep = report_of PamUnavail REASON_ENCODE_FAILURE) \<or>
     (\<exists>bs. \<not> notice \<and> tr = randoms bs @ [EvInfo PUSH_NOTICE (Inl ConvFailed)] \<and>
        rep = report_of PamConvErr REASON_CONV_ERROR)"

fun mschap_decides ::
  "crypto \<Rightarrow> attempt_context \<Rightarrow> config \<Rightarrow> server \<Rightarrow> bytes \<Rightarrow> challenges \<Rightarrow> transport_error + bytes \<Rightarrow>
   auth_report \<Rightarrow> event list \<Rightarrow> bool" where
  "mschap_decides K ctx cf sv ra ch (Inl Unreachable) rep tr \<longleftrightarrow> False"
| "mschap_decides K ctx cf sv ra ch (Inl Timeout) rep tr \<longleftrightarrow> rep = report_of PamUnavail REASON_TIMEOUT \<and> tr = []"
| "mschap_decides K ctx cf sv ra ch (Inl Io) rep tr \<longleftrightarrow> rep = report_of PamUnavail REASON_IO_ERROR \<and> tr = []"
| "mschap_decides K ctx cf sv ra ch (Inr d) rep tr \<longleftrightarrow>
     (\<exists>r. parse_response d = Inr r \<and> authentic_response K (attempt_binding cf (ra ! 0) ra) (secret_of sv) r \<and>
        rep = mschap_verdict (mschap_request K ctx ra ch) r \<and>
        (tr = [] \<or> (known_code r = Some AccessReject \<and> (\<exists>x. tr = [EvInfo PASSWORD_EXPIRED_NOTICE x]))))"

inductive mschap_run ::
  "crypto \<Rightarrow> attempt_context \<Rightarrow> config \<Rightarrow> bool \<Rightarrow> server list \<Rightarrow> auth_report \<Rightarrow> event list \<Rightarrow> bool"
  for K ctx cf where
  exhausted: "mschap_run K ctx cf notice [] (report_of PamUnavail REASON_ALL_UNREACHABLE) []"
| stopped: "mschap_stopped notice tr rep \<Longrightarrow> mschap_run K ctx cf notice (sv # svs) (with_server rep (sv_addr sv)) tr"
| failover: "mschap_opened K ctx cf notice sv ra ch packet tr \<Longrightarrow> mschap_run K ctx cf True svs rep tr' \<Longrightarrow>
    mschap_run K ctx cf notice (sv # svs) rep (tr @ EvExchange (sv_addr sv) packet (Inl Unreachable) # tr')"
| decided: "mschap_opened K ctx cf notice sv ra ch packet tr \<Longrightarrow> mschap_decides K ctx cf sv ra ch res rep tr' \<Longrightarrow>
    mschap_run K ctx cf notice (sv # svs) (with_server rep (sv_addr sv))
      (tr @ EvExchange (sv_addr sv) packet res # tr')"

inductive_cases mschap_run_NilE: "mschap_run K ctx cf notice [] rep tr"
inductive_cases mschap_run_ConsE: "mschap_run K ctx cf notice (sv # svs) rep tr"

section \<open>PAP runs\<close>

definition pap_opened ::
  "crypto \<Rightarrow> attempt_context \<Rightarrow> config \<Rightarrow> server \<Rightarrow> bytes \<Rightarrow> bytes \<Rightarrow> event list \<Rightarrow> bool" where
  "pap_opened K ctx cf sv ra packet tr \<longleftrightarrow>
     length ra = 16 \<and> tr = randoms [ra] \<and>
     length (as_bytes (expose_secret (ac_password ctx))) \<le> 128 \<and>
     build_pap_packet K (ac_username ctx)
       (hide_core K (as_bytes (expose_secret (ac_password ctx))) (secret_of sv) ra) (ra ! 0) ra cf (secret_of sv) = Inr packet"

definition pap_stopped :: "event list \<Rightarrow> auth_report \<Rightarrow> bool" where
  "pap_stopped tr rep \<longleftrightarrow>
     (tr = [EvRandom None] \<and> rep = report_of PamUnavail REASON_RNG_FAILURE) \<or>
     (\<exists>ra. tr = randoms [ra] \<and>
        (rep = report_of PamAuthErr REASON_PASSWORD_UNREPRESENTABLE \<or> rep = report_of PamUnavail REASON_ENCODE_FAILURE))"

text \<open>The events of a challenge that is answered, and of one that is not.\<close>

definition pap_answered ::
  "crypto \<Rightarrow> attempt_context \<Rightarrow> bytes \<Rightarrow> challenge \<Rightarrow> secret_string \<Rightarrow> bytes \<Rightarrow> bytes \<Rightarrow> event list \<Rightarrow> bool" where
  "pap_answered K ctx secret c code ra packet tr \<longleftrightarrow>
     length ra = 16 \<and> \<not> secret_string_is_empty code \<and>
     tr = [EvPrompt (otp_prompt (ch_prompt c)) (Inr code), EvRandom (Some ra)] \<and>
     build_response K c (ra ! 0) ra (as_bytes (ac_username ctx)) (as_bytes (expose_secret code)) secret = Inr packet"

definition pap_unanswered :: "challenge \<Rightarrow> event list \<Rightarrow> auth_report \<Rightarrow> bool" where
  "pap_unanswered c tr rep \<longleftrightarrow>
     (\<exists>x tr'. tr = EvPrompt (otp_prompt (ch_prompt c)) x # tr' \<and> exchanged tr' = [] \<and> prompted tr' = [] \<and>
        informed tr' = [] \<and> length tr' \<le> 1) \<and>
     rp_outcome rep \<noteq> PamSuccess \<and> rp_reason rep \<noteq> REASON_MAX_ROUNDS"

inductive pap_rounds_run ::
  "crypto \<Rightarrow> attempt_context \<Rightarrow> config \<Rightarrow> socket_addr \<Rightarrow> bytes \<Rightarrow> nat \<Rightarrow> parsed_response \<Rightarrow> auth_report \<Rightarrow> event list \<Rightarrow> bool"
  for K ctx cf addr secret where
  too_many: "pap_rounds_run K ctx cf addr secret 0 r (report_of PamAuthErr REASON_MAX_ROUNDS) []"
| verdict: "pap_verdict r = Some rep \<Longrightarrow> pap_rounds_run K ctx cf addr secret (Suc n) r rep []"
| unanswered: "pap_verdict r = None \<Longrightarrow> challenge_from_response r = Inr c \<Longrightarrow> pap_unanswered c tr rep \<Longrightarrow>
    pap_rounds_run K ctx cf addr secret (Suc n) r rep tr"
| failed: "pap_verdict r = None \<Longrightarrow> challenge_from_response r = Inr c \<Longrightarrow> pap_answered K ctx secret c code ra packet tr \<Longrightarrow>
    pap_rounds_run K ctx cf addr secret (Suc n) r (report_of PamUnavail REASON_TRANSPORT_ERROR)
      (tr @ [EvExchange addr packet (Inl e)])"
| answered: "pap_verdict r = None \<Longrightarrow> challenge_from_response r = Inr c \<Longrightarrow> pap_answered K ctx secret c code ra packet tr \<Longrightarrow>
    parse_response d = Inr r' \<Longrightarrow> authentic_response K (attempt_binding cf (ra ! 0) ra) secret r' \<Longrightarrow>
    pap_rounds_run K ctx cf addr secret n r' rep tr' \<Longrightarrow>
    pap_rounds_run K ctx cf addr secret (Suc n) r rep (tr @ EvExchange addr packet (Inr d) # tr')"

inductive pap_run ::
  "crypto \<Rightarrow> attempt_context \<Rightarrow> config \<Rightarrow> server list \<Rightarrow> auth_report \<Rightarrow> event list \<Rightarrow> bool"
  for K ctx cf where
  exhausted: "pap_run K ctx cf [] (report_of PamUnavail REASON_ALL_UNREACHABLE) []"
| stopped: "pap_stopped tr rep \<Longrightarrow> pap_run K ctx cf (sv # svs) (with_server rep (sv_addr sv)) tr"
| failover: "pap_opened K ctx cf sv ra packet tr \<Longrightarrow> pap_run K ctx cf svs rep tr' \<Longrightarrow>
    pap_run K ctx cf (sv # svs) rep (tr @ EvExchange (sv_addr sv) packet (Inl Unreachable) # tr')"
| failed: "pap_opened K ctx cf sv ra packet tr \<Longrightarrow> e \<noteq> Unreachable \<Longrightarrow>
    pap_run K ctx cf (sv # svs)
      (with_server (report_of PamUnavail (if e = Timeout then REASON_TIMEOUT else REASON_IO_ERROR)) (sv_addr sv))
      (tr @ [EvExchange (sv_addr sv) packet (Inl e)])"
| owned: "pap_opened K ctx cf sv ra packet tr \<Longrightarrow> parse_response d = Inr r \<Longrightarrow>
    authentic_response K (attempt_binding cf (ra ! 0) ra) (secret_of sv) r \<Longrightarrow>
    pap_rounds_run K ctx cf (sv_addr sv) (secret_of sv) 8 r rep tr' \<Longrightarrow>
    pap_run K ctx cf (sv # svs) (with_server rep (sv_addr sv)) (tr @ EvExchange (sv_addr sv) packet (Inr d) # tr')"

section \<open>The flows follow them\<close>

context auth_env
begin

lemma emits_exchange:
  assumes "\<And>e. emits (f (Inl e)) (\<lambda>b tr. R b (EvExchange addr packet (Inl e) # tr))"
    and "\<And>d r. parse_response d = Inr r \<Longrightarrow> authentic_response K binding secret r \<Longrightarrow>
      emits (f (Inr d)) (\<lambda>b tr. R b (EvExchange addr packet (Inr d) # tr))"
  shows "emits (seq (logged_io (EvExchange addr packet)
      (env_exchange E addr packet (\<lambda>d. verify_response K binding d secret))) f) R"
proof (rule emits_seq_logged_io [where P = "\<lambda>res. \<forall>d. res = Inr d \<longrightarrow> verify_response K binding d secret"])
  fix res :: "transport_error + bytes"
  assume "\<forall>d. res = Inr d \<longrightarrow> verify_response K binding d secret"
  then show "emits (f res) (\<lambda>b tr. R b (EvExchange addr packet res # tr))"
    using assms by (cases res) (auto simp: verify_response_iff)
qed (use exchange_accepted in blast)

lemma emits_info:
  "(\<And>x. emits (f x) (\<lambda>b tr. R b (EvInfo text x # tr))) \<Longrightarrow> emits (seq (logged_io (EvInfo text) m) f) R"
  by (rule emits_seq_logged_io [where P = "\<lambda>_. True"]) auto

lemma emits_prompt:
  "(\<And>x. emits (f x) (\<lambda>b tr. R b (EvPrompt text x # tr))) \<Longrightarrow> emits (seq (logged_io (EvPrompt text) m) f) R"
  by (rule emits_seq_logged_io [where P = "\<lambda>_. True"]) auto

lemma emits_response_outcome:
  assumes "parse_response d = Inr r" and "authentic_response K (attempt_binding cf (ra ! 0) ra) (secret_of sv) r"
  shows "emits (mschapv2_response_outcome (traced_env E) d (mschap_request K ctx ra ch))
    (mschap_decides K ctx cf sv ra ch (Inr d))"
proof -
  have "emits (mschapv2_response_outcome (traced_env E) d (mschap_request K ctx ra ch))
     (\<lambda>rep tr. rep = mschap_verdict (mschap_request K ctx ra ch) r \<and>
        (tr = [] \<or> (known_code r = Some AccessReject \<and> (\<exists>x. tr = [EvInfo PASSWORD_EXPIRED_NOTICE x]))))"
    unfolding mschapv2_response_outcome_def assms(1) sum.case traced_env_simps mschap_verdict_def
    by (auto simp: seq_assoc intro!: emits_ret emits_Returns emits_info split: option.split code.split)
  then show ?thesis by (rule emits_mono) (use assms in auto)
qed

text \<open>The exchange with one server, after the events \<open>pre\<close>.\<close>

lemma emits_mschap_exchange:
  assumes opened: "mschap_opened (env_crypto E) ctx cf notice sv ra ch packet pre"
    and rest: "emits (mschapv2_servers (traced_env E) ctx cf True svs) (mschap_run (env_crypto E) ctx cf True svs)"
  shows "emits (seq (logged_io (EvExchange (sv_addr sv) packet) (env_exchange E (sv_addr sv) packet
        (\<lambda>d. verify_response (env_crypto E) (attempt_binding cf (ra ! 0) ra) d (secret_of sv))))
      (\<lambda>r. case r of
           Inl Unreachable \<Rightarrow> mschapv2_servers (traced_env E) ctx cf True svs
         | Inl Timeout \<Rightarrow> ret (with_server (report_of PamUnavail REASON_TIMEOUT) (sv_addr sv))
         | Inl Io \<Rightarrow> ret (with_server (report_of PamUnavail REASON_IO_ERROR) (sv_addr sv))
         | Inr response \<Rightarrow>
             seq (mschapv2_response_outcome (traced_env E) response (mschap_request (env_crypto E) ctx ra ch))
               (\<lambda>rep. ret (with_server rep (sv_addr sv)))))
      (\<lambda>rep tr. mschap_run (env_crypto E) ctx cf notice (sv # svs) rep (pre @ tr))"
proof (rule emits_exchange, goal_cases)
  case (1 e)
  show ?case
  proof (cases e)
    case Unreachable
    show ?thesis unfolding Unreachable sum.case transport_error.case
      by (rule emits_mono [OF rest]) (rule mschap_run.failover [OF opened])
  qed (auto intro!: emits_ret mschap_run.decided [OF opened])
next
  case (2 d r)
  show ?case unfolding sum.case
    by (rule emits_seq [OF emits_response_outcome [OF 2]])
      (auto intro!: emits_ret mschap_run.decided [OF opened] simp del: mschap_decides.simps)
qed

lemma mschapv2_servers_run:
  "emits (mschapv2_servers (traced_env E) ctx cf notice svs) (mschap_run (env_crypto E) ctx cf notice svs)"
proof (induction svs arbitrary: notice)
  case Nil
  show ?case unfolding mschapv2_servers.simps by (rule emits_ret) (rule mschap_run.exhausted)
next
  case (Cons sv svs)
  let ?K = "env_crypto E"
  have stop: "emits (ret (with_server rep (sv_addr sv))) (\<lambda>rep' tr'. mschap_run ?K ctx cf notice (sv # svs) rep' (tr @ tr'))"
    if "mschap_stopped notice tr rep" for tr rep
    using that by (intro emits_ret) (simp add: mschap_run.stopped)
  have rng: "mschap_stopped notice (randoms bs @ [EvRandom None]) (report_of PamUnavail REASON_RNG_FAILURE)" for bs
    by (auto simp: mschap_stopped_def)
  show ?case unfolding mschapv2_servers.simps Let_def traced_env_simps
  proof (rule emits_fresh, goal_cases)
    case (1 ra)
    note ra = 1
    show ?case unfolding sum.case
    proof (rule emits_challenges, goal_cases)
      case (1 a p)
      let ?ch = "\<lparr>authenticator_challenge = a, peer_challenge = p\<rparr>"
      let ?req = "build_request ?K (as_bytes (ac_username ctx)) (expose_secret (ac_password ctx)) ?ch (ra ! 0)"
      have req: "?req = mschap_request ?K ctx ra ?ch" by (simp add: mschap_request_def)
      show ?case
      proof (cases "build_mschapv2_packet ?K (ac_username ctx) (mschap_request ?K ctx ra ?ch) (ra ! 0) ra cf (secret_of sv)")
        case (Inl e)
        have "mschap_stopped notice (randoms [ra, a, p]) (report_of PamUnavail REASON_ENCODE_FAILURE)"
          unfolding mschap_stopped_def by blast
        from stop [OF this] show ?thesis unfolding sum.case req Inl by simp
      next
        case (Inr packet)
        have "mschap_opened ?K ctx cf notice sv ra ?ch packet
            (randoms [ra, a, p] @ (if notice then [] else [EvInfo PUSH_NOTICE (Inr ())]))"
          using Inr 1 ra by (simp add: mschap_opened_def)
        note sent = emits_mschap_exchange [OF this Cons.IH]
        show ?thesis
        proof (cases notice)
          case True
          then show ?thesis using sent unfolding sum.case req Inr by simp
        next
          case False
          have "mschap_stopped notice (randoms [ra, a, p] @ [EvInfo PUSH_NOTICE (Inl e)]) (report_of PamConvErr REASON_CONV_ERROR)" for e
            unfolding mschap_stopped_def using False by (cases e) blast
          from stop [OF this] show ?thesis
            using False sent unfolding sum.case req Inr by (auto intro!: emits_info split: sum.split)
        qed
      qed
    next
      case 2
      show ?case using stop [OF rng [of "[ra]"]] by simp
    next
      case (3 a)
      show ?case using stop [OF rng [of "[ra, a]"]] by simp
    qed
  next
    case 2
    show ?case using stop [OF rng [of "[]"]] by simp
  qed
qed

text \<open>A challenge, from the prompt on, with the loop's continuation \<open>again\<close>.\<close>

lemma emits_unanswered:
  assumes "pap_verdict r = None" and "challenge_from_response r = Inr c" and "rp_outcome rep \<noteq> PamSuccess"
    and "rp_reason rep \<noteq> REASON_MAX_ROUNDS" and "exchanged tr = []" and "prompted tr = []" and "informed tr = []" and "length tr \<le> 1"
  shows "emits (ret rep) (\<lambda>rep' tr'. pap_rounds_run K ctx cf addr secret (Suc n) r rep'
    (EvPrompt (otp_prompt (ch_prompt c)) x # tr @ tr'))"
  using assms by (intro emits_ret pap_rounds_run.unanswered [OF assms(1,2)]) (simp add: pap_unanswered_def)

lemma emits_answer:
  assumes r: "pap_verdict r = None" "challenge_from_response r = Inr c" and code: "\<not> secret_string_is_empty code"
    and again: "\<And>d r'. parse_response d = Inr r' \<Longrightarrow>
      emits (again d) (pap_rounds_run (env_crypto E) ctx cf addr secret n r')"
  shows "emits (seq (fresh_request_authenticator (logged_io EvRandom (env_random E))) (\<lambda>x. case x of
        Inl _ \<Rightarrow> ret (report_of PamUnavail REASON_RNG_FAILURE)
      | Inr ra \<Rightarrow>
      case build_response (env_crypto E) c (ra ! 0) ra (as_bytes (ac_username ctx)) (as_bytes (expose_secret code)) secret of
        Inl _ \<Rightarrow> ret (report_of PamAuthErr REASON_CHALLENGE_UNANSWERABLE)
      | Inr follow_up \<Rightarrow>
      seq (logged_io (EvExchange addr follow_up) (env_exchange E addr follow_up
          (\<lambda>d. verify_response (env_crypto E) (attempt_binding cf (ra ! 0) ra) d secret))) (\<lambda>x. case x of
        Inr response' \<Rightarrow> again response'
      | Inl _ \<Rightarrow> ret (report_of PamUnavail REASON_TRANSPORT_ERROR))))
    (\<lambda>rep tr. pap_rounds_run (env_crypto E) ctx cf addr secret (Suc n) r rep
      (EvPrompt (otp_prompt (ch_prompt c)) (Inr code) # tr))"
proof (rule emits_fresh, goal_cases)
  case (1 ra)
  show ?case
  proof (cases "build_response (env_crypto E) c (ra ! 0) ra (as_bytes (ac_username ctx)) (as_bytes (expose_secret code)) secret")
    case (Inl e)
    then show ?thesis
      using emits_unanswered [OF r, of "report_of PamAuthErr REASON_CHALLENGE_UNANSWERABLE" "[EvRandom (Some ra)]"] by simp
  next
    case (Inr packet)
    have ans: "pap_answered (env_crypto E) ctx secret c code ra packet
        [EvPrompt (otp_prompt (ch_prompt c)) (Inr code), EvRandom (Some ra)]"
      using 1 code Inr by (simp add: pap_answered_def)
    show ?thesis unfolding Inr sum.case
    proof (rule emits_exchange, goal_cases)
      case (1 e)
      show ?case using pap_rounds_run.failed [OF r ans] by (auto intro!: emits_ret)
    next
      case (2 d' r')
      show ?case unfolding sum.case
        by (rule emits_mono [OF again [OF 2(1)]]) (use pap_rounds_run.answered [OF r ans 2] in auto)
    qed
  qed
next
  case 2
  show ?case using emits_unanswered [OF r, of "report_of PamUnavail REASON_RNG_FAILURE" "[EvRandom None]"] by simp
qed

lemma pap_loop_run:
  "parse_response d = Inr r \<Longrightarrow>
     emits (pap_loop (traced_env E) ctx cf addr secret n d) (pap_rounds_run (env_crypto E) ctx cf addr secret n r)"
proof (induction n arbitrary: d r)
  case 0
  show ?case unfolding pap_loop.simps by (rule emits_ret) (rule pap_rounds_run.too_many)
next
  case (Suc n)
  show ?case
  proof (cases "pap_verdict r")
    case (Some rep)
    show ?thesis unfolding pap_loop.simps pap_round_eq [OF Suc.prems] Some option.case sum.case round.case
      by (rule emits_ret) (rule pap_rounds_run.verdict [OF Some])
  next
    case None
    then obtain c where c: "challenge_from_response r = Inr c" using pap_verdict_None by blast
    show ?thesis
      unfolding pap_loop.simps pap_round_eq [OF Suc.prems] None option.case sum.case round.case c projr_def Let_def
        prompt_response_def traced_env_simps
    proof (rule emits_prompt, goal_cases)
      case (1 x)
      show ?case
      proof (cases x)
        case (Inl e)
        show ?thesis
          using emits_unanswered [OF None c, of "report_of PamConvErr REASON_CONV_ERROR" "[]"] unfolding Inl sum.case by simp
      next
        case (Inr code)
        show ?thesis
        proof (cases "secret_string_is_empty code")
          case True
          then show ?thesis
            using emits_unanswered [OF None c, of "report_of PamAuthErr REASON_EMPTY_OTP" "[]"] unfolding Inr sum.case by simp
        next
          case False
          show ?thesis unfolding Inr sum.case if_not_P [OF False]
            by (rule emits_answer [OF None c False]) (rule Suc.IH)
        qed
      qed
    qed
  qed
qed

lemma emits_pap_exchange:
  assumes opened: "pap_opened (env_crypto E) ctx cf sv ra packet pre"
    and rest: "emits (pap_servers (traced_env E) ctx cf svs) (pap_run (env_crypto E) ctx cf svs)"
  shows "emits (seq (logged_io (EvExchange (sv_addr sv) packet) (env_exchange E (sv_addr sv) packet
        (\<lambda>d. verify_response (env_crypto E) (attempt_binding cf (ra ! 0) ra) d (secret_of sv))))
      (\<lambda>r. case r of
           Inl Unreachable \<Rightarrow> pap_servers (traced_env E) ctx cf svs
         | Inl Timeout \<Rightarrow> ret (with_server (report_of PamUnavail REASON_TIMEOUT) (sv_addr sv))
         | Inl Io \<Rightarrow> ret (with_server (report_of PamUnavail REASON_IO_ERROR) (sv_addr sv))
         | Inr response \<Rightarrow>
             seq (pap_rounds (traced_env E) ctx cf (sv_addr sv) (secret_of sv) response)
               (\<lambda>rep. ret (with_server rep (sv_addr sv)))))
      (\<lambda>rep tr. pap_run (env_crypto E) ctx cf (sv # svs) rep (pre @ tr))"
proof (rule emits_exchange, goal_cases)
  case (1 e)
  show ?case
  proof (cases e)
    case Unreachable
    show ?thesis unfolding Unreachable sum.case transport_error.case
      by (rule emits_mono [OF rest]) (rule pap_run.failover [OF opened])
  next
    case Timeout
    then show ?thesis using pap_run.failed [OF opened, of Timeout svs] by (auto intro!: emits_ret)
  next
    case Io
    then show ?thesis using pap_run.failed [OF opened, of Io svs] by (auto intro!: emits_ret)
  qed
next
  case (2 d r)
  show ?case unfolding sum.case pap_rounds_def
    by (rule emits_seq [OF pap_loop_run [OF 2(1)]]) (auto intro!: emits_ret pap_run.owned [OF opened 2])
qed

lemma pap_servers_run: "emits (pap_servers (traced_env E) ctx cf svs) (pap_run (env_crypto E) ctx cf svs)"
proof (induction svs)
  case Nil
  show ?case unfolding pap_servers.simps by (rule emits_ret) (rule pap_run.exhausted)
next
  case (Cons sv svs)
  let ?K = "env_crypto E"
  have stop: "emits (ret (with_server rep (sv_addr sv))) (\<lambda>rep' tr'. pap_run ?K ctx cf (sv # svs) rep' (tr @ tr'))"
    if "pap_stopped tr rep" for tr rep
    using that by (intro emits_ret) (simp add: pap_run.stopped)
  show ?case unfolding pap_servers.simps Let_def traced_env_simps
  proof (rule emits_fresh, goal_cases)
    case (1 ra)
    let ?pw = "as_bytes (expose_secret (ac_password ctx))"
    have s: "pap_stopped (randoms [ra]) (report_of PamAuthErr REASON_PASSWORD_UNREPRESENTABLE)"
      "pap_stopped (randoms [ra]) (report_of PamUnavail REASON_ENCODE_FAILURE)"
      unfolding pap_stopped_def by blast+
    show ?case
    proof (cases "length ?pw \<le> 128")
      case False
      then show ?thesis using stop [OF s(1)] by (simp add: try_hide_password_def)
    next
      case True
      then have h: "try_hide_password ?K ?pw (secret_of sv) ra = Inr (hide_core ?K ?pw (secret_of sv) ra)"
        by (simp add: try_hide_password_def)
      show ?thesis
      proof (cases "build_pap_packet ?K (ac_username ctx) (hide_core ?K ?pw (secret_of sv) ra) (ra ! 0) ra cf (secret_of sv)")
        case (Inl e)
        then show ?thesis using stop [OF s(2)] by (simp add: h)
      next
        case (Inr packet)
        have "pap_opened ?K ctx cf sv ra packet (randoms [ra])"
          using 1 True Inr by (simp add: pap_opened_def)
        from emits_pap_exchange [OF this Cons.IH] show ?thesis unfolding sum.case h Inr by simp
      qed
    qed
  next
    case 2
    have "pap_stopped [EvRandom None] (report_of PamUnavail REASON_RNG_FAILURE)" by (simp add: pap_stopped_def)
    from stop [OF this] show ?case by simp
  qed
qed

end

section \<open>A whole attempt\<close>

definition attempt_run :: "crypto \<Rightarrow> attempt_context \<Rightarrow> config \<Rightarrow> auth_report \<Rightarrow> event list \<Rightarrow> bool" where
  "attempt_run K ctx cf rep tr \<longleftrightarrow>
     (if ac_username ctx = [] then tr = [] \<and> rep = report_of PamAuthErr REASON_EMPTY_USERNAME
      else if secret_string_is_empty (ac_password ctx) then tr = [] \<and> rep = report_of PamAuthErr REASON_EMPTY_PASSWORD
      else if cf_servers cf = [] then tr = [] \<and> rep = report_of PamUnavail REASON_NO_SERVERS
      else case cf_protocol cf of
             Mschapv2 \<Rightarrow> mschap_run K ctx cf False (cf_servers cf) rep tr
           | Pap \<Rightarrow> pap_run K ctx cf (cf_servers cf) rep tr)"

context auth_env
begin

lemma authenticate_report_run:
  "emits (authenticate_report (traced_env E) ctx cf) (attempt_run (env_crypto E) ctx cf)"
  unfolding authenticate_report_def attempt_run_def mschapv2_flow_def pap_flow_def
  using mschapv2_servers_run pap_servers_run
  by (auto intro!: emits_ret emits_Returns split: protocol.split)

text \<open>Every attempt that returns has a log its report is explained by.\<close>

lemma attempt_explained:
  assumes "authenticate_report E ctx cf w = Returns rep w'"
  obtains tr where "authenticate_report (traced_env E) ctx cf (w, []) = Returns rep (w', tr)"
    and "attempt_run (env_crypto E) ctx cf rep tr"
proof -
  have "erase (authenticate_report (traced_env E) ctx cf (w, [])) = Returns rep w'"
    using simulates_authenticate_report [of E ctx cf] assms by (simp add: simulates_def)
  then obtain s where s: "authenticate_report (traced_env E) ctx cf (w, []) = Returns rep s" "fst s = w'"
    by (cases "authenticate_report (traced_env E) ctx cf (w, [])") auto
  obtain tr where tr: "authenticate_report (traced_env E) ctx cf (w, []) = Returns rep (w', tr)"
    using s by (cases s) auto
  from emitsD [OF authenticate_report_run tr] that [OF tr] show ?thesis by auto
qed

end

end
