(* ===== verification/Auth_Safety.thy ===== *)
theory Auth_Safety
  imports Auth_Runs "HOL-Library.Sublist"
begin

text \<open>
  What the runs of the two flows guarantee of a success, by rule induction: the last event of the log
  is an authentic Accept for the request just sent, which carries the identifier and the
  authenticator that the response is checked against and is the request of the protocol.
\<close>

lemma opened_reads:
  assumes "mschap_opened K ctx cf notice sv ra ch packet tr"
  shows "exchanged tr = []" "prompted tr = []" "informed tr = (if notice then [] else [PUSH_NOTICE])"
  using assms by (auto simp: mschap_opened_def)

lemma stopped_reads:
  assumes "mschap_stopped notice tr rep"
  shows "exchanged tr = []" "prompted tr = []" "informed tr = [] \<or> \<not> notice \<and> informed tr = [PUSH_NOTICE]"
    "rp_outcome rep \<noteq> PamSuccess"
  using assms by (auto simp: mschap_stopped_def)

lemma decides_reads:
  assumes "mschap_decides K ctx cf sv ra ch res rep tr"
  shows "exchanged tr = []" "prompted tr = []" "informed tr = [] \<or> informed tr = [PASSWORD_EXPIRED_NOTICE]"
    "res \<noteq> Inl Unreachable"
  using assms by (induction K ctx cf sv ra ch res rep tr rule: mschap_decides.induct) auto

lemma pap_opened_reads:
  assumes "pap_opened K ctx cf sv ra packet tr"
  shows "exchanged tr = []" "prompted tr = []" "informed tr = []"
  using assms by (auto simp: pap_opened_def)

lemma pap_stopped_reads:
  assumes "pap_stopped tr rep"
  shows "exchanged tr = []" "prompted tr = []" "informed tr = []" "rp_outcome rep \<noteq> PamSuccess"
  using assms by (auto simp: pap_stopped_def)

lemma pap_answered_reads:
  assumes "pap_answered K ctx secret c code ra packet tr"
  shows "exchanged tr = []" "prompted tr = [otp_prompt (ch_prompt c)]" "informed tr = []"
  using assms by (auto simp: pap_answered_def)

lemma pap_unanswered_reads:
  assumes "pap_unanswered c tr rep"
  shows "exchanged tr = []" "prompted tr = [otp_prompt (ch_prompt c)]" "informed tr = []" "rp_outcome rep \<noteq> PamSuccess"
  using assms by (auto simp: pap_unanswered_def)

lemmas mschap_reads = opened_reads(1,2) stopped_reads(1,2) decides_reads(1,2)

lemmas pap_reads = pap_opened_reads pap_stopped_reads(1-3) pap_answered_reads pap_unanswered_reads(1-3)

section \<open>The packets sent\<close>

lemma opened_packet:
  assumes "crypto_ok K" and "mschap_opened K ctx cf notice sv ra ch packet tr"
  shows "request_fits (mschapv2_attrs (ac_username ctx) (mschap_request K ctx ra ch) cf)"
    and "packet = access_request K (ra ! 0) ra (mschapv2_attrs (ac_username ctx) (mschap_request K ctx ra ch) cf) (secret_of sv)"
  using assms by (auto simp: mschap_opened_def build_mschapv2_packet_Inr)

definition hidden_with :: "crypto \<Rightarrow> secret_string \<Rightarrow> bytes \<Rightarrow> bytes \<Rightarrow> bytes" where
  "hidden_with K s secret ra = hide_core K (as_bytes (expose_secret s)) secret ra"

lemma pap_opened_packet:
  assumes "crypto_ok K" and "pap_opened K ctx cf sv ra packet tr"
  shows "request_fits (pap_attrs (ac_username ctx) (hidden_with K (ac_password ctx) (secret_of sv) ra) cf)"
    and "packet = access_request K (ra ! 0) ra
      (pap_attrs (ac_username ctx) (hidden_with K (ac_password ctx) (secret_of sv) ra) cf) (secret_of sv)"
  using assms by (auto simp: pap_opened_def build_pap_packet_Inr hidden_with_def)

lemma pap_answered_packet:
  assumes "crypto_ok K" and "pap_answered K ctx secret c code ra packet tr"
  obtains state where "ch_state c = Some state"
    and "request_fits (follow_up_attrs (as_bytes (ac_username ctx)) (hidden_with K code secret ra) state)"
    and "packet = access_request K (ra ! 0) ra
      (follow_up_attrs (as_bytes (ac_username ctx)) (hidden_with K code secret ra) state) secret"
  using assms that by (auto simp: pap_answered_def build_response_Inr hidden_with_def)

lemma access_request_slice [simp]:
  "length ra = 16 \<Longrightarrow> slice 4 20 (access_request K i ra as secret) = ra" "access_request K i ra as secret ! 1 = i"
  "access_request K i ra as secret ! Suc 0 = i"
proof -
  have "packet_bytes c i auth as ! Suc 0 = i" for c i auth as by (simp add: packet_bytes_def)
  then show "access_request K i ra as secret ! 1 = i" "access_request K i ra as secret ! Suc 0 = i"
    by (simp_all add: access_request_def filled_def)
qed (simp add: access_request_def filled_def packet_bytes_slices)

section \<open>Success\<close>

text \<open>
  An Accept for a request: the packet last sent carries the identifier and the authenticator, fresh
  from the random source, of the binding that the response is authentic for, and the exchange of
  the two is the last event of the log.
\<close>

definition accepted_last ::
  "crypto \<Rightarrow> config \<Rightarrow> socket_addr \<Rightarrow> bytes \<Rightarrow> bytes \<Rightarrow> bytes \<Rightarrow> parsed_response \<Rightarrow> event list \<Rightarrow> bool" where
  "accepted_last K cf addr secret ra packet r tr \<longleftrightarrow>
     length ra = 16 \<and> packet ! 1 = ra ! 0 \<and> slice 4 20 packet = ra \<and>
     authentic_response K (attempt_binding cf (ra ! 0) ra) secret r \<and> pr_code r = 2 \<and>
     (\<exists>pre d. tr = pre @ [EvExchange addr packet (Inr d)] \<and> EvRandom (Some ra) \<in> set pre \<and> parse_response d = Inr r)"

lemma accepted_last_append: "accepted_last K cf addr secret ra packet r tr \<Longrightarrow>
    accepted_last K cf addr secret ra packet r (before @ tr)"
proof -
  assume a: "accepted_last K cf addr secret ra packet r tr"
  then obtain pre d where "tr = pre @ [EvExchange addr packet (Inr d)]" "EvRandom (Some ra) \<in> set pre"
    "parse_response d = Inr r" by (auto simp: accepted_last_def)
  then have "before @ tr = (before @ pre) @ [EvExchange addr packet (Inr d)] \<and> EvRandom (Some ra) \<in> set (before @ pre) \<and>
    parse_response d = Inr r" by simp
  with a show ?thesis unfolding accepted_last_def by blast
qed

lemma accepted_last_intro:
  "length ra = 16 \<Longrightarrow> parse_response d = Inr r \<Longrightarrow> authentic_response K (attempt_binding cf (ra ! 0) ra) secret r \<Longrightarrow>
     pr_code r = 2 \<Longrightarrow> EvRandom (Some ra) \<in> set tr \<Longrightarrow> packet = access_request K (ra ! 0) ra as secret \<Longrightarrow>
     accepted_last K cf addr secret ra packet r (tr @ [EvExchange addr packet (Inr d)])"
  unfolding accepted_last_def by (intro conjI exI) simp_all

text \<open>A later part of a log that ends in an accepted exchange.\<close>

lemma accepted_last_later:
  "accepted_last K cf addr secret ra packet r tr' \<Longrightarrow> accepted_last K cf addr secret ra packet r (tr @ e # tr')"
  using accepted_last_append [of K cf addr secret ra packet r tr' "tr @ [e]"] by simp

lemma known_code_accept: "known_code r = Some AccessAccept \<longleftrightarrow> pr_code r = 2"
  by (auto simp: known_code_def code_from_u8_def)

text \<open>
  The digest the server must have sent: computed from the password and the two challenges drawn
  for this request.
\<close>

definition expected_digest :: "crypto \<Rightarrow> attempt_context \<Rightarrow> challenges \<Rightarrow> bytes" where
  "expected_digest K ctx ch =
     (let user = as_bytes (ac_username ctx); pw = expose_secret (ac_password ctx);
          nt = generate_nt_response K (authenticator_challenge ch) (peer_challenge ch) user pw
      in authenticator_digest K pw nt (peer_challenge ch) (authenticator_challenge ch) user)"

definition mutually_authenticated :: "crypto \<Rightarrow> attempt_context \<Rightarrow> challenges \<Rightarrow> parsed_response \<Rightarrow> bool" where
  "mutually_authenticated K ctx ch r \<longleftrightarrow>
     (\<exists>vd hex. find_ms_chap2_success r = Some vd \<and> success_data hex vd \<and>
        hex_pairs (chunks_exact 2 hex) = Some (expected_digest K ctx ch))"

lemma verify_request_iff:
  "crypto_ok K \<Longrightarrow>
     verify_access_accept r (mr_expected_authenticator (mschap_request K ctx ra ch)) \<longleftrightarrow> mutually_authenticated K ctx ch r"
  by (simp add: mschap_request_def build_request_def Let_def verify_access_accept_iff mutually_authenticated_def
      expected_digest_def)

lemma mschap_run_success:
  assumes K: "crypto_ok K"
  shows "mschap_run K ctx cf notice svs rep tr \<Longrightarrow> rp_outcome rep = PamSuccess \<Longrightarrow>
    \<exists>sv ra ch r. sv \<in> set svs \<and> rp_server rep = Some (sv_addr sv) \<and>
      accepted_last K cf (sv_addr sv) (secret_of sv) ra
        (access_request K (ra ! 0) ra (mschapv2_attrs (ac_username ctx) (mschap_request K ctx ra ch) cf) (secret_of sv)) r tr \<and>
      EvRandom (Some (authenticator_challenge ch)) \<in> set tr \<and> EvRandom (Some (peer_challenge ch)) \<in> set tr \<and>
      mutually_authenticated K ctx ch r"
proof (induction rule: mschap_run.induct)
  case (exhausted notice)
  then show ?case by simp
next
  case (stopped notice tr rep sv svs)
  then show ?case using stopped_reads(4) by simp
next
  case (failover notice sv ra ch packet tr svs rep tr')
  then obtain sv' ra' ch' r where IH: "sv' \<in> set svs" "rp_server rep = Some (sv_addr sv')"
      "accepted_last K cf (sv_addr sv') (secret_of sv') ra'
        (access_request K (ra' ! 0) ra' (mschapv2_attrs (ac_username ctx) (mschap_request K ctx ra' ch') cf) (secret_of sv')) r tr'"
      "EvRandom (Some (authenticator_challenge ch')) \<in> set tr'" "EvRandom (Some (peer_challenge ch')) \<in> set tr'"
      "mutually_authenticated K ctx ch' r" by blast
  show ?case
    using IH accepted_last_later [OF IH(3)]
    by (intro exI [of _ sv'] exI [of _ ra'] exI [of _ ch'] exI [of _ r]) simp
next
  case (decided notice sv ra ch packet tr res rep tr' svs)
  then obtain d where d: "res = Inr d"
    by (cases "(K, ctx, cf, sv, ra, ch, res, rep, tr')" rule: mschap_decides.cases) auto
  with decided obtain r where r: "parse_response d = Inr r"
      "authentic_response K (attempt_binding cf (ra ! 0) ra) (secret_of sv) r" "rep = mschap_verdict (mschap_request K ctx ra ch) r"
      "tr' = [] \<or> known_code r = Some AccessReject" by auto
  with decided have v: "known_code r = Some AccessAccept" "verify_access_accept r (mr_expected_authenticator (mschap_request K ctx ra ch))"
    using mschap_verdict_success by auto
  then have "tr' = []" using r(4) by simp
  have o: "length ra = 16" "EvRandom (Some ra) \<in> set tr" "EvRandom (Some (authenticator_challenge ch)) \<in> set tr"
      "EvRandom (Some (peer_challenge ch)) \<in> set tr"
    using decided(1) by (auto simp: mschap_opened_def)
  have "accepted_last K cf (sv_addr sv) (secret_of sv) ra packet r (tr @ [EvExchange (sv_addr sv) packet (Inr d)])"
    using accepted_last_intro [OF o(1) r(1,2) _ o(2) opened_packet(2) [OF K decided(1)]] v(1)
    by (simp add: known_code_accept)
  then show ?case
    using opened_packet(2) [OF K decided(1)] o verify_request_iff [OF K, of r ctx ra ch] v(2)
    unfolding d \<open>tr' = []\<close>
    by (intro exI [of _ sv] exI [of _ ra] exI [of _ ch] exI [of _ r]) simp
qed

text \<open>
  The PAP requests: the first one with the password, or a follow-up with a code that the user typed
  at a prompt, each hidden under the authenticator of the request itself.
\<close>

definition pap_first :: "crypto \<Rightarrow> attempt_context \<Rightarrow> config \<Rightarrow> bytes \<Rightarrow> bytes \<Rightarrow> bytes" where
  "pap_first K ctx cf secret ra =
     access_request K (ra ! 0) ra (pap_attrs (ac_username ctx) (hidden_with K (ac_password ctx) secret ra) cf) secret"

definition pap_follow_up :: "crypto \<Rightarrow> attempt_context \<Rightarrow> bytes \<Rightarrow> secret_string \<Rightarrow> bytes \<Rightarrow> bytes \<Rightarrow> bytes" where
  "pap_follow_up K ctx secret code state ra =
     access_request K (ra ! 0) ra (follow_up_attrs (as_bytes (ac_username ctx)) (hidden_with K code secret ra) state) secret"

definition pap_asked :: "crypto \<Rightarrow> attempt_context \<Rightarrow> config \<Rightarrow> bytes \<Rightarrow> bytes \<Rightarrow> bytes \<Rightarrow> event list \<Rightarrow> bool" where
  "pap_asked K ctx cf secret ra packet tr \<longleftrightarrow>
     packet = pap_first K ctx cf secret ra \<or>
     (\<exists>prompt code state. EvPrompt prompt (Inr code) \<in> set tr \<and> packet = pap_follow_up K ctx secret code state ra)"

lemma pap_asked_later: "pap_asked K ctx cf secret ra packet tr' \<Longrightarrow> pap_asked K ctx cf secret ra packet (tr @ e # tr')"
  by (auto simp: pap_asked_def)

lemma pap_rounds_success:
  assumes K: "crypto_ok K"
  shows "pap_rounds_run K ctx cf addr secret n r rep tr \<Longrightarrow> rp_outcome rep = PamSuccess \<Longrightarrow>
     (tr = [] \<and> pr_code r = 2) \<or>
     (\<exists>ra packet r'. accepted_last K cf addr secret ra packet r' tr \<and> pap_asked K ctx cf secret ra packet tr)"
proof (induction rule: pap_rounds_run.induct)
  case (verdict r rep n)
  then show ?case using pap_verdict_success known_code_accept by blast
next
  case (answered r c code ra packet tr d r' n rep tr')
  from answered.IH [OF answered.prems] show ?case
  proof (elim disjE exE conjE)
    assume t: "tr' = []" "pr_code r' = 2"
    have o: "length ra = 16" "EvRandom (Some ra) \<in> set tr" "EvPrompt (otp_prompt (ch_prompt c)) (Inr code) \<in> set tr"
      using answered(3) by (auto simp: pap_answered_def)
    obtain state where p: "packet = access_request K (ra ! 0) ra
        (follow_up_attrs (as_bytes (ac_username ctx)) (hidden_with K code secret ra) state) secret"
      using pap_answered_packet [OF K answered(3)] .
    with o(3) have "pap_asked K ctx cf secret ra packet (tr @ [EvExchange addr packet (Inr d)])"
      unfolding pap_asked_def pap_follow_up_def by auto
    with accepted_last_intro [OF o(1) answered(4,5) t(2) o(2) p] t(1) show ?thesis by blast
  next
    fix ra' packet' r''
    assume "accepted_last K cf addr secret ra' packet' r'' tr'" "pap_asked K ctx cf secret ra' packet' tr'"
    from accepted_last_later [OF this(1)] pap_asked_later [OF this(2)] show ?thesis by blast
  qed
qed (auto simp: pap_unanswered_def)

lemma pap_run_success:
  assumes K: "crypto_ok K"
  shows "pap_run K ctx cf svs rep tr \<Longrightarrow> rp_outcome rep = PamSuccess \<Longrightarrow>
    \<exists>sv ra packet r. sv \<in> set svs \<and> rp_server rep = Some (sv_addr sv) \<and>
      accepted_last K cf (sv_addr sv) (secret_of sv) ra packet r tr \<and> pap_asked K ctx cf (secret_of sv) ra packet tr"
proof (induction rule: pap_run.induct)
  case (stopped tr rep sv svs)
  then show ?case using pap_stopped_reads(4) by simp
next
  case (failover sv ra packet tr svs rep tr')
  then obtain sv' ra' packet' r where "sv' \<in> set svs" "rp_server rep = Some (sv_addr sv')"
    "accepted_last K cf (sv_addr sv') (secret_of sv') ra' packet' r tr'" "pap_asked K ctx cf (secret_of sv') ra' packet' tr'"
    by blast
  then show ?case
    using accepted_last_later pap_asked_later
    by (intro exI [of _ sv'] exI [of _ ra'] exI [of _ packet'] exI [of _ r]) simp
next
  case (owned sv ra packet tr d r rep tr' svs)
  let ?tr = "tr @ EvExchange (sv_addr sv) packet (Inr d) # tr'"
  have "rp_outcome rep = PamSuccess" using owned by simp
  from pap_rounds_success [OF K owned(4) this]
  have "\<exists>ra' packet' r'. accepted_last K cf (sv_addr sv) (secret_of sv) ra' packet' r' ?tr \<and>
      pap_asked K ctx cf (secret_of sv) ra' packet' ?tr"
  proof (elim disjE exE conjE)
    assume t: "tr' = []" "pr_code r = 2"
    have o: "length ra = 16" "EvRandom (Some ra) \<in> set tr" using owned(1) by (auto simp: pap_opened_def)
    note p = pap_opened_packet(2) [OF K owned(1)]
    then have "pap_asked K ctx cf (secret_of sv) ra packet ?tr" by (simp add: pap_asked_def pap_first_def)
    with accepted_last_intro [OF o(1) owned(2,3) t(2) o(2) p] t(1) show ?thesis by blast
  next
    fix ra' packet' r''
    assume "accepted_last K cf (sv_addr sv) (secret_of sv) ra' packet' r'' tr'" "pap_asked K ctx cf (secret_of sv) ra' packet' tr'"
    from accepted_last_later [OF this(1)] pap_asked_later [OF this(2)] show ?thesis by blast
  qed
  then show ?case by (intro exI [of _ sv]) simp
qed simp_all

section \<open>A successful attempt\<close>

text \<open>
  What backs a success: the deciding server is configured, and the last event of the log is an
  authentic Accept for the request just sent to it, which is the request of the configured protocol
  for this user and password or, with PAP, for a code typed at a prompt; with MSCHAPv2 the server
  has also proved knowledge of the password for the challenges drawn for that request.
\<close>

definition backed :: "crypto \<Rightarrow> attempt_context \<Rightarrow> config \<Rightarrow> auth_report \<Rightarrow> event list \<Rightarrow> bool" where
  "backed K ctx cf rep tr \<longleftrightarrow>
     (\<exists>sv ra packet r. sv \<in> set (cf_servers cf) \<and> rp_server rep = Some (sv_addr sv) \<and>
        accepted_last K cf (sv_addr sv) (secret_of sv) ra packet r tr \<and>
        (case cf_protocol cf of
           Pap \<Rightarrow> pap_asked K ctx cf (secret_of sv) ra packet tr
         | Mschapv2 \<Rightarrow>
             \<exists>ch. packet = access_request K (ra ! 0) ra (mschapv2_attrs (ac_username ctx) (mschap_request K ctx ra ch) cf) (secret_of sv) \<and>
               EvRandom (Some (authenticator_challenge ch)) \<in> set tr \<and> EvRandom (Some (peer_challenge ch)) \<in> set tr \<and>
               mutually_authenticated K ctx ch r))"

lemma attempt_success:
  assumes K: "crypto_ok K" and run: "attempt_run K ctx cf rep tr" and ok: "rp_outcome rep = PamSuccess"
  shows "ac_username ctx \<noteq> [] \<and> \<not> secret_string_is_empty (ac_password ctx) \<and> backed K ctx cf rep tr"
proof -
  have ne: "ac_username ctx \<noteq> []" "\<not> secret_string_is_empty (ac_password ctx)" "cf_servers cf \<noteq> []"
    using run ok by (auto simp: attempt_run_def split: if_splits)
  show ?thesis
  proof (cases "cf_protocol cf")
    case Mschapv2
    then have "mschap_run K ctx cf False (cf_servers cf) rep tr" using run ne by (simp add: attempt_run_def)
    from mschap_run_success [OF K this ok] show ?thesis using ne unfolding backed_def Mschapv2 protocol.case by blast
  next
    case Pap
    then have "pap_run K ctx cf (cf_servers cf) rep tr" using run ne by (simp add: attempt_run_def)
    from pap_run_success [OF K this ok] show ?thesis using ne unfolding backed_def Pap protocol.case by blast
  qed
qed

end
