(* ===== verification/Auth_Conduct.thy ===== *)
theory Auth_Conduct
  imports Auth_Safety
begin

text \<open>
  The conduct of a run towards the network and the user: the order of the servers, the notice
  before the push wait, fresh Request Authenticators, the attributes each protocol sends, the
  bounds and the State of a PAP conversation, and what becomes of its last round.
\<close>

section \<open>The order of the servers\<close>

text \<open>The servers are contacted in order, each after an explicit failure of the one before.\<close>

definition failover_order :: "socket_addr list \<Rightarrow> (socket_addr \<times> bytes \<times> (transport_error + bytes)) list \<Rightarrow> bool" where
  "failover_order addrs ex \<longleftrightarrow>
     map fst ex = take (length ex) addrs \<and> list_all (\<lambda>(s, b, r). r = Inl Unreachable) (butlast ex)"

lemma failover_order_Nil [simp]: "failover_order addrs []"
  by (simp add: failover_order_def)

lemma failover_order_single [simp]: "failover_order (s # addrs) [(s, b, r)]"
  by (simp add: failover_order_def)

lemma failover_order_Cons:
  "failover_order addrs ex \<Longrightarrow> failover_order (s # addrs) ((s, b, Inl Unreachable) # ex)"
  by (auto simp: failover_order_def)

text \<open>A report names no server exactly when every server was contacted and explicitly unreachable.\<close>

definition all_unreachable :: "socket_addr list \<Rightarrow> (socket_addr \<times> bytes \<times> (transport_error + bytes)) list \<Rightarrow> bool" where
  "all_unreachable addrs ex \<longleftrightarrow> map fst ex = addrs \<and> list_all (\<lambda>(s, b, r). r = Inl Unreachable) ex"

lemma mschap_run_order:
  "mschap_run K ctx cf notice svs rep tr \<Longrightarrow>
     failover_order (map sv_addr svs) (exchanged tr) \<and>
     (rp_server rep = None \<longrightarrow> rep = report_of PamUnavail REASON_ALL_UNREACHABLE \<and>
        all_unreachable (map sv_addr svs) (exchanged tr)) \<and>
     (exchanged tr \<noteq> [] \<and> snd (snd (last (exchanged tr))) \<noteq> Inl Unreachable \<longrightarrow>
        rp_server rep = Some (fst (last (exchanged tr))))"
proof (induction rule: mschap_run.induct)
  case (failover notice sv ra ch packet tr svs rep tr')
  then show ?case
    by (auto simp: opened_reads all_unreachable_def intro: failover_order_Cons)
qed (auto simp: opened_reads stopped_reads decides_reads all_unreachable_def)

section \<open>The notice\<close>

fun told_first :: "event list \<Rightarrow> bool" where
  "told_first [] = True"
| "told_first (EvInfo t (Inr _) # tr) = (t = PUSH_NOTICE \<or> told_first tr)"
| "told_first (EvExchange _ _ _ # tr) = False"
| "told_first (_ # tr) = told_first tr"

lemma told_first_randoms [simp]: "told_first (randoms bs @ tr) = told_first tr"
  by (induction bs) simp_all

lemma notices_distinct: "PASSWORD_EXPIRED_NOTICE \<noteq> PUSH_NOTICE"
  by (simp add: PASSWORD_EXPIRED_NOTICE_def PUSH_NOTICE_def)

lemma mschap_run_notice:
  "mschap_run K ctx cf notice svs rep tr \<Longrightarrow>
     prompted tr = [] \<and> (notice \<or> told_first tr) \<and>
     length (filter ((=) PUSH_NOTICE) (informed tr)) \<le> (if notice then 0 else 1) \<and>
     set (informed tr) \<subseteq> {PUSH_NOTICE, PASSWORD_EXPIRED_NOTICE}"
proof (induction rule: mschap_run.induct)
  case (exhausted notice)
  then show ?case by simp
next
  case (stopped notice tr rep sv svs)
  have "told_first tr" using stopped told_first_randoms [of _ "[]"] by (auto simp: mschap_stopped_def)
  then show ?case using stopped_reads [OF stopped] by auto
next
  case (failover notice sv ra ch packet tr svs rep tr')
  then show ?case by (auto simp: mschap_opened_def)
next
  case (decided notice sv ra ch packet tr res rep tr' svs)
  have "filter ((=) PUSH_NOTICE) (informed tr') = []" "set (informed tr') \<subseteq> {PASSWORD_EXPIRED_NOTICE}"
    using decides_reads(3) [OF decided(2)] notices_distinct by auto
  then show ?case
    using decided(1) decides_reads(2) [OF decided(2)] by (auto simp: mschap_opened_def)
qed

section \<open>Fresh material\<close>

fun drawn :: "event list \<Rightarrow> bytes list" where
  "drawn [] = []"
| "drawn (EvRandom (Some b) # tr) = b # drawn tr"
| "drawn (_ # tr) = drawn tr"

lemma drawn_append [simp]: "drawn (xs @ ys) = drawn xs @ drawn ys"
  by (induction xs rule: drawn.induct) auto

lemma drawn_randoms [simp]: "drawn (randoms bs) = bs"
  by (induction bs) simp_all

text \<open>
  The Request Authenticators of the requests are distinct draws of the random source, in order.
\<close>

definition fresh_requests :: "event list \<Rightarrow> bool" where
  "fresh_requests tr \<longleftrightarrow> subseq (map (\<lambda>(s, b, r). slice 4 20 b) (exchanged tr)) (drawn tr)"

lemma fresh_requests_quiet: "exchanged tr = [] \<Longrightarrow> fresh_requests tr"
  by (simp add: fresh_requests_def)

lemma fresh_requests_step:
  assumes "exchanged tr = []" and "slice 4 20 b \<in> set (drawn tr)" and "fresh_requests tr'"
  shows "fresh_requests (tr @ EvExchange s b r # tr')"
proof -
  have "subseq [slice 4 20 b] (drawn tr)" using assms(2) by (simp add: subseq_singleton_left)
  from list_emb_append_mono [OF this assms(3) [unfolded fresh_requests_def]] assms(1) show ?thesis
    by (simp add: fresh_requests_def)
qed

lemma mschap_run_fresh:
  assumes K: "crypto_ok K"
  shows "mschap_run K ctx cf notice svs rep tr \<Longrightarrow> fresh_requests tr"
proof (induction rule: mschap_run.induct)
  case (failover notice sv ra ch packet tr svs rep tr')
  then show ?case using opened_packet(2) [OF K failover(1)]
    by (intro fresh_requests_step) (auto simp: mschap_opened_def)
next
  case (decided notice sv ra ch packet tr res rep tr' svs)
  then show ?case using opened_packet(2) [OF K decided(1)] decides_reads(1) [OF decided(2)]
    by (intro fresh_requests_step fresh_requests_quiet) (auto simp: mschap_opened_def)
qed (auto intro: fresh_requests_quiet simp: stopped_reads)

lemma pap_answered_slice:
  assumes "crypto_ok K" and a: "pap_answered K ctx secret c code ra packet tr"
  shows "slice 4 20 packet \<in> set (drawn tr)"
proof -
  have "length ra = 16" "drawn tr = [ra]" using a by (auto simp: pap_answered_def)
  with pap_answered_packet [OF assms] show ?thesis by (metis access_request_slice list.set_intros(1))
qed

lemma pap_rounds_fresh:
  assumes K: "crypto_ok K"
  shows "pap_rounds_run K ctx cf addr secret n r rep tr \<Longrightarrow> fresh_requests tr"
proof (induction rule: pap_rounds_run.induct)
  case (failed r c code ra packet tr n e)
  from pap_answered_slice [OF K failed(3)] pap_answered_reads(1) [OF failed(3)] show ?case
    by (intro fresh_requests_step [where tr' = "[]"] fresh_requests_quiet) simp_all
next
  case (answered r c code ra packet tr d r' n rep tr')
  from pap_answered_slice [OF K answered(3)] pap_answered_reads(1) [OF answered(3)] answered.IH show ?case
    by (intro fresh_requests_step) simp_all
qed (auto intro: fresh_requests_quiet simp: pap_unanswered_reads)

lemma pap_run_fresh:
  assumes K: "crypto_ok K"
  shows "pap_run K ctx cf svs rep tr \<Longrightarrow> fresh_requests tr"
proof (induction rule: pap_run.induct)
  case (failover sv ra packet tr svs rep tr')
  then show ?case using pap_opened_packet(2) [OF K failover(1)]
    by (intro fresh_requests_step) (auto simp: pap_opened_def)
next
  case (failed sv ra packet tr e svs)
  then show ?case using pap_opened_packet(2) [OF K failed(1)]
    by (intro fresh_requests_step [where tr' = "[]"] fresh_requests_quiet) (auto simp: pap_opened_def)
next
  case (owned sv ra packet tr d r rep tr' svs)
  then show ?case using pap_opened_packet(2) [OF K owned(1)] pap_rounds_fresh [OF K owned(4)]
    by (intro fresh_requests_step) (auto simp: pap_opened_def)
qed (auto intro: fresh_requests_quiet simp: pap_stopped_reads)

section \<open>The attributes sent\<close>

text \<open>
  A request as its receiver reads it: an Access-Request with attributes of the given types only and
  one Message-Authenticator, which is the HMAC-MD5 of the packet under the server's secret.
\<close>

definition request_ok :: "crypto \<Rightarrow> bytes \<Rightarrow> u8 list \<Rightarrow> bytes \<Rightarrow> bool" where
  "request_ok K secret types b \<longleftrightarrow>
     length b \<le> 4096 \<and>
     (case parse_response b of
        Inl _ \<Rightarrow> False
      | Inr r \<Rightarrow>
          known_code r = Some AccessRequest \<and>
          list_all (\<lambda>a. fst a \<in> set types) (pr_attrs r) \<and>
          ma_values (pr_attrs r) =
            [message_authenticator K
               (packet_bytes (pr_code r) (pr_id r) (pr_authenticator r) (set_ma (zeros 16) (pr_attrs r))) secret])"

lemma length_access_request:
  assumes "crypto_ok K" and "length ra = 16" and "request_fits as" and "ma_values as = []"
  shows "length (access_request K i ra as secret) \<le> 4096"
  using assms(2,3) length_message_authenticator [OF assms(1)]
  by (simp add: access_request_def filled_def request_fits_def fits_def set_ma_none assms(4))

lemma access_request_ok:
  assumes K: "crypto_ok K" and ra: "length ra = 16" and as: "request_fits as" "ma_values as = []" "wf_attrs as"
    and types: "list_all (\<lambda>a. fst a \<in> set types) as" "MESSAGE_AUTHENTICATOR \<in> set types"
  shows "request_ok K secret types (access_request K i ra as secret)"
  using length_access_request [OF K ra as(1,2)] types as(2)
  by (simp add: request_ok_def access_request_parsed [OF K ra as] set_ma_none known_code_def code_from_u8_def)

lemma request_fits_wf:
  "request_fits as \<Longrightarrow> list_all (\<lambda>a. fst a = VENDOR_SPECIFIC \<longrightarrow> vsa_ok (snd a)) as \<Longrightarrow> wf_attrs as"
  using request_fits_fits by (auto simp: wf_attrs_def fits_def)

abbreviation MSCHAP_TYPES :: "u8 list" where
  "MSCHAP_TYPES \<equiv> [USER_NAME, VENDOR_SPECIFIC, NAS_IDENTIFIER, NAS_IP_ADDRESS, MESSAGE_AUTHENTICATOR]"

abbreviation PAP_TYPES :: "u8 list" where
  "PAP_TYPES \<equiv> [USER_NAME, USER_PASSWORD, STATE, NAS_IDENTIFIER, NAS_IP_ADDRESS, MESSAGE_AUTHENTICATOR]"

lemma opened_request_ok:
  assumes K: "crypto_ok K" and o: "mschap_opened K ctx cf notice sv ra ch packet tr"
  shows "request_ok K (secret_of sv) MSCHAP_TYPES packet"
proof -
  have l: "length ra = 16" "length (authenticator_challenge ch) = 16" "length (peer_challenge ch) = 16"
    using o by (auto simp: mschap_opened_def)
  have "vsa_ok (mr_ms_chap_challenge (mschap_request K ctx ra ch))" "vsa_ok (mr_ms_chap2_response (mschap_request K ctx ra ch))"
    unfolding mschap_request_def build_request_attrs [OF K l(2,3)]
    by (rule vsa_value_ok, simp add: l length_generate_nt_response [OF K])+
  then have "wf_attrs (mschapv2_attrs (ac_username ctx) (mschap_request K ctx ra ch) cf)"
    by (intro request_fits_wf [OF opened_packet(1) [OF K o]]) (simp add: mschapv2_attrs_def nas_attrs_def split: option.split)
  from access_request_ok [OF K l(1) opened_packet(1) [OF K o] request_values(1) this] show ?thesis
    unfolding opened_packet(2) [OF K o] by (simp add: mschapv2_attrs_def nas_attrs_def split: option.split)
qed

lemma pap_opened_request_ok:
  assumes K: "crypto_ok K" and o: "pap_opened K ctx cf sv ra packet tr"
  shows "request_ok K (secret_of sv) PAP_TYPES packet"
proof -
  have l: "length ra = 16" using o by (auto simp: pap_opened_def)
  have "wf_attrs (pap_attrs (ac_username ctx) (hidden_with K (ac_password ctx) (secret_of sv) ra) cf)"
    by (intro request_fits_wf [OF pap_opened_packet(1) [OF K o]]) (simp add: pap_attrs_def nas_attrs_def split: option.split)
  from access_request_ok [OF K l pap_opened_packet(1) [OF K o] request_values(2) this] show ?thesis
    unfolding pap_opened_packet(2) [OF K o] by (simp add: pap_attrs_def nas_attrs_def split: option.split)
qed

text \<open>The State of a challenge, echoed by the follow-up that answers it.\<close>

definition echoes_state :: "bytes \<Rightarrow> bytes \<Rightarrow> bool" where
  "echoes_state d b \<longleftrightarrow>
     (case (parse_response d, parse_response b) of
        (Inr r, Inr q) \<Rightarrow>
          known_code r = Some AccessChallenge \<and> length (attr_values r STATE) = 1 \<and>
          attr_values q STATE = attr_values r STATE
      | _ \<Rightarrow> False)"

lemma challenge_state:
  "challenge_from_response r = Inr c \<Longrightarrow> ch_state c = Some s \<Longrightarrow>
     known_code r = Some AccessChallenge \<and> attr_values r STATE = [s]"
  by (auto simp: challenge_from_response_def Let_def split: if_splits list.splits)

lemma follow_up_ok:
  assumes K: "crypto_ok K" and a: "pap_answered K ctx secret c code ra packet tr"
    and d: "parse_response d = Inr r" "challenge_from_response r = Inr c"
  shows "request_ok K secret PAP_TYPES packet" and "echoes_state d packet"
proof -
  have l: "length ra = 16" using a by (auto simp: pap_answered_def)
  obtain state where st: "ch_state c = Some state"
    and f: "request_fits (follow_up_attrs (as_bytes (ac_username ctx)) (hidden_with K code secret ra) state)"
    and p: "packet = access_request K (ra ! 0) ra (follow_up_attrs (as_bytes (ac_username ctx)) (hidden_with K code secret ra) state) secret"
    using pap_answered_packet [OF K a] .
  have wf: "wf_attrs (follow_up_attrs (as_bytes (ac_username ctx)) (hidden_with K code secret ra) state)"
    by (intro request_fits_wf [OF f]) (simp add: follow_up_attrs_def)
  from access_request_ok [OF K l f request_values(3) wf] show "request_ok K secret PAP_TYPES packet"
    unfolding p by (simp add: follow_up_attrs_def)
  show "echoes_state d packet"
    using challenge_state [OF d(2) st]
    unfolding echoes_state_def d(1) p access_request_parsed [OF K l f request_values(3) wf]
    by (simp add: attr_values_def follow_up_attrs_def)
qed

lemma served_Cons:
  "list_all (\<lambda>(s, b, r). list_ex (\<lambda>sv. s = sv_addr sv \<and> request_ok K (secret_of sv) types b) svs) ex \<Longrightarrow>
     list_all (\<lambda>(s, b, r). list_ex (\<lambda>sv. s = sv_addr sv \<and> request_ok K (secret_of sv) types b) (sv # svs)) ex"
  by (auto simp: list_all_iff)

lemma served_hd:
  "list_all (\<lambda>(s, b, r). s = sv_addr sv \<and> request_ok K (secret_of sv) types b) ex \<Longrightarrow>
     list_all (\<lambda>(s, b, r). list_ex (\<lambda>sv. s = sv_addr sv \<and> request_ok K (secret_of sv) types b) (sv # svs)) ex"
  by (auto simp: list_all_iff)

lemma mschap_run_requests:
  assumes K: "crypto_ok K"
  shows "mschap_run K ctx cf notice svs rep tr \<Longrightarrow>
    list_all (\<lambda>(s, b, r). list_ex (\<lambda>sv. s = sv_addr sv \<and> request_ok K (secret_of sv) MSCHAP_TYPES b) svs) (exchanged tr)"
proof (induction rule: mschap_run.induct)
  case (failover notice sv ra ch packet tr svs rep tr')
  then show ?case using opened_request_ok [OF K failover(1)] served_Cons [OF failover.IH] by (simp add: opened_reads)
next
  case (decided notice sv ra ch packet tr res rep tr' svs)
  then show ?case using opened_request_ok [OF K decided(1)] by (simp add: opened_reads decides_reads)
qed (auto simp: stopped_reads)

section \<open>A PAP conversation\<close>

fun pap_chain :: "socket_addr \<Rightarrow> transport_error + bytes \<Rightarrow> (socket_addr \<times> bytes \<times> (transport_error + bytes)) list \<Rightarrow> bool" where
  "pap_chain addr prev [] = True"
| "pap_chain addr prev ((s, b, res) # ex) =
     (s = addr \<and> (case prev of Inl _ \<Rightarrow> False | Inr d \<Rightarrow> echoes_state d b) \<and> pap_chain addr res ex)"

lemma pap_chain_addr: "pap_chain addr prev ex \<Longrightarrow> list_all (\<lambda>(s, b, r). s = addr) ex"
  by (induction addr prev ex rule: pap_chain.induct) auto

lemma pap_rounds_conversation:
  assumes K: "crypto_ok K"
  shows "pap_rounds_run K ctx cf addr secret n r rep tr \<Longrightarrow> parse_response d = Inr r \<Longrightarrow>
    pap_chain addr (Inr d) (exchanged tr) \<and> length (exchanged tr) \<le> n \<and> length (prompted tr) \<le> n \<and> informed tr = [] \<and>
    list_all (\<lambda>p. printable p \<and> p \<noteq> []) (prompted tr) \<and>
    list_all (\<lambda>(s, b, r). request_ok K secret PAP_TYPES b) (exchanged tr)"
proof (induction arbitrary: d rule: pap_rounds_run.induct)
  case (unanswered r c tr rep n)
  then show ?case by (simp add: pap_unanswered_reads otp_prompt_printable)
next
  case (failed r c code ra packet tr n e)
  then show ?case using follow_up_ok [OF K failed(3) failed.prems failed(2)]
    by (simp add: pap_answered_reads otp_prompt_printable)
next
  case (answered r c code ra packet tr d' r' n rep tr')
  then show ?case using follow_up_ok [OF K answered(3) answered.prems answered(2)]
    by (simp add: pap_answered_reads otp_prompt_printable)
qed simp_all

text \<open>
  The exchanges of a PAP run: failover over the servers, then at most eight follow-ups to the
  server that answered.
\<close>

definition pap_conversation :: "socket_addr list \<Rightarrow> (socket_addr \<times> bytes \<times> (transport_error + bytes)) list \<Rightarrow> bool" where
  "pap_conversation addrs ex \<longleftrightarrow>
     (\<exists>first rounds. ex = first @ rounds \<and> failover_order addrs first \<and> length rounds \<le> 8 \<and>
        (rounds \<noteq> [] \<longrightarrow> first \<noteq> [] \<and> pap_chain (fst (last first)) (snd (snd (last first))) rounds))"

lemma pap_conversation_first: "failover_order addrs ex \<Longrightarrow> pap_conversation addrs ex"
  unfolding pap_conversation_def by (intro exI [of _ ex] exI [of _ "[]"]) simp

lemma pap_conversation_failover:
  assumes "pap_conversation addrs ex"
  shows "pap_conversation (s # addrs) ((s, b, Inl Unreachable) # ex)"
proof -
  obtain first rounds where "ex = first @ rounds" "failover_order addrs first" "length rounds \<le> 8"
      "rounds \<noteq> [] \<longrightarrow> first \<noteq> [] \<and> pap_chain (fst (last first)) (snd (snd (last first))) rounds"
    using assms by (auto simp: pap_conversation_def)
  then show ?thesis unfolding pap_conversation_def
    by (intro exI [of _ "(s, b, Inl Unreachable) # first"] exI [of _ rounds]) (auto intro: failover_order_Cons)
qed

lemma pap_conversation_owned:
  "pap_chain s (Inr d) rounds \<Longrightarrow> length rounds \<le> 8 \<Longrightarrow> pap_conversation (s # addrs) ((s, b, Inr d) # rounds)"
  unfolding pap_conversation_def by (intro exI [of _ "[(s, b, Inr d)]"] exI [of _ rounds]) simp

lemma pap_run_conversation:
  assumes K: "crypto_ok K"
  shows "pap_run K ctx cf svs rep tr \<Longrightarrow>
    pap_conversation (map sv_addr svs) (exchanged tr) \<and> length (prompted tr) \<le> 8 \<and> informed tr = [] \<and>
    list_all (\<lambda>p. printable p \<and> p \<noteq> []) (prompted tr) \<and>
    list_all (\<lambda>(s, b, r). list_ex (\<lambda>sv. s = sv_addr sv \<and> request_ok K (secret_of sv) PAP_TYPES b) svs) (exchanged tr) \<and>
    (rp_server rep = None \<longrightarrow> rep = report_of PamUnavail REASON_ALL_UNREACHABLE \<and>
       all_unreachable (map sv_addr svs) (exchanged tr))"
proof (induction rule: pap_run.induct)
  case exhausted
  then show ?case by (simp add: pap_conversation_first all_unreachable_def)
next
  case (stopped tr rep sv svs)
  then show ?case by (simp add: pap_stopped_reads pap_conversation_first)
next
  case (failover sv ra packet tr svs rep tr')
  then have IH: "list_all (\<lambda>(s, b, r). list_ex (\<lambda>sv. s = sv_addr sv \<and> request_ok K (secret_of sv) PAP_TYPES b) svs) (exchanged tr')"
    by blast
  show ?case using failover.IH served_Cons [OF IH, of sv] pap_opened_request_ok [OF K failover(1)]
    by (simp add: pap_opened_reads [OF failover(1)] pap_conversation_failover all_unreachable_def)
next
  case (failed sv ra packet tr e svs)
  then show ?case using pap_opened_request_ok [OF K failed(1)]
    by (simp add: pap_opened_reads pap_conversation_first)
next
  case (owned sv ra packet tr d r rep tr' svs)
  note c = pap_rounds_conversation [OF K owned(4,2)]
  then have "list_all (\<lambda>(s, b, r). s = sv_addr sv \<and> request_ok K (secret_of sv) PAP_TYPES b) (exchanged tr')"
    using pap_chain_addr by (fastforce simp: list_all_iff)
  from served_hd [OF this, of svs] show ?case using c pap_opened_request_ok [OF K owned(1)]
    by (simp add: pap_opened_reads [OF owned(1)] pap_conversation_owned)
qed

section \<open>The last round\<close>

text \<open>The last event is an exchange that received an accepted response.\<close>

definition answered_last :: "event list \<Rightarrow> bool" where
  "answered_last tr \<longleftrightarrow> (\<exists>pre addr packet d. tr = pre @ [EvExchange addr packet (Inr d)])"

lemma answered_last_append: "tr' \<noteq> [] \<Longrightarrow> answered_last (tr @ tr') \<longleftrightarrow> answered_last tr'"
  by (cases tr' rule: rev_cases) (auto simp: answered_last_def)

lemma answered_last_exchanged: "answered_last tr \<Longrightarrow> exchanged tr \<noteq> []"
  by (auto simp: answered_last_def)

lemma pap_verdict_reason: "pap_verdict r = Some rep \<Longrightarrow> rp_reason rep \<noteq> REASON_MAX_ROUNDS"
  by (auto simp: pap_verdict_def report_of_def split: if_splits)

lemma pap_rounds_exhausted:
  "pap_rounds_run K ctx cf addr secret n r rep tr \<Longrightarrow>
     (rp_reason rep = REASON_MAX_ROUNDS \<longleftrightarrow> length (prompted tr) = n \<and> (tr = [] \<or> answered_last tr)) \<and>
     (rp_reason rep = REASON_MAX_ROUNDS \<longrightarrow> rp_outcome rep = PamAuthErr)"
proof (induction rule: pap_rounds_run.induct)
  case (verdict r rep n)
  then show ?case using pap_verdict_reason by simp
next
  case (unanswered r c tr rep n)
  then show ?case using pap_unanswered_reads [OF unanswered(3)] answered_last_exchanged [of tr]
    by (auto simp: pap_unanswered_def)
next
  case (failed r c code ra packet tr n e)
  then show ?case by (auto simp: answered_last_def)
next
  case (answered r c code ra packet tr d r' n rep tr')
  have "answered_last (tr @ EvExchange addr packet (Inr d) # tr') \<longleftrightarrow> tr' = [] \<or> answered_last tr'"
    using answered_last_append [of tr' "tr @ [EvExchange addr packet (Inr d)]"]
    by (cases tr') (auto simp: answered_last_def)
  then show ?case using answered.IH by (simp add: pap_answered_reads [OF answered(3)])
qed simp

lemma pap_run_exhausted:
  "pap_run K ctx cf svs rep tr \<Longrightarrow>
     (rp_reason rep = REASON_MAX_ROUNDS \<longleftrightarrow> length (prompted tr) = 8 \<and> answered_last tr) \<and>
     (rp_reason rep = REASON_MAX_ROUNDS \<longrightarrow> rp_outcome rep = PamAuthErr)"
proof (induction rule: pap_run.induct)
  case (stopped tr rep sv svs)
  then show ?case using pap_stopped_reads(2) [OF stopped] by (auto simp: pap_stopped_def)
next
  case (failover sv ra packet tr svs rep tr')
  have "answered_last (tr @ EvExchange (sv_addr sv) packet (Inl Unreachable) # tr') \<longleftrightarrow> answered_last tr'"
    using answered_last_append [of tr' "tr @ [EvExchange (sv_addr sv) packet (Inl Unreachable)]"]
    by (cases tr') (auto simp: answered_last_def)
  then show ?case using failover.IH by (simp add: pap_opened_reads [OF failover(1)])
next
  case (failed sv ra packet tr e svs)
  then show ?case by (auto simp: pap_opened_reads)
next
  case (owned sv ra packet tr d r rep tr' svs)
  have "length (prompted tr') = 8 \<Longrightarrow> answered_last (tr @ EvExchange (sv_addr sv) packet (Inr d) # tr') \<longleftrightarrow> answered_last tr'"
    using answered_last_append [of tr' "tr @ [EvExchange (sv_addr sv) packet (Inr d)]"] by (cases tr') auto
  then show ?case using pap_rounds_exhausted [OF owned(4)] by (force simp: pap_opened_reads [OF owned(1)])
qed simp

end
