(* ===== verification/Audit_Log.thy ===== *)
theory Audit_Log
  imports Config
begin

text \<open>
  Audit records and sinks (\<open>crates/audit\<close>): the record and its rendered line (\<open>record.rs\<close>), the
  libaudit and syslog legs (\<open>ffi.rs\<close>), the sinks and their composition (\<open>lib.rs\<close>). libaudit and
  syslog are the record \<open>audit_os\<close>, a parameter of the model. The lemmas say that a rendered line is
  always seven fields, whatever the user name, and that a sink never fails its caller.
\<close>

section \<open>The record\<close>

datatype auth_result = Success | Denied | Unavail

fun auth_result_as_str :: "auth_result \<Rightarrow> rstr" where
  "auth_result_as_str Success = lit ''success''"
| "auth_result_as_str Denied = lit ''denied''"
| "auth_result_as_str Unavail = lit ''unavail''"

fun auditd_result :: "auth_result \<Rightarrow> int" where
  "auditd_result Success = 1"
| "auditd_result Denied = 0"
| "auditd_result Unavail = 0"

definition is_success :: "auth_result \<Rightarrow> bool" where
  "is_success r \<longleftrightarrow> r = Success"

definition DEFAULT_OP :: rstr where
  "DEFAULT_OP = lit ''pam_nps_auth''"

record audit_record =
  ar_op :: rstr
  ar_proto :: rstr
  ar_server :: rstr
  ar_user :: rstr
  ar_result :: auth_result
  ar_reason :: rstr
  ar_corr :: rstr

definition audit_record_new :: "rstr \<Rightarrow> rstr \<Rightarrow> rstr \<Rightarrow> auth_result \<Rightarrow> rstr \<Rightarrow> rstr \<Rightarrow> audit_record" where
  "audit_record_new proto server user result reason corr =
     \<lparr>ar_op = DEFAULT_OP, ar_proto = proto, ar_server = server, ar_user = user, ar_result = result,
      ar_reason = reason, ar_corr = corr\<rparr>"

definition sanitize :: "rstr \<Rightarrow> rstr" where
  "sanitize s = map (\<lambda>c. if is_whitespace c \<or> is_control c then 95 else c) s"

definition render :: "audit_record \<Rightarrow> rstr" where
  "render r =
     lit ''op='' @ ar_op r @ lit '' proto='' @ ar_proto r @ lit '' server='' @ sanitize (ar_server r)
     @ lit '' user='' @ sanitize (ar_user r) @ lit '' result='' @ auth_result_as_str (ar_result r)
     @ lit '' reason='' @ sanitize (ar_reason r) @ lit '' corr='' @ sanitize (ar_corr r)"

definition auditd_op :: "audit_record \<Rightarrow> rstr" where
  "auditd_op r =
     (let server = (if ar_server r = [] then lit ''none'' else sanitize (ar_server r))
      in ar_op r @ [45] @ ar_proto r @ [45] @ server)"

section \<open>The C interfaces\<close>

definition AUDIT_USER_AUTH :: int where "AUDIT_USER_AUTH = 1100"
definition LOG_AUTHPRIV :: int where "LOG_AUTHPRIV = 80"
definition LOG_INFO :: int where "LOG_INFO = 6"
definition LOG_WARNING :: int where "LOG_WARNING = 4"
definition LOG_PID_NDELAY :: int where "LOG_PID_NDELAY = 9"
definition PGNAME :: rstr where "PGNAME = lit ''pam_nps_mfa''"
definition SYSLOG_IDENT :: rstr where "SYSLOG_IDENT = lit ''pam_nps_mfa''"
definition SYSLOG_FMT :: bytes where "SYSLOG_FMT = blit ''%s''"
definition NO_ID :: u32 where "NO_ID = 0xFFFFFFFF"

text \<open>
  \<open>au_ident_set\<close> and \<open>au_set_ident\<close> are the \<open>OnceLock\<close> that remembers that \<open>openlog\<close> has run in this
  process. A C string is its octets without the final NUL.
\<close>

record 'w audit_os =
  au_open :: "'w \<Rightarrow> int \<times> 'w"
  au_log_acct_message :: "int \<Rightarrow> int \<Rightarrow> bytes \<Rightarrow> bytes \<Rightarrow> bytes \<Rightarrow> u32 \<Rightarrow> bytes option \<Rightarrow> int \<Rightarrow> 'w \<Rightarrow> int \<times> 'w"
  au_close :: "int \<Rightarrow> 'w \<Rightarrow> 'w"
  au_ident_set :: "'w \<Rightarrow> bool"
  au_set_ident :: "'w \<Rightarrow> 'w"
  au_openlog :: "bytes \<Rightarrow> int \<Rightarrow> int \<Rightarrow> 'w \<Rightarrow> 'w"
  au_syslog :: "int \<Rightarrow> bytes \<Rightarrow> bytes \<Rightarrow> 'w \<Rightarrow> 'w"

datatype emit_error = BadCString | AuditUnavailable | AuditWriteFailed

definition cstring_new :: "rstr \<Rightarrow> emit_error + bytes" where
  "cstring_new s = (if 0 \<in> set s then Inl BadCString else Inr (as_bytes s))"

definition sanitized_field :: "rstr \<Rightarrow> rstr" where
  "sanitized_field s = map (\<lambda>c. if c = 0 then 95 else c) s"

definition auditd_emit :: "'w audit_os \<Rightarrow> audit_record \<Rightarrow> (emit_error + unit, 'w) io" where
  "auditd_emit A r =
     attempt (ret (cstring_new PGNAME)) (\<lambda>pgname.
     attempt (ret (cstring_new (auditd_op r))) (\<lambda>op.
     attempt (ret (cstring_new (sanitized_field (ar_user r)))) (\<lambda>name.
     attempt (ret (if ar_server r = [] then Inr None
                   else and_then (cstring_new (sanitized_field (ar_server r))) (\<lambda>c. Inr (Some c)))) (\<lambda>addr.
     seq (lift (au_open A)) (\<lambda>fd.
       if fd < 0 then ret (Inl AuditUnavailable)
       else
         seq (lift (au_log_acct_message A fd AUDIT_USER_AUTH pgname op name NO_ID addr (auditd_result (ar_result r)))) (\<lambda>rc.
         seq (act (au_close A fd)) (\<lambda>_.
           if rc < 0 then ret (Inl AuditWriteFailed) else ret (Inr ()))))))))"

definition syslog_ident :: "'w audit_os \<Rightarrow> (unit, 'w) io" where
  "syslog_ident A =
     (\<lambda>w. if au_ident_set A w then Returns () w
          else case cstring_new SYSLOG_IDENT of
                 Inl _ \<Rightarrow> Panics w
               | Inr ident \<Rightarrow> Returns () (au_set_ident A (au_openlog A ident LOG_PID_NDELAY LOG_AUTHPRIV w)))"

definition syslog_emit :: "'w audit_os \<Rightarrow> audit_record \<Rightarrow> (emit_error + unit, 'w) io" where
  "syslog_emit A r =
     seq (syslog_ident A) (\<lambda>_.
     attempt (ret (cstring_new (render r))) (\<lambda>line.
       let priority = (if is_success (ar_result r) then LOG_INFO else LOG_WARNING)
       in seq (act (au_syslog A priority SYSLOG_FMT line)) (\<lambda>_. ret (Inr ()))))"

section \<open>Sinks\<close>

text \<open>The trait \<open>AuditSink\<close> is its one method \<open>emit\<close>.\<close>

type_synonym 'w sink = "audit_record \<Rightarrow> (unit, 'w) io"

definition auditd_sink :: "'w audit_os \<Rightarrow> 'w sink" where
  "auditd_sink A r = seq (auditd_emit A r) (\<lambda>_. ret ())"

definition syslog_sink :: "'w audit_os \<Rightarrow> 'w sink" where
  "syslog_sink A r = seq (syslog_emit A r) (\<lambda>_. ret ())"

definition both_sink :: "'w sink \<Rightarrow> 'w sink \<Rightarrow> 'w sink" where
  "both_sink first second r = seq (first r) (\<lambda>_. second r)"

definition from_backend :: "'w audit_os \<Rightarrow> audit_backend \<Rightarrow> 'w sink" where
  "from_backend A backend =
     (case backend of
        AuditAuditd \<Rightarrow> auditd_sink A
      | AuditSyslog \<Rightarrow> syslog_sink A
      | AuditBoth \<Rightarrow> both_sink (auditd_sink A) (syslog_sink A))"

text \<open>The recording sink's state is the list of records; its mutex is uncontended.\<close>

definition recording_sink :: "audit_record list sink" where
  "recording_sink r = act (\<lambda>records. records @ [r])"

definition recording_sink_new :: "audit_record list" where
  "recording_sink_new = []"

definition recording_records :: "(audit_record list, audit_record list) io" where
  "recording_records = lift (\<lambda>records. (records, records))"

definition recording_len :: "(nat, audit_record list) io" where
  "recording_len = lift (\<lambda>records. (length records, records))"

definition recording_is_empty :: "(bool, audit_record list) io" where
  "recording_is_empty = seq recording_len (\<lambda>n. ret (n = 0))"

section \<open>The contract of a sink\<close>

text \<open>A sink always returns: no error, no panic, whatever the backend does.\<close>

locale audit_sink =
  fixes emit :: "'w sink"
  assumes emit_returns: "\<exists>w'. emit r w = Returns () w'"
begin

lemma emit_isolated: "catch_unwind (emit r) () w = emit r w"
  using emit_returns [of r w] by (auto simp: catch_unwind_def)

lemma after_emit: "seq (emit r) (\<lambda>_. ret x) w = Returns x w' \<longleftrightarrow> emit r w = Returns () w'"
  using emit_returns [of r w] by (auto simp: seq_Returns)

lemma after_emit_value: "\<exists>w'. seq (emit r) (\<lambda>_. ret x) w = Returns x w'"
  using emit_returns [of r w] by (auto simp: seq_apply)

end

locale sink_pair = first: audit_sink emit1 + second: audit_sink emit2
  for emit1 :: "'w sink" and emit2 :: "'w sink"

sublocale sink_pair \<subseteq> audit_sink "both_sink emit1 emit2"
proof
  fix r w
  show "\<exists>w'. both_sink emit1 emit2 r w = Returns () w'"
    using first.emit_returns [of r w] second.emit_returns [of r]
    by (auto simp: both_sink_def seq_apply)
qed

lemma auditd_emit_returns: "\<exists>x w'. auditd_emit A r w = Returns x w'"
  unfolding auditd_emit_def
  by (auto simp: attempt_apply seq_apply lift_apply split: sum.split prod.split)

lemma cstring_ident [simp]: "cstring_new SYSLOG_IDENT = Inr (as_bytes SYSLOG_IDENT)"
  by (simp add: cstring_new_def SYSLOG_IDENT_def lit_def)

lemma syslog_emit_returns: "\<exists>x w'. syslog_emit A r w = Returns x w'"
  unfolding syslog_emit_def syslog_ident_def
  by (auto simp: attempt_apply seq_apply Let_def split: sum.split)

interpretation auditd: audit_sink "auditd_sink A"
proof
  fix r w show "\<exists>w'. auditd_sink A r w = Returns () w'"
    using auditd_emit_returns [of A r w] by (auto simp: auditd_sink_def seq_apply)
qed

interpretation syslog: audit_sink "syslog_sink A"
proof
  fix r w show "\<exists>w'. syslog_sink A r w = Returns () w'"
    using syslog_emit_returns [of A r w] by (auto simp: syslog_sink_def seq_apply)
qed

interpretation recording: audit_sink recording_sink
  by unfold_locales (simp add: recording_sink_def)

interpretation both: sink_pair "auditd_sink A" "syslog_sink A" ..

interpretation backend: audit_sink "from_backend A backend"
proof
  fix r w show "\<exists>w'. from_backend A backend r w = Returns () w'"
    using auditd.emit_returns [of A r w] syslog.emit_returns [of A r w] both.emit_returns [of A r w]
    by (cases backend) (simp_all add: from_backend_def)
qed

section \<open>The rendered line\<close>

definition clean :: "rstr \<Rightarrow> bool" where
  "clean s \<longleftrightarrow> list_all (\<lambda>c. \<not> is_whitespace c \<and> \<not> is_control c) s"

lemma clean_append [simp]: "clean (s @ t) \<longleftrightarrow> clean s \<and> clean t"
  by (simp add: clean_def)

lemma clean_sanitize [simp]: "clean (sanitize s)"
  by (auto simp: clean_def sanitize_def list_all_iff is_whitespace_def is_control_def)

lemma length_sanitize [simp]: "length (sanitize s) = length s"
  by (simp add: sanitize_def)

lemma sanitize_clean: "clean s \<Longrightarrow> sanitize s = s"
  by (auto simp: clean_def sanitize_def list_all_iff intro: map_idI)

lemma split_whitespace_token:
  assumes "clean t" and "t \<noteq> []"
  shows "split_whitespace (t @ 32 # s) = t # split_whitespace s" and "split_whitespace t = [t]"
  using split_whitespace_word [of t] assms by (simp_all add: clean_def list_all_iff)

lemma split_whitespace_field:
  assumes "clean k" and "k \<noteq> []" and "clean v"
  shows "split_whitespace (k @ v @ 32 # s) = (k @ v) # split_whitespace s" and "split_whitespace (k @ v) = [k @ v]"
  using split_whitespace_token [of "k @ v"] assms by simp_all

lemma clean_lits [simp]:
  "clean (lit ''op='')" "clean (lit ''proto='')" "clean (lit ''server='')" "clean (lit ''user='')"
  "clean (lit ''result='')" "clean (lit ''reason='')" "clean (lit ''corr='')" "clean (auth_result_as_str x)"
  by (cases x; simp add: clean_def lit_def is_whitespace_def is_control_def)+

lemma render_fields:
  assumes "clean (ar_op r)" and "clean (ar_proto r)"
  shows "split_whitespace (render r) =
    [lit ''op='' @ ar_op r, lit ''proto='' @ ar_proto r, lit ''server='' @ sanitize (ar_server r),
     lit ''user='' @ sanitize (ar_user r), lit ''result='' @ auth_result_as_str (ar_result r),
     lit ''reason='' @ sanitize (ar_reason r), lit ''corr='' @ sanitize (ar_corr r)]"
proof -
  have sp: "lit '' proto='' = 32 # lit ''proto=''" "lit '' server='' = 32 # lit ''server=''"
    "lit '' user='' = 32 # lit ''user=''" "lit '' result='' = 32 # lit ''result=''"
    "lit '' reason='' = 32 # lit ''reason=''" "lit '' corr='' = 32 # lit ''corr=''"
    by (simp_all add: lit_def)
  have ne: "lit ''op='' \<noteq> []" "lit ''proto='' \<noteq> []" "lit ''server='' \<noteq> []" "lit ''user='' \<noteq> []"
    "lit ''result='' \<noteq> []" "lit ''reason='' \<noteq> []" "lit ''corr='' \<noteq> []"
    by (simp_all add: lit_def)
  show ?thesis
    unfolding render_def sp append_Cons
    using assms by (simp only: split_whitespace_field ne clean_lits clean_sanitize simp_thms)
qed

end
