(* ===== verification/Audit_Emit.thy ===== *)
theory Audit_Emit
  imports Audit_Log Auth_Flow
begin

text \<open>
  From an attempt to its audit record (\<open>crates/pam-ffi/src/audit_emit.rs\<close>): the tokens of the record
  and the isolated emission.
\<close>

definition proto_str :: "protocol \<Rightarrow> rstr" where
  "proto_str p = (case p of Mschapv2 \<Rightarrow> lit ''mschapv2'' | Pap \<Rightarrow> lit ''pap'')"

definition PROTO_UNKNOWN :: rstr where
  "PROTO_UNKNOWN = lit ''unknown''"

fun result_of :: "pam_outcome \<Rightarrow> auth_result" where
  "result_of PamSuccess = Success"
| "result_of PamAuthErr = Denied"
| "result_of PamUnavail = Unavail"
| "result_of PamConvErr = Unavail"

definition result_from_pam_code :: "int \<Rightarrow> auth_result" where
  "result_from_pam_code code =
     (if code = PAM_SUCCESS then Success else if code = AUTH_ERR then Denied else Unavail)"

text \<open>A panic of the sink is dropped.\<close>

definition emit_once :: "'w sink \<Rightarrow> audit_record \<Rightarrow> (unit, 'w) io" where
  "emit_once sink r = catch_unwind (sink r) ()"

definition emit_boundary :: "'w sink \<Rightarrow> rstr \<Rightarrow> rstr \<Rightarrow> rstr \<Rightarrow> auth_result \<Rightarrow> rstr \<Rightarrow> (unit, 'w) io" where
  "emit_boundary sink proto user corr result why = emit_once sink (audit_record_new proto [] user result why corr)"

text \<open>\<open>addr.ip().to_string()\<close>.\<close>

fun ip_to_string :: "socket_addr \<Rightarrow> rstr" where
  "ip_to_string (SocketV4 ip port) = ipv4_to_string ip"
| "ip_to_string (SocketV6 ip port scope) = ipv6_to_string ip"

definition attempt_record :: "rstr \<Rightarrow> rstr \<Rightarrow> rstr \<Rightarrow> auth_report \<Rightarrow> audit_record" where
  "attempt_record proto user corr rep =
     (let server = (case rp_server rep of Some addr \<Rightarrow> ip_to_string addr | None \<Rightarrow> [])
      in audit_record_new proto server user (result_of (rp_outcome rep)) (rp_reason rep) corr)"

definition emit_attempt :: "'w sink \<Rightarrow> rstr \<Rightarrow> rstr \<Rightarrow> rstr \<Rightarrow> auth_report \<Rightarrow> (unit, 'w) io" where
  "emit_attempt sink proto user corr rep = emit_once sink (attempt_record proto user corr rep)"

lemma result_of_code: "result_of out = result_from_pam_code (pam_code out)"
  by (cases out) (simp_all add: result_from_pam_code_def)

lemma proto_str_clean: "clean (proto_str p)" "clean PROTO_UNKNOWN" "clean DEFAULT_OP"
  by (cases p; simp add: proto_str_def PROTO_UNKNOWN_def DEFAULT_OP_def clean_def lit_def is_whitespace_def is_control_def)+

context audit_sink
begin

text \<open>With a sink that keeps its contract the isolation has nothing to catch.\<close>

lemma emit_once_emits: "emit_once emit r = emit r"
  by (rule ext) (simp add: emit_once_def emit_isolated)

lemma emit_once_returns: "\<exists>w'. emit_once emit r w = Returns () w'"
  unfolding emit_once_emits by (rule emit_returns)

end

end
