(* ===== verification/Options.thy ===== *)
theory Options
  imports Rust_Std
begin

text \<open>
  The module arguments of the pam.d line (\<open>crates/pam-ffi/src/options.rs\<close>).
\<close>

definition DEFAULT_CONFIG_PATH :: rstr where
  "DEFAULT_CONFIG_PATH = lit ''/etc/pam_nps/pam_nps.conf''"

record options =
  op_config_path :: rstr
  op_try_first_pass :: bool
  op_use_first_pass :: bool
  op_debug :: bool
  op_unknown :: "rstr list"

definition options_default :: options where
  "options_default =
     \<lparr>op_config_path = DEFAULT_CONFIG_PATH, op_try_first_pass = False, op_use_first_pass = False,
      op_debug = False, op_unknown = []\<rparr>"

definition parse_option :: "rstr \<Rightarrow> options \<Rightarrow> options" where
  "parse_option arg o' =
     (case strip_prefix (lit ''config='') arg of
        Some path \<Rightarrow>
          if path = [] then o'\<lparr>op_unknown := op_unknown o' @ [arg]\<rparr> else o'\<lparr>op_config_path := path\<rparr>
      | None \<Rightarrow>
          if arg = lit ''try_first_pass'' then o'\<lparr>op_try_first_pass := True\<rparr>
          else if arg = lit ''use_first_pass'' then o'\<lparr>op_use_first_pass := True\<rparr>
          else if arg = lit ''debug'' then o'\<lparr>op_debug := True\<rparr>
          else o'\<lparr>op_unknown := op_unknown o' @ [arg]\<rparr>)"

definition parse_options :: "rstr list \<Rightarrow> options" where
  "parse_options args = fold parse_option args options_default"

lemma options_use_first_pass:
  "op_use_first_pass (fold parse_option args o') \<longleftrightarrow> op_use_first_pass o' \<or> lit ''use_first_pass'' \<in> set args"
proof (induction args arbitrary: o')
  case (Cons arg args)
  have p: "strip_prefix (lit ''config='') (lit ''use_first_pass'') = None" by (simp add: lit_def)
  have "op_use_first_pass (parse_option arg o') \<longleftrightarrow> op_use_first_pass o' \<or> arg = lit ''use_first_pass''"
    using p by (auto simp: parse_option_def split: option.split)
  with Cons show ?case by auto
qed simp

lemma options_config_path_nonempty:
  "op_config_path o' \<noteq> [] \<Longrightarrow> op_config_path (fold parse_option args o') \<noteq> []"
proof (induction args arbitrary: o')
  case (Cons arg args)
  then have "op_config_path (parse_option arg o') \<noteq> []" by (auto simp: parse_option_def split: option.split)
  with Cons show ?case by simp
qed simp

end
