(* ===== verification/Config_Spec.thy ===== *)
theory Config_Spec
  imports Config
begin

text \<open>
  The configuration language: a declarative reading of a configuration as a list of entries, and
  the proof that \<open>parse\<close> accepts exactly the well-formed ones and returns what they say. Then the
  order of file operations during loading, on a logged file system.
\<close>

section \<open>Entries\<close>

type_synonym entry = "nat \<times> rstr \<times> rstr list"

text \<open>The entry on a line: its key and its values, unless the line is blank or a comment.\<close>

definition entry_of :: "nat \<Rightarrow> rstr \<Rightarrow> entry option" where
  "entry_of line raw_line =
     (let content = trim (takeWhile (\<lambda>c. c \<noteq> 35) raw_line)
      in if content = [] then None
         else case split_whitespace content of [] \<Rightarrow> None | key # rest \<Rightarrow> Some (line, key, rest))"

fun entries_from :: "nat \<Rightarrow> rstr list \<Rightarrow> entry list" where
  "entries_from idx [] = []"
| "entries_from idx (l # ls) =
     (case entry_of (idx + 1) l of None \<Rightarrow> entries_from (idx + 1) ls | Some e \<Rightarrow> e # entries_from (idx + 1) ls)"

definition entries :: "rstr \<Rightarrow> entry list" where
  "entries text = entries_from 0 (lines text)"

definition values_of :: "string \<Rightarrow> entry list \<Rightarrow> rstr list list" where
  "values_of k es = map (snd \<circ> snd) (filter (\<lambda>e. fst (snd e) = lit k) es)"

section \<open>What a configuration says\<close>

definition conv_protocol :: "rstr \<Rightarrow> protocol option" where
  "conv_protocol v = (if v = lit ''mschapv2'' then Some Mschapv2 else if v = lit ''pap'' then Some Pap else None)"

definition conv_audit :: "rstr \<Rightarrow> audit_backend option" where
  "conv_audit v =
     (if v = lit ''auditd'' then Some AuditAuditd else if v = lit ''syslog'' then Some AuditSyslog
      else if v = lit ''both'' then Some AuditBoth else None)"

definition conv_bool :: "rstr \<Rightarrow> bool option" where
  "conv_bool v = (if v = lit ''true'' then Some True else if v = lit ''false'' then Some False else None)"

definition conv_server :: "rstr list \<Rightarrow> parsed_server option" where
  "conv_server rest =
     (if length rest \<noteq> 2 then None
      else map_option (\<lambda>addr. \<lparr>ps_addr = addr, ps_secret_path = rest ! 1\<rparr>) (socket_addr_from_str (rest ! 0)))"

text \<open>The value of a scalar key: absent, or given once with one value in its syntax.\<close>

definition slot :: "(rstr \<Rightarrow> 'a option) \<Rightarrow> string \<Rightarrow> entry list \<Rightarrow> 'a option" where
  "slot conv k es = (case values_of k es of [[v]] \<Rightarrow> conv v | _ \<Rightarrow> None)"

definition slot_ok :: "(rstr \<Rightarrow> 'a option) \<Rightarrow> string \<Rightarrow> entry list \<Rightarrow> bool" where
  "slot_ok conv k es \<longleftrightarrow> values_of k es = [] \<or> (\<exists>v. values_of k es = [[v]] \<and> conv v \<noteq> None)"

definition schema :: "string list" where
  "schema = [''server'', ''protocol'', ''timeout'', ''probe_timeout'', ''retries'', ''nas_identifier'', ''nas_ip'',
     ''source_ip'', ''require_message_authenticator'', ''audit'', ''debug'']"

definition entries_ok :: "entry list \<Rightarrow> bool" where
  "entries_ok es \<longleftrightarrow>
     list_all (\<lambda>e. fst (snd e) \<in> set (map lit schema)) es \<and>
     list_all (\<lambda>r. conv_server r \<noteq> None) (values_of ''server'' es) \<and>
     slot_ok conv_protocol ''protocol'' es \<and> slot_ok u32_from_str ''timeout'' es \<and>
     slot_ok u32_from_str ''probe_timeout'' es \<and> slot_ok u32_from_str ''retries'' es \<and>
     slot_ok Some ''nas_identifier'' es \<and> slot_ok ipv4_from_str ''nas_ip'' es \<and>
     slot_ok ipv4_from_str ''source_ip'' es \<and> slot_ok conv_bool ''require_message_authenticator'' es \<and>
     slot_ok conv_audit ''audit'' es \<and> slot_ok conv_bool ''debug'' es"

definition state_of :: "entry list \<Rightarrow> parse_state" where
  "state_of es =
     \<lparr>st_servers = map (the \<circ> conv_server) (values_of ''server'' es),
      st_protocol = slot conv_protocol ''protocol'' es,
      st_timeout = slot u32_from_str ''timeout'' es,
      st_probe_timeout = slot u32_from_str ''probe_timeout'' es,
      st_retries = slot u32_from_str ''retries'' es,
      st_nas_identifier = slot Some ''nas_identifier'' es,
      st_nas_ip = slot ipv4_from_str ''nas_ip'' es,
      st_source_ip = slot ipv4_from_str ''source_ip'' es,
      st_require_ma = slot conv_bool ''require_message_authenticator'' es,
      st_audit = slot conv_audit ''audit'' es,
      st_debug = slot conv_bool ''debug'' es\<rparr>"

section \<open>The parser reads entries\<close>

fun run_entries :: "parse_state \<Rightarrow> entry list \<Rightarrow> config_parse_error + parse_state" where
  "run_entries st [] = Inr st"
| "run_entries st ((l, k, r) # es) = and_then (parse_entry st l k r) (\<lambda>st. run_entries st es)"

lemma parse_line_entry:
  "parse_line st n l = (case entry_of n l of None \<Rightarrow> Inr st | Some (n, k, r) \<Rightarrow> parse_entry st n k r)"
  by (simp add: parse_line_def entry_of_def Let_def split: list.splits)

lemma parse_lines_entries: "parse_lines st n ls = run_entries st (entries_from n ls)"
proof (induction ls arbitrary: st n)
  case (Cons l ls)
  then show ?case by (auto simp: parse_line_entry split: option.splits)
qed simp

lemma run_entries_snoc:
  "run_entries st (es @ [(l, k, r)]) = and_then (run_entries st es) (\<lambda>st. parse_entry st l k r)"
proof (induction st es rule: run_entries.induct)
  case (2 st l' k' r' es)
  then show ?case by (cases "parse_entry st l' k' r'") simp_all
qed simp

section \<open>One entry\<close>

lemma values_of_snoc:
  "values_of k (es @ [(l, key, r)]) = values_of k es @ (if key = lit k then [r] else [])"
  by (simp add: values_of_def)

lemma slot_snoc_other: "key \<noteq> lit k \<Longrightarrow> slot conv k (es @ [(l, key, r)]) = slot conv k es"
  by (simp add: slot_def values_of_snoc)

lemma slot_ok_snoc_other: "key \<noteq> lit k \<Longrightarrow> slot_ok conv k (es @ [(l, key, r)]) = slot_ok conv k es"
  by (simp add: slot_ok_def values_of_snoc)

text \<open>The common shape of the ten scalar branches.\<close>

definition scalar :: "(rstr \<Rightarrow> 'a option) \<Rightarrow> 'a option \<Rightarrow> nat \<Rightarrow> rstr \<Rightarrow> rstr list \<Rightarrow>
    ('a \<Rightarrow> parse_state) \<Rightarrow> config_parse_error + parse_state" where
  "scalar conv present l key r f =
     and_then (single r l key) (\<lambda>v.
     and_then (set_once present l key) (\<lambda>_.
     and_then (ok_or (malformed l key) (conv v)) (\<lambda>a. Inr (f a))))"

lemma scalar_step:
  assumes "slot_ok conv k es"
  shows "scalar conv (slot conv k es) l (lit k) r f = Inr st' \<longleftrightarrow>
    slot_ok conv k (es @ [(l, lit k, r)]) \<and> (\<exists>a. slot conv k (es @ [(l, lit k, r)]) = Some a \<and> st' = f a)"
proof -
  consider (none) "values_of k es = []" | (one) v a where "values_of k es = [[v]]" "conv v = Some a"
    using assms by (auto simp: slot_ok_def)
  then show ?thesis
  proof cases
    case none
    then show ?thesis
      by (auto simp: scalar_def single_def set_once_def slot_def slot_ok_def values_of_snoc and_then_Inr
          split: list.splits)
  next
    case one
    then show ?thesis
      by (auto simp: scalar_def single_def set_once_def slot_def slot_ok_def values_of_snoc and_then_Inr
          split: list.splits)
  qed
qed

lemma slot_snoc_present:
  "slot_ok conv k (es @ [(l, lit k, r)]) \<Longrightarrow> \<exists>a. slot conv k (es @ [(l, lit k, r)]) = Some a"
  by (auto simp: slot_ok_def slot_def values_of_snoc)

lemma parse_entry_scalar:
  "parse_entry st l (lit ''protocol'') r =
     scalar conv_protocol (st_protocol st) l (lit ''protocol'') r (\<lambda>a. st\<lparr>st_protocol := Some a\<rparr>)"
  "parse_entry st l (lit ''timeout'') r =
     scalar u32_from_str (st_timeout st) l (lit ''timeout'') r (\<lambda>a. st\<lparr>st_timeout := Some a\<rparr>)"
  "parse_entry st l (lit ''probe_timeout'') r =
     scalar u32_from_str (st_probe_timeout st) l (lit ''probe_timeout'') r (\<lambda>a. st\<lparr>st_probe_timeout := Some a\<rparr>)"
  "parse_entry st l (lit ''retries'') r =
     scalar u32_from_str (st_retries st) l (lit ''retries'') r (\<lambda>a. st\<lparr>st_retries := Some a\<rparr>)"
  "parse_entry st l (lit ''nas_identifier'') r =
     scalar Some (st_nas_identifier st) l (lit ''nas_identifier'') r (\<lambda>a. st\<lparr>st_nas_identifier := Some a\<rparr>)"
  "parse_entry st l (lit ''nas_ip'') r =
     scalar ipv4_from_str (st_nas_ip st) l (lit ''nas_ip'') r (\<lambda>a. st\<lparr>st_nas_ip := Some a\<rparr>)"
  "parse_entry st l (lit ''source_ip'') r =
     scalar ipv4_from_str (st_source_ip st) l (lit ''source_ip'') r (\<lambda>a. st\<lparr>st_source_ip := Some a\<rparr>)"
  "parse_entry st l (lit ''require_message_authenticator'') r =
     scalar conv_bool (st_require_ma st) l (lit ''require_message_authenticator'') r (\<lambda>a. st\<lparr>st_require_ma := Some a\<rparr>)"
  "parse_entry st l (lit ''audit'') r =
     scalar conv_audit (st_audit st) l (lit ''audit'') r (\<lambda>a. st\<lparr>st_audit := Some a\<rparr>)"
  "parse_entry st l (lit ''debug'') r =
     scalar conv_bool (st_debug st) l (lit ''debug'') r (\<lambda>a. st\<lparr>st_debug := Some a\<rparr>)"
  unfolding parse_entry_def scalar_def parse_u32_def lit_inject
  by (simp_all, (intro arg_cong [where f = "and_then _"] ext,
      auto simp: conv_protocol_def conv_audit_def conv_bool_def parse_bool_def)+)

lemma parse_entry_server:
  "parse_entry st l (lit ''server'') r =
     and_then (ok_or (malformed l (lit ''server'')) (conv_server r)) (\<lambda>s. Inr (st\<lparr>st_servers := st_servers st @ [s]\<rparr>))"
  by (simp add: parse_entry_def conv_server_def and_then_assoc split: option.split)
    (cases "socket_addr_from_str (r ! 0)"; simp)

lemma parse_entry_unknown: "k \<notin> set (map lit schema) \<Longrightarrow> parse_entry st l k r = Inl (UnknownKey l k)"
  by (simp add: schema_def parse_entry_def)

lemmas snoc_other = slot_snoc_other slot_ok_snoc_other

lemma entries_ok_prefix: "entries_ok (es @ [e]) \<Longrightarrow> entries_ok es"
proof -
  have slot_ok: "slot_ok conv k (es @ [e]) \<Longrightarrow> slot_ok conv k es" for k and conv :: "rstr \<Rightarrow> 'a option"
    by (cases e) (auto simp: slot_ok_def values_of_snoc split: if_splits)
  assume "entries_ok (es @ [e])"
  moreover have "list_all P (values_of k (es @ [e])) \<Longrightarrow> list_all P (values_of k es)" for P k
    by (cases e) (simp add: values_of_snoc)
  ultimately show ?thesis
    unfolding entries_ok_def
    by (auto simp: slot_ok_def values_of_def split: if_splits)
qed

lemma parse_entry_step:
  assumes ok: "entries_ok es"
  shows "parse_entry (state_of es) l key r = Inr st' \<longleftrightarrow>
    entries_ok (es @ [(l, key, r)]) \<and> st' = state_of (es @ [(l, key, r)])"
proof (cases "key \<in> set (map lit schema)")
  case False
  then show ?thesis by (simp add: parse_entry_unknown entries_ok_def)
next
  case True
  note O = ok [unfolded entries_ok_def]
  from True consider (server) "key = lit ''server''" | (protocol) "key = lit ''protocol''" | (timeout) "key = lit ''timeout''"
    | (probe) "key = lit ''probe_timeout''" | (retries) "key = lit ''retries''" | (nas_id) "key = lit ''nas_identifier''"
    | (nas_ip) "key = lit ''nas_ip''" | (source_ip) "key = lit ''source_ip''"
    | (require) "key = lit ''require_message_authenticator''" | (audit) "key = lit ''audit''" | (debug) "key = lit ''debug''"
    unfolding schema_def by auto
  then show ?thesis
  proof cases
    case server
    show ?thesis unfolding server parse_entry_server
      using O True server
      by (cases "conv_server r") (auto simp: entries_ok_def state_of_def snoc_other values_of_snoc)
  qed (use O True in \<open>auto simp: parse_entry_scalar scalar_step entries_ok_def state_of_def snoc_other values_of_snoc
    dest: slot_snoc_present\<close>)
qed

section \<open>The whole configuration\<close>

lemma run_entries_spec: "run_entries parse_start es = Inr st \<longleftrightarrow> entries_ok es \<and> st = state_of es"
proof (induction es arbitrary: st rule: rev_induct)
  case Nil
  show ?case by (auto simp: entries_ok_def slot_ok_def values_of_def parse_start_def state_of_def slot_def)
next
  case (snoc e es)
  obtain l k r where e: "e = (l, k, r)" by (metis prod_cases3)
  have "run_entries parse_start (es @ [e]) = Inr st \<longleftrightarrow> entries_ok es \<and> parse_entry (state_of es) l k r = Inr st"
    unfolding e run_entries_snoc and_then_Inr snoc by blast
  also have "\<dots> \<longleftrightarrow> entries_ok (es @ [e]) \<and> st = state_of (es @ [e])"
    using parse_entry_step [of es l k r st] entries_ok_prefix [of es e] by (auto simp: e)
  finally show ?case .
qed

definition config_of :: "entry list \<Rightarrow> parsed_config" where
  "config_of es =
     \<lparr>pc_servers = map (the \<circ> conv_server) (values_of ''server'' es),
      pc_protocol = the (slot conv_protocol ''protocol'' es),
      pc_timeout = unwrap_or 60 (slot u32_from_str ''timeout'' es),
      pc_probe_timeout = unwrap_or 5 (slot u32_from_str ''probe_timeout'' es),
      pc_retries = unwrap_or 1 (slot u32_from_str ''retries'' es),
      pc_nas_identifier = slot Some ''nas_identifier'' es,
      pc_nas_ip = slot ipv4_from_str ''nas_ip'' es,
      pc_source_ip = slot ipv4_from_str ''source_ip'' es,
      pc_require_message_authenticator = unwrap_or True (slot conv_bool ''require_message_authenticator'' es),
      pc_audit = unwrap_or AuditBoth (slot conv_audit ''audit'' es),
      pc_debug = unwrap_or False (slot conv_bool ''debug'' es)\<rparr>"

lemma slot_None: "slot_ok conv k es \<Longrightarrow> slot conv k es = None \<longleftrightarrow> values_of k es = []"
  by (auto simp: slot_ok_def slot_def)

lemma parse_spec:
  "parse text = Inr c \<longleftrightarrow>
     entries_ok (entries text) \<and> values_of ''server'' (entries text) \<noteq> [] \<and>
     values_of ''protocol'' (entries text) \<noteq> [] \<and> c = config_of (entries text)"
proof -
  let ?es = "entries text"
  have "parse_finish (state_of ?es) = Inr c \<longleftrightarrow>
      values_of ''server'' ?es \<noteq> [] \<and> values_of ''protocol'' ?es \<noteq> [] \<and> c = config_of ?es" if "entries_ok ?es"
  proof -
    have ok: "slot_ok conv_protocol ''protocol'' ?es" using that by (simp add: entries_ok_def)
    show ?thesis using slot_None [OF ok]
      by (auto simp: parse_finish_def state_of_def config_of_def and_then_Inr)
  qed
  moreover have "parse text = Inr c \<longleftrightarrow> entries_ok ?es \<and> parse_finish (state_of ?es) = Inr c"
    unfolding parse_def parse_lines_entries and_then_Inr entries_def [symmetric] run_entries_spec by blast
  ultimately show ?thesis by blast
qed

lemma parse_servers_nonempty: "parse text = Inr c \<Longrightarrow> pc_servers c \<noteq> []"
  by (auto simp: parse_spec config_of_def)

section \<open>Loading\<close>

lemma validate_permissions_iff:
  "validate_permissions m uid = Inr () \<longleftrightarrow>
     md_is_file m \<and> md_uid m = uid \<and> (\<forall>n<6. \<not> bit (md_mode m) n)"
proof -
  have "(63 :: u32) = mask 6" by (simp add: mask_eq_exp_minus_1)
  then have "md_mode m AND 63 = 0 \<longleftrightarrow> take_bit 6 (md_mode m) = 0" by (simp add: take_bit_eq_mask)
  also have "\<dots> \<longleftrightarrow> (\<forall>n<6. \<not> bit (md_mode m) n)" by (simp add: bit_eq_iff bit_simps) auto
  finally show ?thesis by (simp add: validate_permissions_def)
qed

text \<open>The file system with every operation logged.\<close>

datatype fs_event = EvOpen rstr "nat + fd" | EvStat fd "nat + metadata" | EvRead fd "nat + bytes"

definition traced_fs :: "'w fs \<Rightarrow> ('w \<times> fs_event list) fs" where
  "traced_fs fs =
     \<lparr>fs_open = (\<lambda>p. logged (EvOpen p) (fs_open fs p)),
      fs_metadata = (\<lambda>d. logged (EvStat d) (fs_metadata fs d)),
      fs_read_to_end = (\<lambda>d. logged (EvRead d) (fs_read_to_end fs d))\<rparr>"

text \<open>
  Every read is of a descriptor whose last \<open>fstat\<close> since it was opened passed the check;
  \<open>ok\<close> are the descriptors checked so far.
\<close>

fun reads_checked :: "u32 \<Rightarrow> fd list \<Rightarrow> fs_event list \<Rightarrow> bool" where
  "reads_checked uid ok [] = True"
| "reads_checked uid ok (EvOpen p r # tr) =
     (case r of Inl e \<Rightarrow> reads_checked uid ok tr | Inr d \<Rightarrow> reads_checked uid (removeAll d ok) tr)"
| "reads_checked uid ok (EvStat d r # tr) =
     (case r of Inl e \<Rightarrow> reads_checked uid (removeAll d ok) tr
      | Inr m \<Rightarrow> reads_checked uid (if validate_permissions m uid = Inr () then d # ok else removeAll d ok) tr)"
| "reads_checked uid ok (EvRead d r # tr) = (d \<in> set ok \<and> reads_checked uid ok tr)"

definition always_checked :: "u32 \<Rightarrow> fs_event list \<Rightarrow> bool" where
  "always_checked uid tr \<longleftrightarrow> (\<forall>ok. reads_checked uid ok tr)"

lemma reads_checked_append:
  "reads_checked uid ok xs \<Longrightarrow> always_checked uid ys \<Longrightarrow> reads_checked uid ok (xs @ ys)"
  by (induction uid ok xs rule: reads_checked.induct) (auto simp: always_checked_def split: sum.splits)

lemma always_checked_append: "always_checked uid xs \<Longrightarrow> always_checked uid ys \<Longrightarrow> always_checked uid (xs @ ys)"
  using reads_checked_append unfolding always_checked_def by blast

lemma always_checked_Nil [simp]: "always_checked uid []"
  by (simp add: always_checked_def)

lemma open_secure_trace:
  "emits (open_secure (traced_fs fs) path uid)
     (\<lambda>r tr. always_checked uid tr \<and>
        (\<forall>d m. r = Inr (d, m) \<longrightarrow>
           tr = [EvOpen path (Inr d), EvStat d (Inr m)] \<and> validate_permissions m uid = Inr ()))"
proof -
  have "emits (open_secure (traced_fs fs) path uid)
     (\<lambda>r tr. (\<exists>e. tr = [EvOpen path (Inl e)] \<and> \<not> is_ok r) \<or>
        (\<exists>d s. tr = [EvOpen path (Inr d), EvStat d s] \<and>
           (\<forall>d' m. r = Inr (d', m) \<longrightarrow> d' = d \<and> s = Inr m \<and> validate_permissions m uid = Inr ())))"
    unfolding open_secure_def traced_fs_def attempt_def
    by (auto simp: emits_def seq_apply lift_apply logged_def is_ok_iff map_err_Inl
        split: exec.splits sum.splits prod.splits)
  then show ?thesis
    by (rule emits_mono) (auto simp: always_checked_def is_ok_iff split: sum.split)
qed

text \<open>Opening a file, then reading the descriptor in some continuation.\<close>

lemma open_then_trace:
  assumes "\<And>d m. emits (f d m) (\<lambda>r tr. \<exists>x tr'. tr = EvRead d x # tr' \<and> always_checked uid tr')"
  shows "emits (attempt (open_secure (traced_fs fs) path uid) (\<lambda>(d, m). f d m)) (\<lambda>_. always_checked uid)"
proof (rule emits_attempt [OF open_secure_trace])
  fix a tr
  assume a: "always_checked uid tr \<and> (\<forall>d m. Inr a = (Inr (d, m) :: config_error + fd \<times> metadata) \<longrightarrow>
      tr = [EvOpen path (Inr d), EvStat d (Inr m)] \<and> validate_permissions m uid = Inr ())"
  obtain d m where dm: "a = (d, m)" by force
  have "always_checked uid (tr @ EvRead d x # tr')" if "always_checked uid tr'" for x tr'
    using a that by (auto simp: dm always_checked_def)
  with emits_mono [OF assms] show "emits (case a of (d, m) \<Rightarrow> f d m) (\<lambda>b tr'. always_checked uid (tr @ tr'))"
    unfolding dm prod.case by (smt (verit))
qed simp

lemma read_secret_trace:
  "emits (read_secret (traced_fs fs) d m path) (\<lambda>r tr. \<exists>x. tr = [EvRead d x])"
  unfolding read_secret_def traced_fs_def attempt_def
  by (auto simp: emits_def seq_apply lift_apply logged_def map_err_Inl split: exec.splits sum.splits prod.splits option.splits)

lemma resolve_servers_trace: "emits (resolve_servers (traced_fs fs) uid pss) (\<lambda>_. always_checked uid)"
proof (induction pss)
  case Nil
  show ?case unfolding resolve_servers.simps by (rule emits_ret) simp
next
  case (Cons ps pss)
  show ?case unfolding resolve_servers.simps
  proof (rule open_then_trace, goal_cases)
    case (1 d m)
    show ?case
    proof (rule emits_attempt [OF read_secret_trace], goal_cases)
      case (2 secret tr)
      then obtain x where tr: "tr = [EvRead d x]" by blast
      show ?case unfolding tr
        by (rule emits_attempt [OF Cons.IH]) (auto intro!: emits_ret)
    qed auto
  qed
qed

lemma load_trace: "emits (load_with_expected_uid (traced_fs fs) path uid) (\<lambda>_. always_checked uid)"
  unfolding load_with_expected_uid_def
proof (rule open_then_trace, goal_cases)
  case (1 d m)
  have "emits (read_config_text (traced_fs fs) d path) (\<lambda>r tr. \<exists>x. tr = [EvRead d x])"
    unfolding read_config_text_def traced_fs_def
    by (auto simp: emits_def seq_apply lift_apply logged_def split: exec.splits sum.splits prod.splits option.splits)
  then show ?case
  proof (rule emits_attempt, goal_cases)
    case (2 contents tr)
    then obtain x where tr: "tr = [EvRead d x]" by blast
    have "emits (attempt (ret (map_err ConfigParse (parse contents))) (\<lambda>parsed. resolve (traced_fs fs) parsed uid))
        (\<lambda>_. always_checked uid)"
      unfolding resolve_def attempt_def seq_ret
      using resolve_servers_trace
      by (cases "parse contents") (auto intro!: emits_ret emits_seq [OF resolve_servers_trace] split: sum.split)
    then show ?case unfolding tr by (rule emits_mono) auto
  qed auto
qed

end
