(* ===== verification/Pam_Module.thy ===== *)
theory Pam_Module
  imports Auth_Conduct Audit_Emit Options Udp_Trace Config_Spec
begin

text \<open>
  The PAM module (\<open>crates/pam-ffi/src/lib.rs\<close> and the entry points of \<open>ffi.rs\<close>): gathering the
  inputs, loading the configuration, running one attempt over UDP and emitting its audit record.
  Everything outside the program is the record \<open>system\<close>, a parameter of the model.
\<close>

unbundle bit_operations_syntax

section \<open>The system\<close>

record 'w system =
  sys_crypto :: crypto
  sys_getrandom :: "'w \<Rightarrow> bytes option \<times> 'w"
  sys_pam :: "'w pam"
  sys_fs :: "'w fs"
  sys_os :: "'w os"
  sys_audit :: "'w audit_os"

abbreviation DISALLOW_NULL_AUTHTOK :: u32 where "DISALLOW_NULL_AUTHTOK \<equiv> 1"
abbreviation PAM_SILENT :: u32 where "PAM_SILENT \<equiv> 0x8000"

definition null_authtok_return :: "bool \<Rightarrow> int" where
  "null_authtok_return disallow_null = AUTH_ERR"

text \<open>\<open>{b:02x}\<close>.\<close>

definition hex_octet :: "u8 \<Rightarrow> rstr" where
  "hex_octet b = (let d = digits 16 (unat b) in if length d < 2 then 48 # d else d)"

definition corr_id :: "(bytes option, 'w) io \<Rightarrow> (rstr, 'w) io" where
  "corr_id getrandom =
     seq getrandom (\<lambda>r. ret (case r of None \<Rightarrow> lit ''unavailable'' | Some bs \<Rightarrow> concat (map hex_octet bs)))"

text \<open>The environment of the flow: the PAM conversation and the UDP transport of the configuration.\<close>

definition module_env :: "'w system \<Rightarrow> nat \<Rightarrow> bool \<Rightarrow> config \<Rightarrow> 'w env" where
  "module_env S fuel silent cf =
     \<lparr>env_crypto = sys_crypto S,
      env_random = getrandom_16 (sys_getrandom S),
      env_conv = pam_conversation (sys_pam S) silent,
      env_exchange = udp_exchange (sys_os S) fuel
        (from_config (cf_probe_timeout cf) (cf_timeout cf) (cf_retries cf) (cf_source_ip cf))\<rparr>"

section \<open>The entry points\<close>

definition sm_authenticate :: "'w system \<Rightarrow> nat \<Rightarrow> u32 \<Rightarrow> rstr list \<Rightarrow> (int, 'w) io" where
  "sm_authenticate S fuel flags args =
     seq (harden_process (sys_pam S)) (\<lambda>_.
     let opts = parse_options args in
     seq (corr_id (getrandom_16 (sys_getrandom S))) (\<lambda>corr.
     let pre_config = syslog_sink (sys_audit S) in
     seq (get_user (sys_pam S)) (\<lambda>r. case r of
       Inl code \<Rightarrow>
         seq (emit_boundary pre_config PROTO_UNKNOWN [] corr (result_from_pam_code code) REASON_USER_ERROR) (\<lambda>_. ret code)
     | Inr username \<Rightarrow>
     let disallow_null = (flags AND DISALLOW_NULL_AUTHTOK \<noteq> 0);
         silent = (flags AND PAM_SILENT \<noteq> 0) in
     seq (if op_use_first_pass opts then get_authtok_item (sys_pam S) else get_authtok_prompting (sys_pam S)) (\<lambda>fetched.
     case fetched of
       Inl code \<Rightarrow>
         seq (emit_boundary pre_config PROTO_UNKNOWN username corr (result_from_pam_code code) REASON_AUTHTOK_ERROR)
           (\<lambda>_. ret code)
     | Inr None \<Rightarrow>
         let code = null_authtok_return disallow_null in
         seq (emit_boundary pre_config PROTO_UNKNOWN username corr (result_from_pam_code code) REASON_NULL_AUTHTOK)
           (\<lambda>_. ret code)
     | Inr (Some authtok) \<Rightarrow>
     if secret_string_is_empty authtok then
       seq (emit_boundary pre_config PROTO_UNKNOWN username corr Denied REASON_EMPTY_PASSWORD) (\<lambda>_. ret AUTH_ERR)
     else
     seq (mlock_best_effort (sys_pam S) (as_bytes (expose_secret authtok))) (\<lambda>locked.
     seq (load (sys_fs S) (op_config_path opts)) (\<lambda>r. case r of
       Inl e \<Rightarrow>
         seq (emit_boundary pre_config PROTO_UNKNOWN username corr Unavail REASON_CONFIG_ERROR)
           (\<lambda>_. ret (pam_code (outcome_for_config_error e)))
     | Inr cf \<Rightarrow>
     let ctx = \<lparr>ac_username = username, ac_password = authtok, ac_corr = corr\<rparr> in
     seq (authenticate_report (module_env S fuel silent cf) ctx cf) (\<lambda>rep.
     let sink = from_backend (sys_audit S) (cf_audit cf) in
     seq (emit_attempt sink (proto_str (cf_protocol cf)) username corr rep) (\<lambda>_.
       ret (pam_code (rp_outcome rep))))))))))"

definition sm_setcred :: int where
  "sm_setcred = PAM_SUCCESS"

definition sm_acct_mgmt :: int where
  "sm_acct_mgmt = PAM_IGNORE"

definition pam_sm_authenticate :: "'w system \<Rightarrow> nat \<Rightarrow> u32 \<Rightarrow> bytes option list \<Rightarrow> (int, 'w) io" where
  "pam_sm_authenticate S fuel flags argv =
     catch_unwind (sm_authenticate S fuel flags (module_args argv)) AUTHINFO_UNAVAIL"

definition pam_sm_setcred :: "u32 \<Rightarrow> bytes option list \<Rightarrow> (int, 'w) io" where
  "pam_sm_setcred flags argv = catch_unwind (ret sm_setcred) AUTHINFO_UNAVAIL"

definition pam_sm_acct_mgmt :: "u32 \<Rightarrow> bytes option list \<Rightarrow> (int, 'w) io" where
  "pam_sm_acct_mgmt flags argv = catch_unwind (ret sm_acct_mgmt) AUTHINFO_UNAVAIL"

section \<open>The module provides the environment of an attempt\<close>

lemma module_env_simps [simp]:
  "env_crypto (module_env S fuel silent cf) = sys_crypto S"
  "env_random (module_env S fuel silent cf) = getrandom_16 (sys_getrandom S)"
  "env_conv (module_env S fuel silent cf) = pam_conversation (sys_pam S) silent"
  "env_exchange (module_env S fuel silent cf) = udp_exchange (sys_os S) fuel
     (from_config (cf_probe_timeout cf) (cf_timeout cf) (cf_retries cf) (cf_source_ip cf))"
  by (simp_all add: module_env_def)

interpretation pam: auth_env "module_env S fuel silent cf"
proof
  fix server request accept w d w'
  assume "env_exchange (module_env S fuel silent cf) server request accept w = Returns (Inr d) w'"
  then show "accept d" unfolding module_env_simps by (rule udp.exchange_accepted)
next
  fix w b w'
  assume "env_random (module_env S fuel silent cf) w = Returns (Some b) w'"
  then have "getrandom_16 (sys_getrandom S) w = Returns (Some b) w'" by simp
  from givesD [OF getrandom_16_length this] show "length b = 16" by simp
qed

end
