(* ===== verification/Demo.thy ===== *)
theory Demo
  imports Pam_Module
begin

text \<open>
  A concrete system for evaluating the model: constant cryptographic functions of the documented
  lengths, a random source that always gives the same octets, a PAM stack with a fixed user and
  password, a file system with one configuration and one secret, and a network that delivers the
  datagrams queued in the world.
\<close>

definition flat_crypto :: crypto where
  "flat_crypto =
     \<lparr>md5 = (\<lambda>m. zeros 16), hmac_md5_mac = (\<lambda>k m. Some (zeros 16)), md4 = (\<lambda>m. zeros 16),
      sha1 = (\<lambda>m. zeros 20), des_encrypt = (\<lambda>k m. zeros 8)\<rparr>"

lemma flat_crypto_ok: "crypto_ok flat_crypto"
  by (simp add: crypto_ok_def flat_crypto_def)

definition demo_os :: "bytes list os" where
  "demo_os =
     \<lparr>os_bind = (\<lambda>a w. (Inr 3, w)), os_connect = (\<lambda>s a w. (Inr (), w)),
      os_send = (\<lambda>s b w. (Inr (length b), w)), os_set_read_timeout = (\<lambda>s d w. (Inr (), w)),
      os_recv = (\<lambda>s n w. case w of [] \<Rightarrow> (Inl ConnectionRefused, []) | d # ds \<Rightarrow> (Inr d, ds)),
      os_now = (\<lambda>w. (Nanos 0, w))\<rparr>"

definition demo_pam :: "'w pam" where
  "demo_pam =
     \<lparr>pam_handle_null = False, pam_get_user = (\<lambda>w. ((0, Some [117]), w)),
      pam_get_authtok = (\<lambda>w. ((0, Some [112]), w)), pam_authtok_item = (\<lambda>w. ((0, Some [112]), w)),
      pam_conv_item = (\<lambda>w. ((0, Some True), w)), pam_converse = (\<lambda>ms w. ((0, Some (map (\<lambda>m. Some [49]) ms)), w)),
      libc_harden = (\<lambda>w. w), libc_mlock = (\<lambda>b w. (0, w))\<rparr>"

definition demo_file :: metadata where
  "demo_file = \<lparr>md_is_file = True, md_uid = 0, md_mode = 384, md_len = 0\<rparr>"

definition demo_config_text :: bytes where
  "demo_config_text = blit ''server 1.2.3.4:9 /s'' @ [10] @ blit ''protocol pap''"

definition demo_fs :: "'w fs" where
  "demo_fs =
     \<lparr>fs_open = (\<lambda>path w. (Inr (if path = lit ''/s'' then 6 else 5), w)), fs_metadata = (\<lambda>d w. (Inr demo_file, w)),
      fs_read_to_end = (\<lambda>d w. (Inr (if d = 6 then blit ''k'' else demo_config_text), w))\<rparr>"

definition demo_audit :: "'w audit_os" where
  "demo_audit =
     \<lparr>au_open = (\<lambda>w. (5, w)), au_log_acct_message = (\<lambda>fd ty pg op name uid addr res w. (1, w)),
      au_close = (\<lambda>fd w. w), au_ident_set = (\<lambda>w. False), au_set_ident = (\<lambda>w. w),
      au_openlog = (\<lambda>i f p w. w), au_syslog = (\<lambda>p f l w. w)\<rparr>"

definition demo_system :: "bytes list system" where
  "demo_system =
     \<lparr>sys_crypto = flat_crypto, sys_getrandom = (\<lambda>w. (Some (replicate 16 7), w)), sys_pam = demo_pam,
      sys_fs = demo_fs, sys_os = demo_os, sys_audit = demo_audit\<rparr>"

definition demo_server :: server where
  "demo_server = \<lparr>sv_addr = SocketV4 (Ipv4 1 2 3 4) 9, sv_secret = SecretString (lit ''k'')\<rparr>"

definition demo_config :: "protocol \<Rightarrow> config" where
  "demo_config p =
     \<lparr>cf_servers = [demo_server], cf_protocol = p, cf_timeout = 60, cf_probe_timeout = 5, cf_retries = 1,
      cf_nas_identifier = None, cf_nas_ip = None, cf_source_ip = None, cf_require_message_authenticator = True,
      cf_audit = AuditBoth, cf_debug = False\<rparr>"

definition demo_ctx :: attempt_context where
  "demo_ctx = \<lparr>ac_username = lit ''u'', ac_password = SecretString (lit ''p''), ac_corr = concat (map hex_octet (replicate 16 7))\<rparr>"

section \<open>Responses\<close>

text \<open>A response of the demo server: under \<open>flat_crypto\<close> every authenticator is zero.\<close>

definition demo_response :: "code \<Rightarrow> (u8 \<times> bytes) list \<Rightarrow> bytes" where
  "demo_response c as = packet_bytes (code_as_u8 c) 7 (zeros 16) (as @ [(MESSAGE_AUTHENTICATOR, zeros 16)])"

definition demo_parsed :: "code \<Rightarrow> (u8 \<times> bytes) list \<Rightarrow> parsed_response" where
  "demo_parsed c as =
     \<lparr>pr_code = code_as_u8 c, pr_id = 7, pr_authenticator = zeros 16, pr_attrs = as @ [(MESSAGE_AUTHENTICATOR, zeros 16)]\<rparr>"

abbreviation demo_ra :: bytes where "demo_ra \<equiv> replicate 16 7"

lemma demo_response_parsed:
  "request_fits as \<Longrightarrow> list_all (\<lambda>a. fst a = VENDOR_SPECIFIC \<longrightarrow> vsa_ok (snd a)) as \<Longrightarrow>
     parse_response (demo_response c as) = Inr (demo_parsed c as)"
  unfolding demo_response_def demo_parsed_def
  by (subst parse_packet_bytes) (simp_all add: request_fits_def wf_attrs_def fits_def)

lemma demo_response_verified:
  assumes "request_fits as" and "list_all (\<lambda>a. fst a = VENDOR_SPECIFIC \<longrightarrow> vsa_ok (snd a)) as" and "ma_values as = []"
  shows "verify_response flat_crypto (attempt_binding (demo_config p) 7 demo_ra) (demo_response c as) secret"
  unfolding verify_response_parsed [OF demo_response_parsed [OF assms(1,2)]]
  using assms(3)
  by (simp add: authentic_response_def demo_parsed_def attempt_binding_def require_message_authenticator_def
      request_binding_new_def response_authenticator_def flat_crypto_def demo_config_def)

section \<open>Running the flow\<close>

abbreviation demo_env :: "protocol \<Rightarrow> bytes list env" where
  "demo_env p \<equiv> module_env demo_system (Suc (Suc 0)) True (demo_config p)"

lemma demo_random: "env_random (demo_env p) w = Returns (Some demo_ra) w"
  by (simp add: getrandom_16_def demo_system_def seq_apply lift_apply)

lemma demo_fresh: "seq (fresh_request_authenticator (env_random (demo_env p))) f w = f (Inr demo_ra) w"
  by (simp add: fresh_request_authenticator_def seq_apply demo_random del: module_env_simps)

lemma demo_challenges:
  "seq (generate_challenges (env_random (demo_env p))) f w =
     f (Inr \<lparr>authenticator_challenge = demo_ra, peer_challenge = demo_ra\<rparr>) w"
  by (simp add: generate_challenges_def seq_apply attempt_apply demo_random del: module_env_simps)

lemma demo_exchange:
  "accept d \<Longrightarrow> length d \<le> 4096 \<Longrightarrow>
     seq (env_exchange (demo_env p) server request accept) f (d # ds) = f (Inr d) ds"
  by (simp add: udp_exchange_def connect_def attempt_apply seq_apply lift_apply demo_system_def demo_os_def
      from_config_def udp_transport_new_def demo_config_def retransmit_interval_def dur_div_def elapsed_since_def
      from_secs_def saturating_sub_def less_eq_duration_def)

lemma demo_sent: "sv_addr demo_server = SocketV4 (Ipv4 1 2 3 4) 9" "secret_of demo_server = [107]"
  by (simp_all add: demo_server_def secret_of_def expose_secret_def lit_def as_bytes_def utf8_char_def as_u8_def)

text \<open>The requests of the demo attempt fit.\<close>

lemma demo_utf8: "as_bytes (ac_username demo_ctx) = [117]" "as_bytes (expose_secret (ac_password demo_ctx)) = [112]"
  by (simp_all add: demo_ctx_def expose_secret_def lit_def as_bytes_def utf8_char_def as_u8_def)

lemma demo_nas: "nas_attrs (demo_config p) = []"
  by (simp add: nas_attrs_def demo_config_def)

lemma demo_mschap_packet:
  fixes p secret
  defines "ch \<equiv> \<lparr>authenticator_challenge = demo_ra, peer_challenge = demo_ra\<rparr>"
  obtains b where "build_mschapv2_packet flat_crypto (ac_username demo_ctx)
     (build_request flat_crypto (as_bytes (ac_username demo_ctx)) (expose_secret (ac_password demo_ctx)) ch 7) 7 demo_ra
     (demo_config p) secret = Inr b"
proof -
  have "request_fits (mschapv2_attrs (ac_username demo_ctx)
      (build_request flat_crypto (as_bytes (ac_username demo_ctx)) (expose_secret (ac_password demo_ctx)) ch 7) (demo_config p))"
    unfolding mschapv2_attrs_def ch_def
    by (simp add: build_request_attrs [OF flat_crypto_ok] demo_nas demo_utf8 request_fits_def fits_def
        length_generate_nt_response [OF flat_crypto_ok])
  then show ?thesis using that build_mschapv2_packet_Inr [OF flat_crypto_ok, of demo_ra] by (metis length_replicate)
qed

lemma demo_pap_packet:
  obtains b where "build_pap_packet flat_crypto (ac_username demo_ctx) (hide_core flat_crypto [112] secret demo_ra) 7 demo_ra
     (demo_config p) secret = Inr b"
proof -
  have "request_fits (pap_attrs (ac_username demo_ctx) (hide_core flat_crypto [112] secret demo_ra) (demo_config p))"
    by (simp add: pap_attrs_def demo_nas demo_utf8 request_fits_def fits_def length_hide_core [OF flat_crypto_ok] padded_len_def)
  then show ?thesis using that build_pap_packet_Inr [OF flat_crypto_ok, of demo_ra] by (metis length_replicate)
qed

text \<open>An Accept without further attributes, a challenge with a State, an Accept with the Success of the server.\<close>

definition demo_success :: bytes where
  "demo_success = server_success 7 (zeros 20)"

abbreviation demo_mschap_accept :: bytes where
  "demo_mschap_accept \<equiv> demo_response AccessAccept [(VENDOR_SPECIFIC, demo_success)]"

lemma length_demo_success: "length demo_success = 49"
  by (simp add: demo_success_def server_success_def blit_def)

lemma demo_mschap_attrs:
  "request_fits [(VENDOR_SPECIFIC, demo_success)]" "vsa_ok demo_success"
  using length_demo_success by (simp_all add: request_fits_def fits_def demo_success_def server_success_def vsa_value_ok blit_def)

lemma demo_mschap_outcome:
  "mschapv2_response_outcome E demo_mschap_accept
     (build_request flat_crypto user pw \<lparr>authenticator_challenge = demo_ra, peer_challenge = demo_ra\<rparr> 7) =
   ret (report_of PamSuccess REASON_SUCCESS)"
proof -
  let ?r = "demo_parsed AccessAccept [(VENDOR_SPECIFIC, demo_success)]"
  have parsed: "parse_response demo_mschap_accept = Inr ?r"
    using demo_mschap_attrs by (intro demo_response_parsed) simp_all
  have "known_code ?r = Some AccessAccept" by (simp add: known_code_def demo_parsed_def code_from_u8_def)
  moreover have "attr_values ?r VENDOR_SPECIFIC = server_success 7 (authenticator_digest flat_crypto pw nt peer auth user) # []"
    for nt peer auth
    by (simp add: attr_values_def demo_parsed_def demo_success_def authenticator_digest_def flat_crypto_def)
  note server_success_verified [OF flat_crypto_ok this]
  ultimately show ?thesis
    by (simp add: mschapv2_response_outcome_def parsed build_request_def Let_def)
qed

lemmas demo_steps = demo_fresh demo_challenges demo_exchange demo_response_verified

lemma demo_ctx_ok: "ac_username demo_ctx \<noteq> []" "\<not> secret_string_is_empty (ac_password demo_ctx)"
    "cf_servers (demo_config p) = [demo_server]" "cf_protocol (demo_config p) = p"
  by (simp_all add: demo_ctx_def lit_def secret_string_is_empty_def demo_config_def)

lemma demo_info: "seq (cv_info (env_conv (demo_env p)) PUSH_NOTICE) f w = f (Inr ()) w"
  by (simp add: pam_conversation_def)

lemma demo_mschap_run:
  "authenticate_report (demo_env Mschapv2) demo_ctx (demo_config Mschapv2) [demo_mschap_accept] =
     Returns (with_server (report_of PamSuccess REASON_SUCCESS) (sv_addr demo_server)) []"
proof -
  let ?ch = "\<lparr>authenticator_challenge = demo_ra, peer_challenge = demo_ra\<rparr>"
  let ?req = "build_request flat_crypto (as_bytes (ac_username demo_ctx)) (expose_secret (ac_password demo_ctx)) ?ch 7"
  obtain b where b: "build_mschapv2_packet flat_crypto (ac_username demo_ctx) ?req 7 demo_ra (demo_config Mschapv2)
      (secret_of demo_server) = Inr b" using demo_mschap_packet by blast
  have v: "verify_response flat_crypto (attempt_binding (demo_config Mschapv2) 7 demo_ra) demo_mschap_accept s" for s
    using demo_mschap_attrs by (intro demo_response_verified) simp_all
  have l: "length demo_mschap_accept \<le> 4096"
    by (simp add: demo_response_def length_demo_success)
  have K: "env_crypto (demo_env Mschapv2) = flat_crypto" by (simp add: demo_system_def)
  have "mschapv2_servers (demo_env Mschapv2) demo_ctx (demo_config Mschapv2) False [demo_server] [demo_mschap_accept] =
      Returns (with_server (report_of PamSuccess REASON_SUCCESS) (sv_addr demo_server)) []"
    unfolding mschapv2_servers.simps Let_def demo_fresh sum.case demo_challenges
    using b l v by (simp add: K demo_exchange demo_info demo_mschap_outcome del: module_env_simps)
  then show ?thesis
    unfolding authenticate_report_def mschapv2_flow_def by (simp add: demo_ctx_ok del: module_env_simps)
qed

section \<open>A PAP attempt with one challenge\<close>

abbreviation demo_pap_challenge :: bytes where
  "demo_pap_challenge \<equiv> demo_response AccessChallenge [(STATE, [1])]"

abbreviation demo_pap_accept :: bytes where
  "demo_pap_accept \<equiv> demo_response AccessAccept []"

lemma demo_small: "request_fits [(STATE, [1])]" "request_fits []"
  by (simp_all add: request_fits_def fits_def)

lemma demo_rounds:
  "pap_round demo_pap_challenge = Inr (Challenge \<lparr>ch_prompt = [], ch_state = Some [1]\<rparr>)"
  "pap_round demo_pap_accept = Inr (Done (report_of PamSuccess REASON_SUCCESS))"
  using demo_small
  by (simp_all add: pap_round_def demo_response_parsed known_code_def demo_parsed_def code_from_u8_def
      challenge_from_response_def attr_values_def sanitize_reply_message_def)

lemma demo_prompt:
  "seq (prompt_response (env_conv (demo_env p)) []) f w = f (Inr (SecretString (lit ''1''))) w"
  by (simp add: prompt_response_def otp_prompt_def sanitize_reply_message_def DEFAULT_OTP_PROMPT_def
      pam_conversation_def converse_def replies_of_def demo_system_def demo_pam_def seq_apply lift_apply
      clamp_def lit_def as_bytes_def utf8_char_def secret_string_from_text_def)

lemma demo_follow_up:
  obtains b where "build_response flat_crypto \<lparr>ch_prompt = [], ch_state = Some [1]\<rparr> 7 demo_ra [117] [49] secret = Inr b"
proof -
  have "request_fits (follow_up_attrs [117] (hide_core flat_crypto [49] secret demo_ra) [1])"
    by (simp add: follow_up_attrs_def request_fits_def fits_def length_hide_core [OF flat_crypto_ok] padded_len_def)
  then show ?thesis using that
      build_response_Inr [OF flat_crypto_ok, of demo_ra "\<lparr>ch_prompt = [], ch_state = Some [1]\<rparr>" 7 "[117]" "[49]" secret]
    by auto
qed

text \<open>One answered challenge: the next datagram is the response to the follow-up.\<close>

lemma demo_pap_round:
  assumes "d = demo_pap_challenge \<or> d = demo_pap_accept"
  shows "pap_loop (demo_env Pap) demo_ctx (demo_config Pap) addr secret (Suc n) demo_pap_challenge (d # ds) =
    pap_loop (demo_env Pap) demo_ctx (demo_config Pap) addr secret n d ds"
proof -
  obtain b where b: "build_response flat_crypto \<lparr>ch_prompt = [], ch_state = Some [1]\<rparr> 7 demo_ra [117] [49] secret = Inr b"
    using demo_follow_up by blast
  have v: "verify_response flat_crypto (attempt_binding (demo_config Pap) 7 demo_ra) d s" for s
    using demo_small assms by (auto intro!: demo_response_verified)
  have l: "length d \<le> 4096" using assms by (auto simp: demo_response_def)
  have K: "env_crypto (demo_env Pap) = flat_crypto" by (simp add: demo_system_def)
  have code: "as_bytes (expose_secret (SecretString (lit ''1''))) = [49]" "\<not> secret_string_is_empty (SecretString (lit ''1''))"
    by (simp_all add: expose_secret_def lit_def as_bytes_def utf8_char_def as_u8_def secret_string_is_empty_def)
  show ?thesis
    unfolding pap_loop.simps demo_rounds sum.case round.case Let_def challenge.simps demo_prompt code
    using b v l by (simp add: K demo_utf8 code demo_fresh demo_exchange del: module_env_simps)
qed

text \<open>The first exchange of a PAP attempt.\<close>

lemma demo_pap_first:
  "authenticate_report (demo_env Pap) demo_ctx (demo_config Pap) (demo_pap_challenge # ds) =
     seq (pap_loop (demo_env Pap) demo_ctx (demo_config Pap) (sv_addr demo_server) (secret_of demo_server) 8 demo_pap_challenge)
       (\<lambda>rep. ret (with_server rep (sv_addr demo_server))) ds"
proof -
  obtain b where b: "build_pap_packet flat_crypto (ac_username demo_ctx) (hide_core flat_crypto [112] (secret_of demo_server) demo_ra)
      7 demo_ra (demo_config Pap) (secret_of demo_server) = Inr b" using demo_pap_packet by blast
  have v: "verify_response flat_crypto (attempt_binding (demo_config Pap) 7 demo_ra) demo_pap_challenge s" for s
    using demo_small by (auto intro!: demo_response_verified)
  have l: "length demo_pap_challenge \<le> 4096" by (simp add: demo_response_def)
  have K: "env_crypto (demo_env Pap) = flat_crypto" by (simp add: demo_system_def)
  have "pap_servers (demo_env Pap) demo_ctx (demo_config Pap) [demo_server] (demo_pap_challenge # ds) =
      seq (pap_rounds (demo_env Pap) demo_ctx (demo_config Pap) (sv_addr demo_server) (secret_of demo_server) demo_pap_challenge)
       (\<lambda>rep. ret (with_server rep (sv_addr demo_server))) ds"
    unfolding pap_servers.simps Let_def demo_fresh sum.case
    using b l v by (simp add: K demo_utf8 try_hide_password_def demo_exchange del: module_env_simps)
  then show ?thesis
    unfolding authenticate_report_def pap_flow_def pap_rounds_def by (simp add: demo_ctx_ok del: module_env_simps)
qed

lemma demo_pap_run:
  "authenticate_report (demo_env Pap) demo_ctx (demo_config Pap) [demo_pap_challenge, demo_pap_accept] =
     Returns (with_server (report_of PamSuccess REASON_SUCCESS) (sv_addr demo_server)) []"
proof -
  have n: "8 = Suc (Suc 6)" by simp
  have "pap_loop (demo_env Pap) demo_ctx (demo_config Pap) (sv_addr demo_server) (secret_of demo_server) 8
      demo_pap_challenge [demo_pap_accept] = Returns (report_of PamSuccess REASON_SUCCESS) []"
    unfolding n demo_pap_round [OF disjI2 [OF refl]]
    unfolding pap_loop.simps(2) demo_rounds sum.case round.case ret_apply ..
  then show ?thesis unfolding demo_pap_first seq_apply by (simp only: exec.case ret_apply)
qed

section \<open>A PAP attempt with eight challenges, logged\<close>

lemma seq_logged_io: "m w = Returns a w' \<Longrightarrow> seq (logged_io ev m) f (w, tr) = f a (w', tr @ [ev a])"
  by (simp add: seq_apply logged_io_def)

lemma demo_logged_fresh:
  "seq (fresh_request_authenticator (logged_io EvRandom (env_random (demo_env p)))) f (w, tr) =
     f (Inr demo_ra) (w, tr @ [EvRandom (Some demo_ra)])"
  by (simp add: fresh_request_authenticator_def seq_assoc seq_logged_io [where m = "env_random (demo_env p)", OF demo_random]
      del: module_env_simps)

lemma demo_logged_exchange:
  assumes "accept d" and "length d \<le> 4096"
  shows "seq (logged_io ev (env_exchange (demo_env p) server request accept)) f (d # ds, tr) = f (Inr d) (ds, tr @ [ev (Inr d)])"
  by (rule seq_logged_io) (use demo_exchange [where accept = accept and d = d and f = ret, OF assms] in \<open>simp del: module_env_simps\<close>)

lemma demo_logged_prompt:
  "seq (logged_io ev (cv_prompt_echo_off (env_conv (demo_env p)) (otp_prompt []))) f (w, tr) =
     f (Inr (SecretString (lit ''1''))) (w, tr @ [ev (Inr (SecretString (lit ''1'')))])"
  by (rule seq_logged_io) (use demo_prompt [of p ret w] in \<open>simp add: prompt_response_def\<close>)

text \<open>The events of one round, with the follow-up request of a server.\<close>

definition demo_round_events :: "socket_addr \<Rightarrow> bytes \<Rightarrow> bytes \<Rightarrow> event list" where
  "demo_round_events addr request d =
     [EvPrompt (otp_prompt []) (Inr (SecretString (lit ''1''))), EvRandom (Some demo_ra), EvExchange addr request (Inr d)]"

lemma demo_logged_round:
  obtains b where "\<And>n d ds tr. d = demo_pap_challenge \<or> d = demo_pap_accept \<Longrightarrow>
    pap_loop (traced_env (demo_env Pap)) demo_ctx (demo_config Pap) addr secret (Suc n) demo_pap_challenge (d # ds, tr) =
    pap_loop (traced_env (demo_env Pap)) demo_ctx (demo_config Pap) addr secret n d (ds, tr @ demo_round_events addr b d)"
proof -
  obtain b where b: "build_response flat_crypto \<lparr>ch_prompt = [], ch_state = Some [1]\<rparr> 7 demo_ra [117] [49] secret = Inr b"
    using demo_follow_up by blast
  have K: "env_crypto (demo_env Pap) = flat_crypto" by (simp add: demo_system_def)
  have code: "as_bytes (expose_secret (SecretString (lit ''1''))) = [49]" "\<not> secret_string_is_empty (SecretString (lit ''1''))"
    by (simp_all add: expose_secret_def lit_def as_bytes_def utf8_char_def as_u8_def secret_string_is_empty_def)
  have "pap_loop (traced_env (demo_env Pap)) demo_ctx (demo_config Pap) addr secret (Suc n) demo_pap_challenge (d # ds, tr) =
    pap_loop (traced_env (demo_env Pap)) demo_ctx (demo_config Pap) addr secret n d (ds, tr @ demo_round_events addr b d)"
    if d: "d = demo_pap_challenge \<or> d = demo_pap_accept" for n d ds tr
  proof -
    have v: "verify_response flat_crypto (attempt_binding (demo_config Pap) 7 demo_ra) d s" for s
      using demo_small d by (auto intro!: demo_response_verified)
    have l: "length d \<le> 4096" using d by (auto simp: demo_response_def)
    show ?thesis
      unfolding pap_loop.simps demo_rounds sum.case round.case Let_def challenge.simps prompt_response_def traced_env_simps
        demo_logged_prompt code if_not_P [OF code(2)] demo_logged_fresh
      using b v l by (simp add: K demo_utf8 code demo_logged_exchange demo_round_events_def del: module_env_simps)
  qed
  then show ?thesis using that by blast
qed

text \<open>The response to the last answer allowed is received and logged, but not looked at.\<close>

lemma demo_logged_rounds:
  "\<exists>evs. pap_loop (traced_env (demo_env Pap)) demo_ctx (demo_config Pap) addr secret (Suc n) demo_pap_challenge
       (replicate n demo_pap_challenge @ [demo_pap_accept], tr) = Returns (report_of PamAuthErr REASON_MAX_ROUNDS) ([], tr @ evs) \<and>
     length (prompted evs) = Suc n \<and> (\<exists>pre b. evs = pre @ [EvExchange addr b (Inr demo_pap_accept)])"
proof -
  obtain b where round: "\<And>n d ds tr. d = demo_pap_challenge \<or> d = demo_pap_accept \<Longrightarrow>
    pap_loop (traced_env (demo_env Pap)) demo_ctx (demo_config Pap) addr secret (Suc n) demo_pap_challenge (d # ds, tr) =
    pap_loop (traced_env (demo_env Pap)) demo_ctx (demo_config Pap) addr secret n d (ds, tr @ demo_round_events addr b d)"
    using demo_logged_round by blast
  show ?thesis
  proof (induction n arbitrary: tr)
    case 0
    show ?case unfolding replicate_0 append_Nil round [OF disjI2 [OF refl]]
      unfolding pap_loop.simps(1) ret_apply
      by (intro exI [of _ "demo_round_events addr b demo_pap_accept"]) (simp add: demo_round_events_def)
  next
    case (Suc n)
    let ?first = "demo_round_events addr b demo_pap_challenge"
    obtain evs where "pap_loop (traced_env (demo_env Pap)) demo_ctx (demo_config Pap) addr secret (Suc n) demo_pap_challenge
         (replicate n demo_pap_challenge @ [demo_pap_accept], tr @ ?first) =
           Returns (report_of PamAuthErr REASON_MAX_ROUNDS) ([], (tr @ ?first) @ evs)"
        "length (prompted evs) = Suc n" "\<exists>pre b. evs = pre @ [EvExchange addr b (Inr demo_pap_accept)]"
      using Suc.IH [of "tr @ ?first"] by blast
    then show ?case
      unfolding replicate_Suc append_Cons round [OF disjI1 [OF refl]]
      by (intro exI [of _ "?first @ evs"]) (auto simp del: pap_loop.simps simp: demo_round_events_def)
  qed
qed

lemma demo_logged_eight:
  "\<exists>pre b tr. authenticate_report (traced_env (demo_env Pap)) demo_ctx (demo_config Pap)
       (replicate 8 demo_pap_challenge @ [demo_pap_accept], []) =
     Returns (with_server (report_of PamAuthErr REASON_MAX_ROUNDS) (sv_addr demo_server)) ([], tr) \<and>
     length (prompted tr) = 8 \<and> tr = pre @ [EvExchange (sv_addr demo_server) b (Inr demo_pap_accept)]"
proof -
  let ?E = "traced_env (demo_env Pap)" and ?ds = "replicate 7 demo_pap_challenge @ [demo_pap_accept]"
  obtain b where b: "build_pap_packet flat_crypto (ac_username demo_ctx) (hide_core flat_crypto [112] (secret_of demo_server) demo_ra)
      7 demo_ra (demo_config Pap) (secret_of demo_server) = Inr b" using demo_pap_packet by blast
  have v: "verify_response flat_crypto (attempt_binding (demo_config Pap) 7 demo_ra) demo_pap_challenge s" for s
    using demo_small by (auto intro!: demo_response_verified)
  have l: "length demo_pap_challenge \<le> 4096" by (simp add: demo_response_def)
  have K: "env_crypto (demo_env Pap) = flat_crypto" by (simp add: demo_system_def)
  let ?first = "[EvRandom (Some demo_ra), EvExchange (sv_addr demo_server) b (Inr demo_pap_challenge)]"
  obtain evs where loop: "pap_loop ?E demo_ctx (demo_config Pap) (sv_addr demo_server) (secret_of demo_server) 8 demo_pap_challenge
        (?ds, ?first) = Returns (report_of PamAuthErr REASON_MAX_ROUNDS) ([], ?first @ evs)"
      and evs: "length (prompted evs) = 8" "\<exists>pre b. evs = pre @ [EvExchange (sv_addr demo_server) b (Inr demo_pap_accept)]"
    using demo_logged_rounds [of "sv_addr demo_server" "secret_of demo_server" 7 ?first] by (auto simp del: pap_loop.simps)
  have ds: "replicate 8 demo_pap_challenge @ [demo_pap_accept] = demo_pap_challenge # ?ds" by (simp add: numeral_eq_Suc)
  have "pap_servers ?E demo_ctx (demo_config Pap) [demo_server] (demo_pap_challenge # ?ds, []) =
      Returns (with_server (report_of PamAuthErr REASON_MAX_ROUNDS) (sv_addr demo_server)) ([], ?first @ evs)"
    unfolding pap_servers.simps Let_def traced_env_simps demo_logged_fresh sum.case pap_rounds_def
    using b v l loop
    by (simp add: K demo_utf8 try_hide_password_def demo_logged_exchange del: module_env_simps pap_loop.simps)
      (simp add: seq_apply del: module_env_simps pap_loop.simps)
  then have "authenticate_report ?E demo_ctx (demo_config Pap) (demo_pap_challenge # ?ds, []) =
      Returns (with_server (report_of PamAuthErr REASON_MAX_ROUNDS) (sv_addr demo_server)) ([], ?first @ evs)"
    unfolding authenticate_report_def pap_flow_def by (simp add: demo_ctx_ok del: module_env_simps)
  moreover obtain pre b' where "evs = pre @ [EvExchange (sv_addr demo_server) b' (Inr demo_pap_accept)]" using evs(2) by blast
  ultimately show ?thesis using evs(1) unfolding ds
    by (intro exI [of _ "?first @ pre"] exI [of _ b'] exI [of _ "?first @ evs"]) simp
qed

section \<open>The module\<close>

lemma demo_text: "from_utf8 demo_config_text = Some (lit ''server 1.2.3.4:9 /s'' @ [10] @ lit ''protocol pap'')"
  by (simp add: demo_config_text_def blit_def lit_def)

lemma demo_lines: "lines (lit ''server 1.2.3.4:9 /s'' @ [10] @ lit ''protocol pap'') = [lit ''server 1.2.3.4:9 /s'', lit ''protocol pap'']"
  by (simp add: lit_def strip_cr_def lines.simps)

lemma demo_trim: "trim (takeWhile (\<lambda>c. c \<noteq> 35) (lit ''server 1.2.3.4:9 /s'')) = lit ''server 1.2.3.4:9 /s''"
  "trim (takeWhile (\<lambda>c. c \<noteq> 35) (lit ''protocol pap'')) = lit ''protocol pap''"
  by (simp_all add: lit_def trim_def is_whitespace_def)

lemma demo_split: "split_whitespace (lit ''server 1.2.3.4:9 /s'') = [lit ''server'', lit ''1.2.3.4:9'', lit ''/s'']"
  "split_whitespace (lit ''protocol pap'') = [lit ''protocol'', lit ''pap'']"
  by (simp_all add: lit_def is_whitespace_def split_whitespace.simps)

lemma demo_addr: "socket_addr_from_str (lit ''1.2.3.4:9'') = Some (SocketV4 (Ipv4 1 2 3 4) 9)"
proof -
  have "lit ''1.2.3.4:9'' = socket_addr_to_string (SocketV4 (Ipv4 1 2 3 4) 9)"
    by (simp add: lit_def dec_def digits.simps)
  then show ?thesis by (simp only: socket_v4_roundtrip)
qed

text \<open>The configuration of the demo file.\<close>

lemma demo_parse:
  "parse (lit ''server 1.2.3.4:9 /s'' @ [10] @ lit ''protocol pap'') =
     Inr \<lparr>pc_servers = [\<lparr>ps_addr = SocketV4 (Ipv4 1 2 3 4) 9, ps_secret_path = lit ''/s''\<rparr>], pc_protocol = Pap,
          pc_timeout = 60, pc_probe_timeout = 5, pc_retries = 1, pc_nas_identifier = None, pc_nas_ip = None,
          pc_source_ip = None, pc_require_message_authenticator = True, pc_audit = AuditBoth, pc_debug = False\<rparr>"
proof -
  have ne: "lit ''server 1.2.3.4:9 /s'' \<noteq> []" "lit ''protocol pap'' \<noteq> []" by (simp_all add: lit_def)
  have 1: "parse_line parse_start (0 + 1) (lit ''server 1.2.3.4:9 /s'') =
      Inr (parse_start\<lparr>st_servers := [\<lparr>ps_addr = SocketV4 (Ipv4 1 2 3 4) 9, ps_secret_path = lit ''/s''\<rparr>]\<rparr>)"
    unfolding parse_line_def demo_trim Let_def demo_split using ne by (simp add: parse_entry_def demo_addr) (simp add: parse_start_def)
  have 2: "parse_line (parse_start\<lparr>st_servers := ss\<rparr>) (0 + 1 + 1) (lit ''protocol pap'') =
      Inr (parse_start\<lparr>st_servers := ss, st_protocol := Some Pap\<rparr>)" for ss
    unfolding parse_line_def demo_trim Let_def demo_split using ne
    by (simp add: parse_entry_def single_def set_once_def) (simp add: parse_start_def)
  show ?thesis
    unfolding parse_def demo_lines parse_lines.simps 1 and_then.simps 2
    by (simp add: parse_finish_def parse_start_def unwrap_or_def)
qed

lemma demo_load:
  assumes "path \<noteq> lit ''/s''"
  shows "load demo_fs path w = Returns (Inr (demo_config Pap)) w"
proof -
  have perm: "validate_permissions demo_file 0 = Inr ()" by (simp add: validate_permissions_def demo_file_def)
  have opens: "open_secure demo_fs p 0 w = Returns (Inr (if p = lit ''/s'' then 6 else 5, demo_file)) w" for p w
    by (simp add: open_secure_def attempt_apply seq_apply lift_apply demo_fs_def perm)
  have content: "read_config_text demo_fs 5 path w = Returns (Inr (lit ''server 1.2.3.4:9 /s'' @ [10] @ lit ''protocol pap'')) w"
    by (simp add: read_config_text_def seq_apply lift_apply demo_fs_def demo_text)
  have secret: "read_secret demo_fs 6 m p w = Returns (Inr (SecretString (lit ''k''))) w" for m p
    by (simp add: read_secret_def attempt_apply seq_apply lift_apply demo_fs_def strip_newline_def blit_def lit_def
        secret_string_from_text_def)
  show ?thesis
    unfolding load_def load_with_expected_uid_def attempt_apply opens
    using assms by (simp add: attempt_apply content demo_parse [simplified] resolve_def opens secret demo_config_def demo_server_def)
qed

lemma demo_path: "op_config_path (parse_options []) \<noteq> lit ''/s''"
  by (simp add: parse_options_def options_default_def DEFAULT_CONFIG_PATH_def)

text \<open>With \<open>PAM_SILENT\<close> and no module arguments the module authenticates the demo user.\<close>

lemma demo_module_run:
  "\<exists>w'. pam_sm_authenticate demo_system (Suc (Suc 0)) PAM_SILENT [] [demo_pap_challenge, demo_pap_accept] = Returns 0 w'"
proof -
  let ?w = "[demo_pap_challenge, demo_pap_accept]"
  let ?rep = "with_server (report_of PamSuccess REASON_SUCCESS) (sv_addr demo_server)"
  have harden: "harden_process demo_pam = ret ()" by (rule ext) (simp add: harden_process_def demo_pam_def)
  have corr: "corr_id (getrandom_16 (sys_getrandom demo_system)) = ret (ac_corr demo_ctx)"
    by (rule ext) (simp add: corr_id_def getrandom_16_def demo_system_def seq_apply lift_apply demo_ctx_def)
  have user: "get_user demo_pam w = Returns (Inr (ac_username demo_ctx)) w" for w
    by (simp add: get_user_def demo_pam_def seq_apply lift_apply lit_def demo_ctx_def)
  have tok: "get_authtok_prompting demo_pam w = Returns (Inr (Some (ac_password demo_ctx))) w" for w
    by (simp add: get_authtok_prompting_def demo_pam_def seq_apply lift_apply copy_pam_authtok_def
        secret_string_from_text_def lit_def demo_ctx_def)
  have lock: "mlock_best_effort demo_pam b w = Returns True w" for b w
    by (simp add: mlock_best_effort_def demo_pam_def seq_apply lift_apply)
  have opts: "\<not> op_use_first_pass (parse_options [])" by (simp add: parse_options_def options_default_def)
  have ctx: "\<lparr>ac_username = ac_username demo_ctx, ac_password = ac_password demo_ctx, ac_corr = ac_corr demo_ctx\<rparr> = demo_ctx"
    by simp
  have sys: "sys_pam demo_system = demo_pam" "sys_fs demo_system = demo_fs" "sys_audit demo_system = demo_audit"
    by (simp_all add: demo_system_def)
  obtain w' :: "bytes list" where emit: "emit_attempt (from_backend demo_audit (cf_audit (demo_config Pap))) (proto_str Pap)
      (ac_username demo_ctx) (ac_corr demo_ctx) ?rep [] = Returns () w'"
    unfolding emit_attempt_def
    using backend.emit_once_returns [of demo_audit "cf_audit (demo_config Pap)"
        "attempt_record (proto_str Pap) (ac_username demo_ctx) (ac_corr demo_ctx) ?rep" "[]"] by metis
  have "sm_authenticate demo_system (Suc (Suc 0)) PAM_SILENT [] ?w = Returns 0 w'"
    unfolding sm_authenticate_def Let_def sys harden corr seq_ret
    using opts demo_ctx_ok emit
    by (simp add: seq_apply user tok lock demo_load [OF demo_path] ctx demo_pap_run del: module_env_simps)
  then show ?thesis by (simp add: pam_sm_authenticate_def catch_unwind_def)
qed

end
