(* ===== verification/Module_Spec.thy ===== *)
theory Module_Spec
  imports Pam_Module
begin

text \<open>
  What the module promises as a whole: its decision, made without the audit backend, followed by
  exactly one audit record that agrees with the returned code; and what a returned \<open>PAM_SUCCESS\<close>
  rests on.
\<close>

section \<open>The decision\<close>

text \<open>The returned code, the configured backend (none before the configuration is loaded), the record.\<close>

record decision =
  de_code :: int
  de_backend :: "audit_backend option"
  de_record :: audit_record

definition boundary :: "rstr \<Rightarrow> rstr \<Rightarrow> int \<Rightarrow> rstr \<Rightarrow> decision" where
  "boundary user corr code why =
     \<lparr>de_code = code, de_backend = None,
      de_record = audit_record_new PROTO_UNKNOWN [] user (result_from_pam_code code) why corr\<rparr>"

definition decide_flow :: "'w system \<Rightarrow> nat \<Rightarrow> bool \<Rightarrow> rstr \<Rightarrow> attempt_context \<Rightarrow> (decision, 'w) io" where
  "decide_flow S fuel silent path ctx =
     seq (load (sys_fs S) path) (\<lambda>r. case r of
       Inl e \<Rightarrow> ret (boundary (ac_username ctx) (ac_corr ctx) AUTHINFO_UNAVAIL REASON_CONFIG_ERROR)
     | Inr cf \<Rightarrow>
         seq (authenticate_report (module_env S fuel silent cf) ctx cf) (\<lambda>rep.
           ret \<lparr>de_code = pam_code (rp_outcome rep), de_backend = Some (cf_audit cf),
                de_record = attempt_record (proto_str (cf_protocol cf)) (ac_username ctx) (ac_corr ctx) rep\<rparr>))"

definition sm_decide :: "'w system \<Rightarrow> nat \<Rightarrow> u32 \<Rightarrow> rstr list \<Rightarrow> (decision, 'w) io" where
  "sm_decide S fuel flags args =
     seq (harden_process (sys_pam S)) (\<lambda>_.
     seq (corr_id (getrandom_16 (sys_getrandom S))) (\<lambda>corr.
     seq (get_user (sys_pam S)) (\<lambda>r. case r of
       Inl code \<Rightarrow> ret (boundary [] corr code REASON_USER_ERROR)
     | Inr username \<Rightarrow>
     seq (if op_use_first_pass (parse_options args) then get_authtok_item (sys_pam S)
          else get_authtok_prompting (sys_pam S)) (\<lambda>fetched. case fetched of
       Inl code \<Rightarrow> ret (boundary username corr code REASON_AUTHTOK_ERROR)
     | Inr None \<Rightarrow> ret (boundary username corr AUTH_ERR REASON_NULL_AUTHTOK)
     | Inr (Some authtok) \<Rightarrow>
     if secret_string_is_empty authtok then ret (boundary username corr AUTH_ERR REASON_EMPTY_PASSWORD)
     else
     seq (mlock_best_effort (sys_pam S) (as_bytes (expose_secret authtok))) (\<lambda>_.
       decide_flow S fuel (flags AND PAM_SILENT \<noteq> 0) (op_config_path (parse_options args))
         \<lparr>ac_username = username, ac_password = authtok, ac_corr = corr\<rparr>)))))"

definition sink_of :: "'w system \<Rightarrow> audit_backend option \<Rightarrow> 'w sink" where
  "sink_of S b = (case b of None \<Rightarrow> syslog_sink (sys_audit S) | Some k \<Rightarrow> from_backend (sys_audit S) k)"

definition emit_decision :: "'w system \<Rightarrow> decision \<Rightarrow> (int, 'w) io" where
  "emit_decision S d = seq (emit_once (sink_of S (de_backend d)) (de_record d)) (\<lambda>_. ret (de_code d))"

lemma seq_cong: "(\<And>a. f a = g a) \<Longrightarrow> seq m f = seq m g"
  by (drule ext) simp

lemma emit_boundary_decision:
  "seq (emit_boundary (syslog_sink (sys_audit S)) PROTO_UNKNOWN user corr (result_from_pam_code code) why) (\<lambda>_. ret code) =
     emit_decision S (boundary user corr code why)"
  by (simp add: emit_decision_def boundary_def emit_boundary_def sink_of_def)

lemma results_of_codes: "result_from_pam_code AUTH_ERR = Denied" "result_from_pam_code AUTHINFO_UNAVAIL = Unavail"
  by (simp_all add: result_from_pam_code_def)

text \<open>
  The module is its decision followed by one record: the same record on the same sink, and the code
  of the decision.
\<close>

lemma sm_authenticate_decides:
  "sm_authenticate S fuel flags args = seq (sm_decide S fuel flags args) (emit_decision S)"
proof -
  note b = emit_boundary_decision [of S _ _ AUTH_ERR, unfolded results_of_codes]
    emit_boundary_decision [of S _ _ AUTHINFO_UNAVAIL, unfolded results_of_codes]
  have flow: "seq (load (sys_fs S) path) (\<lambda>r. case r of
       Inl e \<Rightarrow> seq (emit_boundary (syslog_sink (sys_audit S)) PROTO_UNKNOWN u corr Unavail REASON_CONFIG_ERROR)
           (\<lambda>_. ret (pam_code (outcome_for_config_error e)))
     | Inr cf \<Rightarrow>
         seq (authenticate_report (module_env S fuel silent cf) \<lparr>ac_username = u, ac_password = t, ac_corr = corr\<rparr> cf) (\<lambda>rep.
         seq (emit_attempt (from_backend (sys_audit S) (cf_audit cf)) (proto_str (cf_protocol cf)) u corr rep) (\<lambda>_.
           ret (pam_code (rp_outcome rep)))))
    = seq (decide_flow S fuel silent path \<lparr>ac_username = u, ac_password = t, ac_corr = corr\<rparr>) (emit_decision S)"
    for path u corr t silent
    unfolding decide_flow_def seq_assoc
  proof (rule seq_cong, goal_cases)
    case (1 r)
    show ?case
      by (cases r) (simp_all add: b outcome_for_config_error_def seq_assoc emit_decision_def emit_attempt_def sink_of_def)
  qed
  show ?thesis
    unfolding sm_authenticate_def sm_decide_def Let_def null_authtok_return_def results_of_codes seq_assoc
  proof (intro seq_cong, goal_cases)
    case (1 x corr r)
    show ?case
    proof (cases r)
      case (Inl code)
      then show ?thesis by (simp add: emit_boundary_decision)
    next
      case (Inr u)
      show ?thesis unfolding Inr sum.case seq_assoc
      proof (rule seq_cong, goal_cases)
        case (1 fetched)
        show ?case by (auto simp: emit_boundary_decision b seq_assoc flow split: sum.split option.split)
      qed
    qed
  qed
qed

text \<open>The decision does not depend on the audit backend.\<close>

lemma sm_decide_audit: "sm_decide (S\<lparr>sys_audit := A\<rparr>) fuel flags args = sm_decide S fuel flags args"
proof -
  have env: "module_env (S\<lparr>sys_audit := A\<rparr>) fuel silent cf = module_env S fuel silent cf" for silent cf
    by (simp add: module_env_def)
  have sys: "sys_pam (S\<lparr>sys_audit := A\<rparr>) = sys_pam S" "sys_fs (S\<lparr>sys_audit := A\<rparr>) = sys_fs S"
    "sys_getrandom (S\<lparr>sys_audit := A\<rparr>) = sys_getrandom S" by simp_all
  show ?thesis unfolding sm_decide_def decide_flow_def env sys ..
qed

section \<open>The record agrees with the code\<close>

definition decision_ok :: "decision \<Rightarrow> bool" where
  "decision_ok d \<longleftrightarrow>
     ar_result (de_record d) = result_from_pam_code (de_code d) \<and> ar_op (de_record d) = DEFAULT_OP \<and>
     clean (ar_proto (de_record d)) \<and>
     (de_code d = PAM_SUCCESS \<longleftrightarrow> ar_reason (de_record d) = REASON_SUCCESS) \<and>
     (de_backend d = None \<longrightarrow> de_code d \<noteq> PAM_SUCCESS \<and> ar_proto (de_record d) = PROTO_UNKNOWN \<and> ar_server (de_record d) = [])"

lemma boundary_ok: "code \<noteq> 0 \<Longrightarrow> why \<noteq> REASON_SUCCESS \<Longrightarrow> decision_ok (boundary user corr code why)"
  by (simp add: decision_ok_def boundary_def audit_record_new_def proto_str_clean)

text \<open>The reason \<open>success\<close> is used for successes only.\<close>

definition reason_ok :: "auth_report \<Rightarrow> bool" where
  "reason_ok rep \<longleftrightarrow> (rp_outcome rep = PamSuccess \<longleftrightarrow> rp_reason rep = REASON_SUCCESS)"

lemma reason_ok_report:
  "reason_ok (report_of out why) \<longleftrightarrow> (out = PamSuccess \<longleftrightarrow> why = REASON_SUCCESS)"
  "reason_ok (with_server rep addr) \<longleftrightarrow> reason_ok rep"
  by (simp_all add: reason_ok_def)

lemma mschap_reason_ok: "gives (mschapv2_servers E ctx cf notice svs) reason_ok"
proof (induction svs arbitrary: notice)
  case Nil
  show ?case unfolding mschapv2_servers.simps by (simp add: reason_ok_report)
next
  case (Cons sv svs)
  have resp: "gives (mschapv2_response_outcome E d req) reason_ok" for d req
    unfolding mschapv2_response_outcome_def
    by (auto intro!: gives_seq_any simp: reason_ok_report split: sum.split option.split code.split)
  show ?case unfolding mschapv2_servers.simps Let_def
    by (auto intro!: gives_seq_any gives_seq [OF resp] Cons.IH simp: reason_ok_report split: sum.split transport_error.split)
qed

lemma pap_loop_reason_ok: "gives (pap_loop E ctx cf addr secret n d) reason_ok"
proof (induction n arbitrary: d)
  case 0
  show ?case unfolding pap_loop.simps by (simp add: reason_ok_report)
next
  case (Suc n)
  have "reason_ok rep" if "pap_round d = Inl rep \<or> pap_round d = Inr (Done rep)" for rep
    using that by (auto simp: pap_round_def reason_ok_report split: sum.splits option.splits code.splits)
  then show ?case unfolding pap_loop.simps Let_def
    by (auto intro!: gives_seq_any Suc.IH simp: reason_ok_report split: sum.split round.split)
qed

lemma pap_reason_ok: "gives (pap_servers E ctx cf svs) reason_ok"
proof (induction svs)
  case Nil
  show ?case unfolding pap_servers.simps by (simp add: reason_ok_report)
next
  case (Cons sv svs)
  show ?case unfolding pap_servers.simps Let_def pap_rounds_def
    by (auto intro!: gives_seq_any gives_seq [OF pap_loop_reason_ok] Cons.IH simp: reason_ok_report
        split: sum.split transport_error.split)
qed

lemma authenticate_reason_ok: "gives (authenticate_report E ctx cf) reason_ok"
  unfolding authenticate_report_def mschapv2_flow_def pap_flow_def
  by (auto intro!: mschap_reason_ok pap_reason_ok simp: reason_ok_report split: protocol.split)

lemma attempt_decision_ok:
  "reason_ok rep \<Longrightarrow>
     decision_ok \<lparr>de_code = pam_code (rp_outcome rep), de_backend = Some b,
                  de_record = attempt_record (proto_str p) user corr rep\<rparr>"
  by (cases "rp_outcome rep")
    (auto simp: decision_ok_def attempt_record_def audit_record_new_def proto_str_clean result_from_pam_code_def reason_ok_def)

lemma decide_flow_ok: "gives (decide_flow S fuel silent path ctx) decision_ok"
  unfolding decide_flow_def
  by (auto intro!: gives_seq_any gives_seq [OF authenticate_reason_ok] attempt_decision_ok boundary_ok split: sum.split)

lemma fetch_errors:
  "gives (if b then get_authtok_item P else get_authtok_prompting P) (\<lambda>r. \<forall>c. r = Inl c \<longrightarrow> c \<noteq> 0)"
  using get_authtok_errors [of P] by simp

lemma sm_decide_ok: "gives (sm_decide S fuel flags args) decision_ok"
  unfolding sm_decide_def
proof (rule gives_seq_any, rule gives_seq_any, rule gives_seq [OF get_user_not_empty], goal_cases)
  case (1 x corr r)
  show ?case
  proof (cases r)
    case (Inl c)
    then show ?thesis using 1 by (simp add: boundary_ok)
  next
    case (Inr u)
    show ?thesis unfolding Inr sum.case
      by (rule gives_seq [OF fetch_errors])
        (auto intro!: boundary_ok gives_seq_any decide_flow_ok split: sum.split option.split)
  qed
qed

section \<open>Success\<close>

text \<open>
  The one run behind a returned \<open>PAM_SUCCESS\<close>, call by call from the world the entry point was
  called in to the world it returned in: hardening, the correlation identifier, the user name and
  the token libpam gave, the lock, the configuration loaded from the configured path, the flow of
  the module's environment with its log, and the record.
\<close>

definition succeeded ::
  "'w system \<Rightarrow> nat \<Rightarrow> u32 \<Rightarrow> rstr list \<Rightarrow> 'w \<Rightarrow> 'w \<Rightarrow> attempt_context \<Rightarrow> config \<Rightarrow> auth_report \<Rightarrow> event list \<Rightarrow> bool" where
  "succeeded S fuel flags args w w' ctx cf rep tr \<longleftrightarrow>
     (\<exists>w1 w2 w3 w4 w5 w6 w7 locked.
        harden_process (sys_pam S) w = Returns () w1 \<and>
        corr_id (getrandom_16 (sys_getrandom S)) w1 = Returns (ac_corr ctx) w2 \<and>
        get_user (sys_pam S) w2 = Returns (Inr (ac_username ctx)) w3 \<and>
        (if op_use_first_pass (parse_options args) then get_authtok_item (sys_pam S)
         else get_authtok_prompting (sys_pam S)) w3 = Returns (Inr (Some (ac_password ctx))) w4 \<and>
        mlock_best_effort (sys_pam S) (as_bytes (expose_secret (ac_password ctx))) w4 = Returns locked w5 \<and>
        load (sys_fs S) (op_config_path (parse_options args)) w5 = Returns (Inr cf) w6 \<and>
        authenticate_report (traced_env (module_env S fuel (flags AND PAM_SILENT \<noteq> 0) cf)) ctx cf (w6, []) =
          Returns rep (w7, tr) \<and>
        rp_outcome rep = PamSuccess \<and>
        emit_attempt (from_backend (sys_audit S) (cf_audit cf)) (proto_str (cf_protocol cf)) (ac_username ctx) (ac_corr ctx)
          rep w7 = Returns () w')"

lemma boundary_code: "seq (emit_boundary sink p u c res why) (\<lambda>_. ret code) w = Returns code' w' \<Longrightarrow> code' = code"
  by (auto simp: seq_Returns)

text \<open>The rest of the module, from the loading of the configuration on.\<close>

lemma flow_success:
  assumes "seq (load (sys_fs S) path) (\<lambda>r. case r of
      Inl e \<Rightarrow> seq (emit_boundary sink PROTO_UNKNOWN u corr Unavail REASON_CONFIG_ERROR)
        (\<lambda>_. ret (pam_code (outcome_for_config_error e)))
    | Inr cf \<Rightarrow>
        seq (authenticate_report (module_env S fuel silent cf) ctx cf) (\<lambda>rep.
        seq (emit_attempt (from_backend (sys_audit S) (cf_audit cf)) (proto_str (cf_protocol cf)) u corr rep) (\<lambda>_.
          ret (pam_code (rp_outcome rep))))) w = Returns PAM_SUCCESS w'"
  shows "\<exists>cf rep tr w6 w7. load (sys_fs S) path w = Returns (Inr cf) w6 \<and> rp_outcome rep = PamSuccess \<and>
    authenticate_report (traced_env (module_env S fuel silent cf)) ctx cf (w6, []) = Returns rep (w7, tr) \<and>
    emit_attempt (from_backend (sys_audit S) (cf_audit cf)) (proto_str (cf_protocol cf)) u corr rep w7 = Returns () w'"
proof -
  from assms obtain r w6 where r: "load (sys_fs S) path w = Returns r w6" unfolding seq_Returns by blast
  with assms obtain cf where cf: "r = Inr cf"
    by (cases r) (auto simp: seq_Returns outcome_for_config_error_def)
  with assms r obtain rep w7 where rep: "authenticate_report (module_env S fuel silent cf) ctx cf w6 = Returns rep w7"
      "emit_attempt (from_backend (sys_audit S) (cf_audit cf)) (proto_str (cf_protocol cf)) u corr rep w7 = Returns () w'"
      "pam_code (rp_outcome rep) = PAM_SUCCESS"
    by (auto simp: seq_Returns)
  from rep(3) have "rp_outcome rep = PamSuccess" by (cases "rp_outcome rep") simp_all
  moreover obtain tr where "authenticate_report (traced_env (module_env S fuel silent cf)) ctx cf (w6, []) = Returns rep (w7, tr)"
    using pam.attempt_explained [OF rep(1)] by blast
  ultimately show ?thesis using r cf rep(2) by blast
qed

lemma sm_authenticate_success:
  assumes run: "sm_authenticate S fuel flags args w = Returns PAM_SUCCESS w'"
  shows "\<exists>ctx cf rep tr. succeeded S fuel flags args w w' ctx cf rep tr"
proof -
  let ?fetch = "if op_use_first_pass (parse_options args) then get_authtok_item (sys_pam S) else get_authtok_prompting (sys_pam S)"
  from run obtain w1 corr w2 r w3 where 1: "harden_process (sys_pam S) w = Returns () w1"
      "corr_id (getrandom_16 (sys_getrandom S)) w1 = Returns corr w2" "get_user (sys_pam S) w2 = Returns r w3"
    unfolding sm_authenticate_def Let_def seq_Returns by auto
  note run = run [unfolded sm_authenticate_def Let_def, unfolded seq_apply [of "harden_process _"] 1 exec.case
      seq_apply [of "corr_id _"] seq_apply [of "get_user _"]]
  obtain u where u: "r = Inr u"
  proof (cases r)
    case (Inl c)
    then have "c = 0" using run boundary_code by fastforce
    then show ?thesis using givesD [OF get_user_not_empty 1(3)] Inl by simp
  qed
  note run = run [unfolded u sum.case]
  from run obtain t w4 where 2: "?fetch w3 = Returns t w4" unfolding seq_Returns by blast
  note run = run [unfolded seq_apply [of ?fetch] 2 exec.case]
  obtain tok where t: "t = Inr (Some tok)"
  proof (cases t)
    case (Inl c)
    then have "c = 0" using run boundary_code by fastforce
    then show ?thesis using givesD [OF fetch_errors 2] Inl by simp
  next
    case (Inr o')
    then show ?thesis using run that boundary_code by (cases o') (fastforce simp: null_authtok_return_def)+
  qed
  note run = run [unfolded t sum.case option.case]
  have ne: "\<not> secret_string_is_empty tok" using run boundary_code by (fastforce split: if_splits)
  note run = run [unfolded if_not_P [OF ne]]
  from run obtain locked w5 where 3: "mlock_best_effort (sys_pam S) (as_bytes (expose_secret tok)) w4 = Returns locked w5"
    unfolding seq_Returns [of "mlock_best_effort _ _"] by blast
  note run = run [unfolded seq_apply [of "mlock_best_effort _ _"] 3 exec.case]
  show ?thesis using flow_success [OF run] 1 2 3 u t unfolding succeeded_def
    by (intro exI [of _ "\<lparr>ac_username = u, ac_password = tok, ac_corr = corr\<rparr>"]) fastforce
qed

lemma pam_sm_authenticate_success:
  assumes "pam_sm_authenticate S fuel flags argv w = Returns PAM_SUCCESS w'"
  shows "\<exists>ctx cf rep tr. succeeded S fuel flags (module_args argv) w w' ctx cf rep tr"
proof -
  from assms have "sm_authenticate S fuel flags (module_args argv) w = Returns PAM_SUCCESS w'"
    by (auto simp: pam_sm_authenticate_def catch_unwind_def split: exec.splits)
  then show ?thesis by (rule sm_authenticate_success)
qed

end
