(* ===== verification/Service_Properties.thy ===== *)
theory Service_Properties
  imports Demo Module_Spec
begin

text \<open>
  The properties of the configuration, the audit trail and the module arguments, each with a
  concrete instance where it has hypotheses.
\<close>

section \<open>Configuration\<close>

text \<open>C29: The parser implements the declarative reading of a configuration: it accepts exactly the texts
  whose entries all have known keys, well-formed values and no repeated scalar, with at least one
  server and a protocol; the result is the table of the entries with the documented defaults.\<close>

theorem config_parse_spec:
  "parse text = Inr c \<longleftrightarrow>
     entries_ok (entries text) \<and> values_of ''server'' (entries text) \<noteq> [] \<and>
     values_of ''protocol'' (entries text) \<noteq> [] \<and> c = config_of (entries text)"
  by (rule parse_spec)

text \<open>The load with its operations logged is the load.\<close>

lemma traced_fs_simps:
  "fs_open (traced_fs fs) p = logged (EvOpen p) (fs_open fs p)"
  "fs_metadata (traced_fs fs) d = logged (EvStat d) (fs_metadata fs d)"
  "fs_read_to_end (traced_fs fs) d = logged (EvRead d) (fs_read_to_end fs d)"
  by (simp_all add: traced_fs_def)

lemma simulates_load:
  "simulates (load_with_expected_uid (traced_fs fs) path uid) (load_with_expected_uid fs path uid)"
proof -
  have o: "simulates (open_secure (traced_fs fs) p uid) (open_secure fs p uid)" for p
    unfolding open_secure_def traced_fs_simps by (intro simulates_attempt simulates_seq simulates_lift simulates_ret)
  have r: "simulates (read_secret (traced_fs fs) d m p) (read_secret fs d m p)" for d m p
    unfolding read_secret_def traced_fs_simps
    by (intro simulates_attempt simulates_seq simulates_lift simulates_ret) (auto split: option.split)
  have s: "simulates (resolve_servers (traced_fs fs) uid pss) (resolve_servers fs uid pss)" for pss
    by (induction pss) (auto intro!: simulates_attempt o r)
  show ?thesis
    unfolding load_with_expected_uid_def resolve_def read_config_text_def traced_fs_simps
    by (auto intro!: simulates_attempt simulates_seq simulates_lift o s split: sum.split option.split)
qed

text \<open>C31: No file content is used unchecked: in the log of every load, each read is of a descriptor
  whose \<open>fstat\<close>, after it was opened, showed a regular file owned by the expected user with no group
  or other access; and the logged load is the load itself.\<close>

theorem load_reads_checked_files:
  "emits (load_with_expected_uid (traced_fs fs) path uid) (\<lambda>_. always_checked uid) \<and>
   simulates (load_with_expected_uid (traced_fs fs) path uid) (load_with_expected_uid fs path uid)"
  using load_trace simulates_load by blast

lemma resolve_servers_gives:
  "gives (resolve_servers fs uid pss) (\<lambda>r. \<forall>svs. r = Inr svs \<longrightarrow> map sv_addr svs = map ps_addr pss)"
proof (induction pss)
  case (Cons ps pss)
  have "gives (attempt (resolve_servers fs uid pss) (\<lambda>servers. ret (Inr (\<lparr>sv_addr = ps_addr ps, sv_secret = secret\<rparr> # servers))))
      (\<lambda>r. \<forall>svs. r = Inr svs \<longrightarrow> map sv_addr svs = map ps_addr (ps # pss))" for secret
    unfolding attempt_def by (rule gives_seq [OF Cons.IH]) (auto split: sum.split)
  note step = gives_attempt [OF this]
  show ?case unfolding resolve_servers.simps
  proof (rule gives_attempt, goal_cases)
    case (1 a)
    show ?case by (cases a) (simp only: prod.case, rule step, simp)
  qed simp
qed simp

lemma load_gives:
  "gives (load_with_expected_uid fs path uid)
     (\<lambda>r. \<forall>cf. r = Inr cf \<longrightarrow> (\<exists>text pc. parse text = Inr pc \<and> map sv_addr (cf_servers cf) = map ps_addr (pc_servers pc) \<and>
        cf_protocol cf = pc_protocol pc \<and> cf_timeout cf = pc_timeout pc \<and> cf_probe_timeout cf = pc_probe_timeout pc \<and>
        cf_retries cf = pc_retries pc \<and> cf_nas_identifier cf = pc_nas_identifier pc \<and> cf_nas_ip cf = pc_nas_ip pc \<and>
        cf_source_ip cf = pc_source_ip pc \<and>
        cf_require_message_authenticator cf = pc_require_message_authenticator pc \<and> cf_audit cf = pc_audit pc))"
    (is "gives _ ?P")
proof -
  have r: "gives (resolve fs pc uid) ?P" if "parse t = Inr pc" for t pc
    unfolding resolve_def attempt_def
    by (rule gives_seq [OF resolve_servers_gives]) (use that in \<open>auto split: sum.split\<close>)
  have "gives (attempt (ret (map_err ConfigParse (parse text))) (\<lambda>parsed. resolve fs parsed uid)) ?P" for "text"
    by (cases "parse text") (auto simp: attempt_def r)
  note step = gives_attempt [OF this]
  show ?thesis unfolding load_with_expected_uid_def
  proof (rule gives_attempt, goal_cases)
    case (1 a)
    show ?case by (cases a) (simp only: prod.case, rule step, simp)
  qed simp
qed

text \<open>A loaded configuration is a parsed one with its secrets resolved: the same servers in the same
  order, at least one, and the same settings.\<close>

theorem loaded_config:
  assumes "load fs path w = Returns (Inr cf) w'"
  shows "\<exists>text pc. parse text = Inr pc \<and> cf_servers cf \<noteq> [] \<and>
    map sv_addr (cf_servers cf) = map ps_addr (pc_servers pc) \<and>
    cf_protocol cf = pc_protocol pc \<and> cf_timeout cf = pc_timeout pc \<and> cf_probe_timeout cf = pc_probe_timeout pc \<and>
    cf_retries cf = pc_retries pc \<and> cf_nas_identifier cf = pc_nas_identifier pc \<and> cf_nas_ip cf = pc_nas_ip pc \<and>
    cf_source_ip cf = pc_source_ip pc \<and>
    cf_require_message_authenticator cf = pc_require_message_authenticator pc \<and> cf_audit cf = pc_audit pc"
proof -
  from givesD [OF load_gives assms [unfolded load_def], rule_format, OF refl]
  obtain t pc where p: "parse t = Inr pc" "map sv_addr (cf_servers cf) = map ps_addr (pc_servers pc)"
      "cf_protocol cf = pc_protocol pc" "cf_timeout cf = pc_timeout pc" "cf_probe_timeout cf = pc_probe_timeout pc"
      "cf_retries cf = pc_retries pc" "cf_nas_identifier cf = pc_nas_identifier pc" "cf_nas_ip cf = pc_nas_ip pc"
      "cf_source_ip cf = pc_source_ip pc"
      "cf_require_message_authenticator cf = pc_require_message_authenticator pc" "cf_audit cf = pc_audit pc"
    by blast
  moreover have "cf_servers cf \<noteq> []" using p(2) parse_servers_nonempty [OF p(1)] by auto
  ultimately show ?thesis by (intro exI [of _ t] exI [of _ pc]) simp
qed

theorem loaded_config_witness:
  "\<exists>text pc. parse text = Inr pc \<and> map ps_addr (pc_servers pc) = [SocketV4 (Ipv4 1 2 3 4) 9] \<and> pc_protocol pc = Pap"
proof -
  have "(lit ''/c'') \<noteq> (lit ''/s'')" by simp
  from loaded_config [OF demo_load [OF this]] obtain t pc where p: "parse t = Inr pc"
      "map sv_addr (cf_servers (demo_config Pap)) = map ps_addr (pc_servers pc)"
      "cf_protocol (demo_config Pap) = pc_protocol pc"
    by blast
  then show ?thesis by (intro exI [of _ t] exI [of _ pc]) (simp add: demo_config_def demo_server_def)
qed

section \<open>Audit\<close>

lemma attempt_record_clean: "clean (ar_op (attempt_record (proto_str p) user corr rep))"
    "clean (ar_proto (attempt_record (proto_str p) user corr rep))"
  by (simp_all add: attempt_record_def audit_record_new_def proto_str_clean)

text \<open>C32: The audit line of an attempt cannot be forged by its inputs: whatever the user name, it splits
  at white space into exactly the seven fields in their order, the result field is the one of the
  report, and the user field is the user name with white space and control characters replaced.\<close>

theorem audit_line_fields:
  "split_whitespace (render (attempt_record (proto_str p) user corr rep)) =
     [lit ''op=pam_nps_auth'', lit ''proto='' @ proto_str p,
      lit ''server='' @ sanitize (case rp_server rep of Some addr \<Rightarrow> ip_to_string addr | None \<Rightarrow> []),
      lit ''user='' @ sanitize user, lit ''result='' @ auth_result_as_str (result_of (rp_outcome rep)),
      lit ''reason='' @ sanitize (rp_reason rep), lit ''corr='' @ sanitize corr]"
proof -
  have op: "lit ''op='' @ ar_op (attempt_record (proto_str p) user corr rep) = lit ''op=pam_nps_auth''"
    by (simp add: attempt_record_def audit_record_new_def DEFAULT_OP_def lit_def)
  show ?thesis
    unfolding render_fields [OF attempt_record_clean] op
    by (simp add: attempt_record_def audit_record_new_def Let_def)
qed

lemma clean_no_nul: "clean s \<Longrightarrow> 0 \<notin> set s"
  by (auto simp: clean_def list_all_iff is_control_def)

lemma render_no_nul: "clean (ar_op r) \<Longrightarrow> clean (ar_proto r) \<Longrightarrow> 0 \<notin> set (render r)"
  using clean_no_nul clean_sanitize by (cases "ar_result r") (auto simp: render_def lit_def)

text \<open>C33: The syslog sink writes every attempt: one \<open>syslog\<close> call with the constant format and the
  rendered line, at informational priority for a success and warning priority otherwise, after
  \<open>openlog\<close> on first use. No input makes it skip the line.\<close>

theorem syslog_writes_attempt:
  "syslog_sink A (attempt_record (proto_str p) user corr rep) w =
     Returns () (au_syslog A (if rp_outcome rep = PamSuccess then 6 else 4) SYSLOG_FMT
       (as_bytes (render (attempt_record (proto_str p) user corr rep)))
       (if au_ident_set A w then w else au_set_ident A (au_openlog A (as_bytes SYSLOG_IDENT) 9 80 w)))"
proof -
  let ?r = "attempt_record (proto_str p) user corr rep"
  have "cstring_new (render ?r) = Inr (as_bytes (render ?r))"
    using render_no_nul [OF attempt_record_clean] by (simp add: cstring_new_def)
  moreover have "is_success (ar_result ?r) \<longleftrightarrow> rp_outcome rep = PamSuccess"
    by (cases "rp_outcome rep") (simp_all add: attempt_record_def audit_record_new_def is_success_def)
  ultimately show ?thesis
    by (simp add: syslog_sink_def syslog_emit_def syslog_ident_def seq_apply attempt_apply LOG_INFO_def LOG_WARNING_def
        LOG_PID_NDELAY_def LOG_AUTHPRIV_def)
qed

lemma auditd_op_no_nul: "clean (ar_op r) \<Longrightarrow> clean (ar_proto r) \<Longrightarrow> 0 \<notin> set (auditd_op r)"
  using clean_no_nul clean_sanitize by (auto simp: auditd_op_def lit_def)

lemma sanitized_field_no_nul: "cstring_new (sanitized_field s) = Inr (as_bytes (sanitized_field s))"
  by (auto simp: cstring_new_def sanitized_field_def)

text \<open>The auditd sink writes every attempt for which the audit socket opens: one message of type
  \<open>USER_AUTH\<close> with the user name, the server and result 1 for a success and 0 otherwise, on the
  descriptor that is then closed. No input makes it skip the message.\<close>

theorem auditd_writes_attempt:
  fixes p user corr rep
  assumes "au_open A w = (fd, w1)" and "0 \<le> fd"
  defines "r \<equiv> attempt_record (proto_str p) user corr rep"
  shows "auditd_sink A r w =
    Returns () (au_close A fd (snd (au_log_acct_message A fd 1100 (as_bytes PGNAME) (as_bytes (auditd_op r))
      (as_bytes (sanitized_field user)) 0xFFFFFFFF
      (if ar_server r = [] then None else Some (as_bytes (sanitized_field (ar_server r))))
      (if rp_outcome rep = PamSuccess then 1 else 0) w1)))"
proof -
  have pg: "cstring_new PGNAME = Inr (as_bytes PGNAME)" by (simp add: cstring_new_def PGNAME_def lit_def)
  have op: "cstring_new (auditd_op r) = Inr (as_bytes (auditd_op r))"
    using auditd_op_no_nul [OF attempt_record_clean] by (simp add: cstring_new_def r_def)
  have res: "auditd_result (ar_result r) = (if rp_outcome rep = PamSuccess then 1 else 0)" and user: "ar_user r = user"
    by (cases "rp_outcome rep"; simp add: r_def attempt_record_def audit_record_new_def)+
  show ?thesis
    using assms(1,2)
    by (simp add: auditd_sink_def auditd_emit_def seq_apply attempt_apply lift_apply pg op sanitized_field_no_nul res user
        AUDIT_USER_AUTH_def NO_ID_def split: prod.split)
qed

theorem auditd_writes_attempt_witness:
  "\<exists>w'. auditd_sink demo_audit (attempt_record (proto_str Pap) (lit ''u'') [] (report_of PamAuthErr REASON_REJECT)) [] = Returns () w'"
  by (subst auditd_writes_attempt [where fd = 5 and ?w1.0 = "[]"]) (simp_all add: demo_audit_def)

section \<open>Module arguments\<close>

text \<open>The paths given by the arguments, in order.\<close>

fun config_paths :: "rstr list \<Rightarrow> rstr list" where
  "config_paths [] = []"
| "config_paths (arg # args) =
     (case strip_prefix (lit ''config='') arg of
        Some path \<Rightarrow> if path = [] then config_paths args else path # config_paths args
      | None \<Rightarrow> config_paths args)"

lemma options_config_path:
  "op_config_path (fold parse_option args o') = last (op_config_path o' # config_paths args)"
proof (induction args arbitrary: o')
  case (Cons arg args)
  have "op_config_path (parse_option arg o') =
      (case strip_prefix (lit ''config='') arg of
         Some path \<Rightarrow> if path = [] then op_config_path o' else path | None \<Rightarrow> op_config_path o')"
    unfolding parse_option_def by (cases "strip_prefix (lit ''config='') arg") simp_all
  with Cons show ?case by (cases "strip_prefix (lit ''config='') arg") (simp_all del: strip_prefix.simps)
qed simp

text \<open>The configuration path is the last non-empty \<open>config=\<close> argument, or the default path, never
  empty; \<open>use_first_pass\<close> holds exactly when it is among the arguments.\<close>

theorem options_spec:
  "op_config_path (parse_options args) = last (DEFAULT_CONFIG_PATH # config_paths args) \<and>
   op_config_path (parse_options args) \<noteq> [] \<and>
   (op_use_first_pass (parse_options args) \<longleftrightarrow> lit ''use_first_pass'' \<in> set args)"
proof -
  have d: "op_config_path options_default = DEFAULT_CONFIG_PATH" "\<not> op_use_first_pass options_default"
    by (simp_all add: options_default_def)
  have "DEFAULT_CONFIG_PATH \<noteq> []" by (simp add: DEFAULT_CONFIG_PATH_def lit_def)
  with d have "op_config_path options_default \<noteq> []" by simp
  from options_config_path_nonempty [OF this, of args] d show ?thesis
    unfolding parse_options_def options_config_path options_use_first_pass by simp
qed

end
