(* ===== verification/Liveness.thy ===== *)
theory Liveness
  imports Module_Spec
begin

text \<open>
  How a call can end. No loop of an attempt runs for ever when the clock advances and a send is not
  interrupted for ever; one fuel is enough for every configuration, since a configured timeout is a
  \<open>u32\<close> of seconds. And the only panic is the division of \<open>retransmit_interval\<close>. Both are the same
  argument over the structure of the flows: an ending that no operation of the environment has, no
  flow has.
\<close>

datatype ending = Returned | Panicked | Diverged

fun ending_of :: "('a, 'w) exec \<Rightarrow> ending" where
  "ending_of (Returns a w) = Returned"
| "ending_of (Panics w) = Panicked"
| "ending_of Diverges = Diverged"

definition never :: "ending \<Rightarrow> ('a, 'w) io \<Rightarrow> bool" where
  "never k m \<longleftrightarrow> (\<forall>w. ending_of (m w) \<noteq> Returned \<longrightarrow> ending_of (m w) \<noteq> k)"

named_theorems ends

lemma ending_of_iff:
  "ending_of e = Diverged \<longleftrightarrow> e = Diverges" "ending_of e = Panicked \<longleftrightarrow> (\<exists>w'. e = Panics w')"
  by (cases e; simp)+

lemma never_iff:
  "never Diverged m \<longleftrightarrow> (\<forall>w. m w \<noteq> Diverges)" "never Panicked m \<longleftrightarrow> (\<forall>w w'. m w \<noteq> Panics w')"
proof -
  have "never k m \<longleftrightarrow> (\<forall>w. ending_of (m w) \<noteq> k)" if "k \<noteq> Returned" for k
    using that unfolding never_def by metis
  then show "never Diverged m \<longleftrightarrow> (\<forall>w. m w \<noteq> Diverges)" "never Panicked m \<longleftrightarrow> (\<forall>w w'. m w \<noteq> Panics w')"
    by (simp_all add: ending_of_iff)
qed

lemma never_basic [ends]:
  "never k (ret a)" "never k (Returns a)" "never k (act f)" "never k (lift op)" "never Diverged panic"
  by (simp_all add: never_def lift_apply split: prod.split)

lemma never_seq_gives:
  assumes "never k m" and "\<And>a w w'. m w = Returns a w' \<Longrightarrow> never k (f a)"
  shows "never k (seq m f)"
  unfolding never_def
proof
  fix w
  have m: "ending_of (m w) \<noteq> Returned \<longrightarrow> ending_of (m w) \<noteq> k" using assms(1) by (simp add: never_def)
  show "ending_of (seq m f w) \<noteq> Returned \<longrightarrow> ending_of (seq m f w) \<noteq> k"
  proof (cases "m w")
    case (Returns a w')
    from assms(2) [OF this] show ?thesis by (simp add: never_def seq_apply Returns)
  qed (use m in \<open>auto simp: seq_apply\<close>)
qed

lemma never_seq [ends]: "never k m \<Longrightarrow> (\<And>a. never k (f a)) \<Longrightarrow> never k (seq m f)"
  by (rule never_seq_gives)

lemma never_attempt [ends]: "never k m \<Longrightarrow> (\<And>a. never k (f a)) \<Longrightarrow> never k (attempt m f)"
  unfolding attempt_def by (intro never_seq) (auto intro: ends split: sum.split)

lemma always_returns: "(\<And>w. \<exists>a w'. m w = Returns a w') \<Longrightarrow> never k m"
  unfolding never_def by (metis ending_of.simps(1))

lemma never_both:
  assumes "never Diverged m" and "never Panicked m"
  shows "\<exists>a w'. m w = Returns a w'"
  using assms by (cases "m w") (auto simp: never_iff)

lemma never_catch_unwind: "never Diverged m \<Longrightarrow> \<exists>a w'. catch_unwind m x w = Returns a w'"
  by (cases "m w") (auto simp: never_iff catch_unwind_def)

section \<open>The transport\<close>

text \<open>The longest timeout a configuration can hold, in nanoseconds.\<close>

abbreviation MAX_WAIT :: nat where "MAX_WAIT \<equiv> 2 ^ 32 * 10 ^ 9"

lemma from_config_timeout: "nanos (ut_mfa_timeout (from_config p t r s)) < MAX_WAIT"
proof -
  have "unat t < 2 ^ 32" using unsigned_less [of t] by simp
  then show ?thesis by (simp add: from_config_def udp_transport_new_def from_secs_def)
qed

lemma connect_never [ends]: "never Panicked (connect os t server)" "never Diverged (connect os t server)"
  by (simp_all add: never_iff connect_not_diverges)

lemma send_request_calm [ends]: "never Panicked (send_request os fuel sock request)"
  by (simp add: never_iff send_request_not_panics)

lemma interval_exists: "retransmit_interval p r = None \<longleftrightarrow> r + 1 = 0"
  by (simp add: retransmit_interval_def dur_div_def)

lemma udp_exchange_halts:
  assumes "clock_advances os clock" and "sends_return os fuel" and "nanos (ut_mfa_timeout t) < fuel"
  shows "never Diverged (udp_exchange os fuel t server request accept)"
proof (cases "ut_retries t + 1 = 0")
  case True
  have "never Diverged (send_request os fuel sock request)" for sock
    using assms(2) by (simp add: never_iff sends_return_def)
  with True show ?thesis unfolding udp_exchange_def by (auto intro!: ends simp: interval_exists [THEN iffD2])
next
  case False
  show ?thesis using udp_exchange_returns [OF assms False] by (rule always_returns)
qed

lemma exchange_loop_calm: "never Panicked (exchange_loop os sf t sock request accept start interval fuel left nxt)"
proof (induction fuel arbitrary: left nxt)
  case 0
  show ?case by (simp add: never_iff)
next
  case (Suc fuel)
  have "never Panicked (elapsed_since os start)" unfolding elapsed_since_def by (intro ends)
  with Suc show ?case unfolding exchange_loop.simps Let_def
    by (auto intro!: ends split: sum.split io_class.split)
qed

lemma udp_exchange_calm:
  "ut_retries t + 1 \<noteq> 0 \<Longrightarrow> never Panicked (udp_exchange os fuel t server request accept)"
  unfolding udp_exchange_def
  by (auto intro!: ends exchange_loop_calm simp: interval_exists split: option.split)

section \<open>The flows\<close>

definition env_never :: "ending \<Rightarrow> 'w env \<Rightarrow> bool" where
  "env_never k E \<longleftrightarrow>
     never k (env_random E) \<and> (\<forall>t. never k (cv_info (env_conv E) t)) \<and> (\<forall>t. never k (cv_prompt_echo_off (env_conv E) t)) \<and>
     (\<forall>s b a. never k (env_exchange E s b a))"

lemma env_neverD [ends]:
  assumes "env_never k E"
  shows "never k (env_random E)" "never k (cv_info (env_conv E) t)" "never k (prompt_response (env_conv E) t)"
    "never k (env_exchange E s b a)" "never k (fresh_request_authenticator (env_random E))"
    "never k (generate_challenges (env_random E))"
  using assms
  by (auto simp: env_never_def fresh_request_authenticator_def generate_challenges_def prompt_response_def intro!: ends)

lemma mschap_never:
  assumes E: "env_never k E" shows "never k (mschapv2_servers E ctx cf notice svs)"
proof (induction svs arbitrary: notice)
  case (Cons sv svs)
  have "never k (mschapv2_response_outcome E d req)" for d req
    unfolding mschapv2_response_outcome_def
    by (auto intro!: ends E split: sum.split option.split code.split)
  then show ?case unfolding mschapv2_servers.simps Let_def
    by (auto intro!: ends E Cons.IH split: sum.split transport_error.split)
qed (simp add: ends)

lemma pap_loop_never:
  assumes E: "env_never k E" shows "never k (pap_loop E ctx cf addr secret n d)"
proof (induction n arbitrary: d)
  case (Suc n)
  show ?case unfolding pap_loop.simps Let_def
    by (auto intro!: ends E Suc.IH split: sum.split round.split)
qed (simp add: ends)

lemma pap_never:
  assumes E: "env_never k E" shows "never k (pap_servers E ctx cf svs)"
proof (induction svs)
  case (Cons sv svs)
  show ?case unfolding pap_servers.simps Let_def pap_rounds_def
    by (auto intro!: ends E Cons.IH pap_loop_never split: sum.split transport_error.split)
qed (simp add: ends)

lemma authenticate_report_never: "env_never k E \<Longrightarrow> never k (authenticate_report E ctx cf)"
  by (auto simp: authenticate_report_def mschapv2_flow_def pap_flow_def intro!: ends mschap_never pap_never
      split: protocol.split)

section \<open>The module\<close>

lemma converse_never [ends]: "never k (converse P ms)"
  unfolding converse_def by (auto intro!: ends split: option.split prod.split)

lemma module_env_never:
  assumes "\<And>s b a. never k (env_exchange (module_env S fuel silent cf) s b a)"
  shows "env_never k (module_env S fuel silent cf)"
  using assms by (auto simp: env_never_def module_env_def pam_conversation_def getrandom_16_def intro!: ends)

lemma module_env_halts:
  assumes "clock_advances (sys_os S) clock" and "sends_return (sys_os S) fuel" and "MAX_WAIT \<le> fuel"
  shows "env_never Diverged (module_env S fuel silent cf)"
  using udp_exchange_halts [OF assms(1,2)] from_config_timeout assms(3)
  by (intro module_env_never) (metis module_env_simps(4) less_le_trans)

lemma module_env_calm:
  "cf_retries cf + 1 \<noteq> 0 \<Longrightarrow> env_never Panicked (module_env S fuel silent cf)"
  by (intro module_env_never) (simp add: udp_exchange_calm from_config_def udp_transport_new_def)

lemma load_never: "never k (load fs path)"
proof -
  have open_never: "never k (open_secure fs p u)" for p u
    unfolding open_secure_def by (intro ends)
  have "never k (resolve_servers fs u pss)" for u pss
    by (induction pss) (auto intro!: ends open_never simp: read_secret_def split: option.split)
  then show ?thesis
    unfolding load_def load_with_expected_uid_def resolve_def read_config_text_def
    by (auto intro!: ends open_never split: sum.split option.split)
qed

text \<open>An ending the flow has under no configuration that is loaded, the decision does not have.\<close>

lemma sm_decide_never:
  assumes "\<And>cf silent w w'. load (sys_fs S) (op_config_path (parse_options args)) w = Returns (Inr cf) w' \<Longrightarrow>
    env_never k (module_env S fuel silent cf)"
  shows "never k (sm_decide S fuel flags args)"
proof -
  have inputs: "never k (harden_process (sys_pam S))" "never k (corr_id (getrandom_16 (sys_getrandom S)))"
      "never k (get_user (sys_pam S))" "never k (get_authtok_item (sys_pam S))" "never k (get_authtok_prompting (sys_pam S))"
      "never k (mlock_best_effort (sys_pam S) b)" for b
    by (auto simp: harden_process_def corr_id_def getrandom_16_def get_user_def get_authtok_item_def
        get_authtok_prompting_def mlock_best_effort_def intro!: ends split: prod.split option.split)
  have flow: "never k (decide_flow S fuel silent (op_config_path (parse_options args)) ctx)" for silent ctx
    unfolding decide_flow_def
  proof (rule never_seq_gives [OF load_never], goal_cases)
    case (1 r w w')
    then show ?case using assms by (cases r) (auto intro!: ends authenticate_report_never)
  qed
  show ?thesis unfolding sm_decide_def
    by (auto intro!: ends inputs flow split: sum.split option.split)
qed

lemma emit_decision_never: "never k (emit_decision S d)"
  unfolding emit_decision_def sink_of_def
  by (rule never_seq) (auto intro!: always_returns ends syslog.emit_once_returns backend.emit_once_returns split: option.split)

lemma sm_authenticate_halts:
  assumes "clock_advances (sys_os S) clock" and "sends_return (sys_os S) fuel" and "MAX_WAIT \<le> fuel"
  shows "never Diverged (sm_authenticate S fuel flags args)"
  unfolding sm_authenticate_decides
  by (intro never_seq sm_decide_never emit_decision_never module_env_halts [OF assms])

text \<open>The only panic.\<close>

lemma sm_decide_panics:
  assumes "sm_decide S fuel flags args w = Panics w'"
  shows "\<exists>cf v v'. load (sys_fs S) (op_config_path (parse_options args)) v = Returns (Inr cf) v' \<and> cf_retries cf + 1 = 0"
proof (rule ccontr)
  assume "\<not> ?thesis"
  then have "never Panicked (sm_decide S fuel flags args)"
    by (intro sm_decide_never module_env_calm) blast
  with assms show False by (simp add: never_iff)
qed

end
