(* ===== verification/Completeness.thy ===== *)
theory Completeness
  imports Auth_Runs
begin

text \<open>
  The other direction: what a server that follows the protocols answers. Honest servers for both
  protocols are defined over the request octets; with one of them behind the transport an attempt
  with the right password succeeds, whatever random material was drawn.
\<close>

section \<open>Honest servers\<close>

text \<open>
  The MSCHAPv2 server reads the request, recomputes the NT-Response from the password it knows and
  proves knowledge of it in the Accept (RFC 2759).
\<close>

definition mschap_server :: "crypto \<Rightarrow> bytes \<Rightarrow> rstr \<Rightarrow> bytes \<Rightarrow> bytes" where
  "mschap_server K secret pw request =
     (case parse_response request of
        Inl _ \<Rightarrow> []
      | Inr q \<Rightarrow>
          (case (attr_values q USER_NAME, find_vendor_data q MS_CHAP_CHALLENGE, find_vendor_data q MS_CHAP2_RESPONSE) of
             ([user], Some auth, Some resp) \<Rightarrow>
               (let peer = slice 2 18 resp; nt = slice 26 50 resp
                in if nt = generate_nt_response K auth peer user pw
                   then server_response K AccessAccept (pr_id q) (pr_authenticator q)
                          [(VENDOR_SPECIFIC, server_success (resp ! 0) (authenticator_digest K pw nt peer auth user)),
                           (MESSAGE_AUTHENTICATOR, zeros 16)] secret
                   else server_response K AccessReject (pr_id q) (pr_authenticator q)
                          [(MESSAGE_AUTHENTICATOR, zeros 16)] secret)
           | _ \<Rightarrow> []))"

text \<open>The PAP server recovers the padded password (RFC 2865) and compares it.\<close>

definition pap_server :: "crypto \<Rightarrow> bytes \<Rightarrow> rstr \<Rightarrow> bytes \<Rightarrow> bytes" where
  "pap_server K secret pw request =
     (case parse_response request of
        Inl _ \<Rightarrow> []
      | Inr q \<Rightarrow>
          (case attr_values q USER_PASSWORD of
             [hidden] \<Rightarrow>
               server_response K
                 (if unhide K hidden secret (pr_authenticator q) = pad_password (as_bytes pw) then AccessAccept else AccessReject)
                 (pr_id q) (pr_authenticator q) [(MESSAGE_AUTHENTICATOR, zeros 16)] secret
           | _ \<Rightarrow> []))"

text \<open>HMAC accepts keys of every length.\<close>

definition hmac_total :: "crypto \<Rightarrow> bool" where
  "hmac_total K \<longleftrightarrow> (\<forall>k m. hmac_md5_mac K k m \<noteq> None)"

text \<open>
  The environment: the random source works, the notice can be shown, and the transport delivers the
  server's answer when the client accepts it.
\<close>

definition helpful :: "'w env \<Rightarrow> socket_addr \<Rightarrow> (bytes \<Rightarrow> bytes) \<Rightarrow> bool" where
  "helpful E addr reply \<longleftrightarrow>
     (\<forall>w. \<exists>b w'. length b = 16 \<and> env_random E w = Returns (Some b) w') \<and>
     (\<forall>w. \<exists>w'. cv_info (env_conv E) PUSH_NOTICE w = Returns (Inr ()) w') \<and>
     (\<forall>packet accept w. accept (reply packet) \<longrightarrow> (\<exists>w'. env_exchange E addr packet accept w = Returns (Inr (reply packet)) w'))"

section \<open>Their answers are accepted\<close>

lemma honest_reply:
  assumes K: "crypto_ok K" and hmac: "hmac_total K" and as: "wf_attrs as" "fits as" and ma: "ma_values as = [m]" "length m = 16"
  shows "\<exists>r. parse_response (server_response K c i ra as secret) = Inr r \<and> known_code r = Some c \<and>
    (\<exists>mac. pr_attrs r = set_ma mac as) \<and>
    verify_response K (attempt_binding cf i ra) (server_response K c i ra as secret) secret"
proof -
  obtain mac where mac: "hmac_md5_mac K secret (packet_bytes (code_as_u8 c) i ra (set_ma (zeros 16) as)) = Some mac"
    using hmac by (auto simp: hmac_total_def)
  note p = server_response_parsed [OF K as ma, of c i ra secret]
  from server_response_accepted [OF K as ma mac] p
  have "verify_response K (attempt_binding cf i ra) (server_response K c i ra as secret) secret"
    by (simp add: verify_response_parsed authentic_response_def attempt_binding_def require_message_authenticator_def
        request_binding_new_def ma_values_set_ma ma)
  then show ?thesis using p by (auto simp: known_code_def)
qed

section \<open>PAP\<close>

lemma pap_server_answer:
  assumes K: "crypto_ok K" and ra: "length ra = 16" and fits: "request_fits (pap_attrs user (hide_core K pw' secret ra) cf)"
  shows "pap_server K secret pw (access_request K i ra (pap_attrs user (hide_core K pw' secret ra) cf) secret) =
    server_response K (if pad_password pw' = pad_password (as_bytes pw) then AccessAccept else AccessReject) i ra
      [(MESSAGE_AUTHENTICATOR, zeros 16)] secret"
proof -
  have "list_all (\<lambda>a. fst a = VENDOR_SPECIFIC \<longrightarrow> vsa_ok (snd a)) (pap_attrs user (hide_core K pw' secret ra) cf)"
    by (simp add: pap_attrs_def nas_attrs_def split: option.split)
  with fits have wf: "wf_attrs (pap_attrs user (hide_core K pw' secret ra) cf)"
    using request_fits_fits by (auto simp: wf_attrs_def fits_def)
  have "attr_values \<lparr>pr_code = 1, pr_id = i, pr_authenticator = ra,
      pr_attrs = pap_attrs user (hide_core K pw' secret ra) cf @ [(MESSAGE_AUTHENTICATOR, mac)]\<rparr> USER_PASSWORD = [hide_core K pw' secret ra]" for mac
    by (simp add: attr_values_def pap_attrs_def nas_attrs_def split: option.split)
  then show ?thesis
    by (simp add: pap_server_def access_request_parsed [OF K ra fits request_values(2) wf] unhide_hide_core [OF K])
qed

lemma small_ma: "wf_attrs [(MESSAGE_AUTHENTICATOR, zeros 16)]" "fits [(MESSAGE_AUTHENTICATOR, zeros 16)]"
    "ma_values [(MESSAGE_AUTHENTICATOR, zeros 16)] = [zeros 16]" "length (zeros 16) = 16"
  by (simp_all add: wf_attrs_def fits_def)

lemma pap_complete:
  assumes K: "crypto_ok (env_crypto E)" and hmac: "hmac_total (env_crypto E)"
    and cf: "cf_protocol cf = Pap" "cf_servers cf = sv # svs"
    and ctx: "ac_username ctx \<noteq> []" "expose_secret (ac_password ctx) \<noteq> []"
      "length (as_bytes (expose_secret (ac_password ctx))) \<le> 128"
    and fits: "\<And>h. length h \<le> 128 \<Longrightarrow> request_fits (pap_attrs (ac_username ctx) h cf)"
    and env: "helpful E (sv_addr sv) (pap_server (env_crypto E) (secret_of sv) pw)"
  shows "\<exists>w'. authenticate_report E ctx cf w =
    Returns (with_server
      (if pad_password (as_bytes (expose_secret (ac_password ctx))) = pad_password (as_bytes pw)
       then report_of PamSuccess REASON_SUCCESS else report_of PamAuthErr REASON_REJECT) (sv_addr sv)) w'"
proof -
  let ?K = "env_crypto E" and ?s = "secret_of sv" and ?pw = "as_bytes (expose_secret (ac_password ctx))"
  obtain ra w1 where ra: "length ra = 16" "env_random E w = Returns (Some ra) w1" using env unfolding helpful_def by metis
  let ?h = "hide_core ?K ?pw ?s ra"
  let ?c = "if pad_password ?pw = pad_password (as_bytes pw) then AccessAccept else AccessReject"
  have f: "request_fits (pap_attrs (ac_username ctx) ?h cf)"
    using padded_len_bounds(4) [OF ctx(3)] by (intro fits) (simp add: length_hide_core [OF K])
  let ?p = "access_request ?K (ra ! 0) ra (pap_attrs (ac_username ctx) ?h cf) ?s"
  have build: "build_pap_packet ?K (ac_username ctx) ?h (ra ! 0) ra cf ?s = Inr ?p"
    using f ra(1) by (simp add: build_pap_packet_Inr [OF K])
  let ?d = "server_response ?K ?c (ra ! 0) ra [(MESSAGE_AUTHENTICATOR, zeros 16)] ?s"
  obtain r where r: "parse_response ?d = Inr r" "known_code r = Some ?c" "verify_response ?K (attempt_binding cf (ra ! 0) ra) ?d ?s"
    using honest_reply [OF K hmac small_ma] by blast
  obtain w2 where w2: "env_exchange E (sv_addr sv) ?p (\<lambda>d. verify_response ?K (attempt_binding cf (ra ! 0) ra) d ?s) w1 = Returns (Inr ?d) w2"
    using env r(3) pap_server_answer [OF K ra(1) f] unfolding helpful_def by metis
  have round: "pap_round ?d = Inr (Done (if pad_password ?pw = pad_password (as_bytes pw)
      then report_of PamSuccess REASON_SUCCESS else report_of PamAuthErr REASON_REJECT))"
    using r(2) by (simp add: pap_round_def r(1))
  have "8 = Suc 7" by simp
  then have rounds: "pap_rounds E ctx cf (sv_addr sv) ?s ?d = ret (if pad_password ?pw = pad_password (as_bytes pw)
      then report_of PamSuccess REASON_SUCCESS else report_of PamAuthErr REASON_REJECT)"
    unfolding pap_rounds_def by (simp only: pap_loop.simps round sum.case round.case)
  have "fresh_request_authenticator (env_random E) w = Returns (Inr ra) w1"
    by (simp add: fresh_request_authenticator_def seq_apply ra)
  then show ?thesis
    using cf ctx w2 build rounds
    by (simp add: authenticate_report_def secret_string_is_empty_def expose_secret_def [symmetric] pap_flow_def
        seq_apply try_hide_password_def Let_def)
qed

section \<open>MSCHAPv2\<close>

lemma drop_nth2: "slice 2 18 (a # b # xs) = take 16 xs" "slice 26 50 (a # b # xs) = take 24 (drop 24 xs)"
  by (simp_all add: slice_def numeral_eq_Suc)

lemma mschap_server_answer:
  fixes ch :: challenges and user pw i
  assumes K: "crypto_ok K" and ra: "length ra = 16"
    and ch: "length (authenticator_challenge ch) = 16" "length (peer_challenge ch) = 16"
  defines "req \<equiv> build_request K (as_bytes user) pw ch i"
  assumes fits: "request_fits (mschapv2_attrs user req cf)"
  shows "mschap_server K secret pw (access_request K i ra (mschapv2_attrs user req cf) secret) =
    server_response K AccessAccept i ra
      [(VENDOR_SPECIFIC, server_success i (authenticator_digest K pw
          (generate_nt_response K (authenticator_challenge ch) (peer_challenge ch) (as_bytes user) pw)
          (peer_challenge ch) (authenticator_challenge ch) (as_bytes user))),
       (MESSAGE_AUTHENTICATOR, zeros 16)] secret"
proof -
  let ?auth = "authenticator_challenge ch" and ?peer = "peer_challenge ch"
  let ?nt = "generate_nt_response K ?auth ?peer (as_bytes user) pw"
  let ?resp = "i # 0 # ?peer @ zeros 8 @ ?nt"
  have a: "mr_ms_chap_challenge req = vsa_value MS_CHAP_CHALLENGE ?auth" "mr_ms_chap2_response req = vsa_value MS_CHAP2_RESPONSE ?resp"
    unfolding req_def using build_request_attrs [OF K ch] by simp_all
  have len: "length ?resp \<le> 253" "length ?auth \<le> 253" using ch length_generate_nt_response [OF K] by simp_all
  have "list_all (\<lambda>a. fst a = VENDOR_SPECIFIC \<longrightarrow> vsa_ok (snd a)) (mschapv2_attrs user req cf)"
    using vsa_value_ok [OF len(1)] vsa_value_ok [OF len(2)]
    by (simp add: mschapv2_attrs_def nas_attrs_def a split: option.split)
  with fits have wf: "wf_attrs (mschapv2_attrs user req cf)"
    using request_fits_fits by (auto simp: wf_attrs_def fits_def)
  define q where "q mac = \<lparr>pr_code = 1, pr_id = i, pr_authenticator = ra,
      pr_attrs = mschapv2_attrs user req cf @ [(MESSAGE_AUTHENTICATOR, mac)]\<rparr>" for mac
  have v: "attr_values (q mac) USER_NAME = [as_bytes user]"
    "attr_values (q mac) VENDOR_SPECIFIC = [vsa_value MS_CHAP_CHALLENGE ?auth, vsa_value MS_CHAP2_RESPONSE ?resp]" for mac
    by (simp_all add: q_def attr_values_def mschapv2_attrs_def nas_attrs_def a split: option.split)
  have f: "find_vendor_data (q mac) MS_CHAP_CHALLENGE = Some ?auth" "find_vendor_data (q mac) MS_CHAP2_RESPONSE = Some ?resp" for mac
    unfolding find_vendor_data_def v using decode_vsa_value [OF len(1)] decode_vsa_value [OF len(2)] by simp_all
  have s: "slice 2 18 ?resp = ?peer" "slice 26 50 ?resp = ?nt"
    unfolding drop_nth2 using ch length_generate_nt_response [OF K] by simp_all
  show ?thesis
    unfolding mschap_server_def access_request_parsed [OF K ra fits request_values(1) wf] sum.case q_def [symmetric] v f
    by (simp add: s [unfolded append_Cons] Let_def q_def)
qed

lemma success_attrs:
  assumes "length digest = 20"
  shows "wf_attrs [(VENDOR_SPECIFIC, server_success i digest), (MESSAGE_AUTHENTICATOR, zeros 16)]"
    and "fits [(VENDOR_SPECIFIC, server_success i digest), (MESSAGE_AUTHENTICATOR, zeros 16)]"
  using assms by (simp_all add: wf_attrs_def fits_def server_success_def blit_def vsa_value_ok)

lemma mschap_complete:
  assumes K: "crypto_ok (env_crypto E)" and hmac: "hmac_total (env_crypto E)"
    and cf: "cf_protocol cf = Mschapv2" "cf_servers cf = sv # svs"
    and ctx: "ac_username ctx \<noteq> []" "expose_secret (ac_password ctx) \<noteq> []"
    and fits: "\<And>a b. length a = 22 \<Longrightarrow> length b = 56 \<Longrightarrow>
      request_fits ([(USER_NAME, as_bytes (ac_username ctx)), (VENDOR_SPECIFIC, a), (VENDOR_SPECIFIC, b)] @ nas_attrs cf)"
    and env: "helpful E (sv_addr sv) (mschap_server (env_crypto E) (secret_of sv) (expose_secret (ac_password ctx)))"
  shows "\<exists>w'. authenticate_report E ctx cf w = Returns (with_server (report_of PamSuccess REASON_SUCCESS) (sv_addr sv)) w'"
proof -
  let ?K = "env_crypto E" and ?s = "secret_of sv" and ?pw = "expose_secret (ac_password ctx)" and ?u = "as_bytes (ac_username ctx)"
  obtain ra w1 where ra: "length ra = 16" "env_random E w = Returns (Some ra) w1" using env unfolding helpful_def by metis
  obtain a w2 where a: "length a = 16" "env_random E w1 = Returns (Some a) w2" using env unfolding helpful_def by metis
  obtain p w3 where p: "length p = 16" "env_random E w2 = Returns (Some p) w3" using env unfolding helpful_def by metis
  obtain w4 where w4: "cv_info (env_conv E) PUSH_NOTICE w3 = Returns (Inr ()) w4" using env unfolding helpful_def by metis
  let ?ch = "\<lparr>authenticator_challenge = a, peer_challenge = p\<rparr>"
  let ?req = "build_request ?K ?u ?pw ?ch (ra ! 0)"
  have f: "request_fits (mschapv2_attrs (ac_username ctx) ?req cf)"
    unfolding mschapv2_attrs_def using a p
    by (intro fits) (simp_all add: build_request_attrs [OF K] length_generate_nt_response [OF K])
  let ?p = "access_request ?K (ra ! 0) ra (mschapv2_attrs (ac_username ctx) ?req cf) ?s"
  have build: "build_mschapv2_packet ?K (ac_username ctx) ?req (ra ! 0) ra cf ?s = Inr ?p"
    using f ra(1) by (simp add: build_mschapv2_packet_Inr [OF K])
  let ?nt = "generate_nt_response ?K a p ?u ?pw"
  let ?digest = "authenticator_digest ?K ?pw ?nt p a ?u"
  let ?as = "[(VENDOR_SPECIFIC, server_success (ra ! 0) ?digest), (MESSAGE_AUTHENTICATOR, zeros 16)]"
  let ?d = "server_response ?K AccessAccept (ra ! 0) ra ?as ?s"
  have len: "length ?digest = 20" by (simp add: authenticator_digest_def crypto_ok_lengths [OF K])
  have ma: "ma_values ?as = [zeros 16]" "length (zeros 16) = 16" by simp_all
  obtain r mac where r: "parse_response ?d = Inr r" "known_code r = Some AccessAccept" "pr_attrs r = set_ma mac ?as"
      "verify_response ?K (attempt_binding cf (ra ! 0) ra) ?d ?s"
    using honest_reply [OF K hmac success_attrs [OF len] ma] by blast
  have answer: "mschap_server ?K ?s ?pw ?p = ?d"
    using mschap_server_answer [OF K ra(1), of ?ch "ac_username ctx" ?pw "ra ! 0" cf ?s] a(1) p(1) f by simp
  obtain w5 where w5: "env_exchange E (sv_addr sv) ?p (\<lambda>d. verify_response ?K (attempt_binding cf (ra ! 0) ra) d ?s) w4 = Returns (Inr ?d) w5"
    using env r(4) answer unfolding helpful_def by metis
  have "attr_values r VENDOR_SPECIFIC = server_success (ra ! 0) ?digest # []"
    by (simp add: attr_values_def r(3))
  from server_success_verified [OF K this]
  have verdict: "mschapv2_response_outcome E ?d ?req = ret (report_of PamSuccess REASON_SUCCESS)"
    by (simp add: mschapv2_response_outcome_def r(1,2) build_request_def Let_def)
  have "fresh_request_authenticator (env_random E) w = Returns (Inr ra) w1"
    by (simp add: fresh_request_authenticator_def seq_apply ra)
  moreover have "generate_challenges (env_random E) w1 = Returns (Inr ?ch) w3"
    by (simp add: generate_challenges_def attempt_apply seq_apply a p)
  ultimately show ?thesis
    using cf ctx w4 w5 build verdict
    by (simp add: authenticate_report_def secret_string_is_empty_def expose_secret_def [symmetric] mschapv2_flow_def
        seq_apply Let_def)
qed

section \<open>A helpful environment\<close>

definition honest_env :: "crypto \<Rightarrow> (bytes \<Rightarrow> bytes) \<Rightarrow> nat env" where
  "honest_env K reply =
     \<lparr>env_crypto = K,
      env_random = (\<lambda>n. Returns (Some (replicate 16 (of_nat n))) (n + 1)),
      env_conv = \<lparr>cv_info = (\<lambda>text. ret (Inr ())), cv_prompt_echo_off = (\<lambda>text. ret (Inl ConvFailed))\<rparr>,
      env_exchange = (\<lambda>server request accept.
        if accept (reply request) then ret (Inr (reply request)) else ret (Inl Timeout))\<rparr>"

lemma honest_env_helpful: "helpful (honest_env K reply) addr reply"
  by (simp add: helpful_def honest_env_def)

lemma demo_hmac_total: "hmac_total demo_crypto"
  by (simp add: hmac_total_def demo_crypto_def)

end
