(* ===== verification/Displays.thy ===== *)
theory Displays
  imports Pap Mschap_Flow Radius_Transport Config
begin

text \<open>
  The texts of the error types (their \<open>Display\<close> instances). Every text is a constant of the error's
  kind, so that no packet octet and no secret can reach a log through it; the texts of one type are
  distinct.
\<close>

fun parse_error_display :: "parse_error \<Rightarrow> rstr" where
  "parse_error_display PacketTooShort = lit ''packet shorter than the 20-octet RADIUS minimum''"
| "parse_error_display PacketTooLong = lit ''packet longer than the 4096-octet RADIUS maximum''"
| "parse_error_display LengthFieldInvalid = lit ''header Length field outside the 20..=4096 range''"
| "parse_error_display LengthExceedsDatagram = lit ''header Length field exceeds the received octets''"
| "parse_error_display AttributeLengthInvalid = lit ''attribute Length below the 2-octet minimum''"
| "parse_error_display AttributeOverrun = lit ''attribute runs past the end of the packet''"
| "parse_error_display VendorTooShort = lit ''vendor-specific attribute too short for its headers''"
| "parse_error_display VendorLengthInvalid = lit ''inner Vendor-Length invalid or overruns the attribute''"

fun encode_error_display :: "encode_error \<Rightarrow> rstr" where
  "encode_error_display ValueTooLong = lit ''attribute value exceeds the 253-octet maximum''"
| "encode_error_display EncPacketTooLong = lit ''packet would exceed the 4096-octet RADIUS maximum''"
| "encode_error_display MalformedPacket = lit ''packet is not structurally valid''"
| "encode_error_display MissingMessageAuthenticator = lit ''no Message-Authenticator attribute present''"
| "encode_error_display DuplicateMessageAuthenticator = lit ''more than one Message-Authenticator attribute present''"

fun rng_error_display :: "rng_error \<Rightarrow> rstr" where
  "rng_error_display RngError = lit ''system randomness unavailable; deny the authentication''"

fun mschap_rng_error_display :: "mschap_rng_error \<Rightarrow> rstr" where
  "mschap_rng_error_display MschapRngError = lit ''system randomness unavailable; deny the authentication''"

fun transport_error_display :: "transport_error \<Rightarrow> rstr" where
  "transport_error_display Unreachable = lit ''server explicitly unreachable''"
| "transport_error_display Timeout = lit ''no valid response before the timeout''"
| "transport_error_display Io = lit ''local transport I/O failure''"

fun success_error_display :: "success_error \<Rightarrow> rstr" where
  "success_error_display TooShort = lit ''MS-CHAP2-Success data too short for the S= authenticator''"
| "success_error_display MissingSPrefix = lit ''MS-CHAP2-Success response does not start with S=''"
| "success_error_display NotHex = lit ''MS-CHAP2-Success S= value is not 40 hex characters''"
| "success_error_display TrailingGarbage = lit ''MS-CHAP2-Success has trailing octets after the S= value''"

definition ms_chap_error_display :: "ms_chap_error \<Rightarrow> rstr" where
  "ms_chap_error_display e = reason e"

fun pap_error_display :: "pap_error \<Rightarrow> rstr" where
  "pap_error_display PasswordTooLong = lit ''password exceeds the 128-octet PAP maximum''"
| "pap_error_display NotAChallenge = lit ''response is not an Access-Challenge''"
| "pap_error_display MissingState = lit ''Access-Challenge carried no State to echo''"
| "pap_error_display MultipleState = lit ''Access-Challenge carried more than one State''"
| "pap_error_display (Encode e) = lit ''follow-up Access-Request assembly failed: '' @ encode_error_display e"

definition pap_error_from :: "encode_error \<Rightarrow> pap_error" where
  "pap_error_from e = Encode e"

definition config_error_from :: "config_parse_error \<Rightarrow> config_error" where
  "config_error_from e = ConfigParse e"

text \<open>
  The text of an operating-system error is the standard library's, the parameter \<open>os_text\<close>.
\<close>

fun io_error_display :: "(nat \<Rightarrow> rstr) \<Rightarrow> io_error \<Rightarrow> rstr" where
  "io_error_display os_text (OsError n) = os_text n"
| "io_error_display os_text (InvalidData s) = s"

fun config_error_display :: "(nat \<Rightarrow> rstr) \<Rightarrow> config_error \<Rightarrow> rstr" where
  "config_error_display os_text (ConfigOpen path e) =
     lit ''failed to open '' @ [39] @ path @ [39] @ lit '': '' @ io_error_display os_text e"
| "config_error_display os_text (ConfigRead path e) =
     lit ''failed to read '' @ [39] @ path @ [39] @ lit '': '' @ io_error_display os_text e"
| "config_error_display os_text (InsecurePermissions path issue) =
     lit ''insecure permissions on '' @ [39] @ path @ [39] @ lit '': '' @ perm_issue_display issue"
| "config_error_display os_text (ConfigParse e) = lit ''config parse error: '' @ config_parse_error_display e"

definition config_error_source :: "config_error \<Rightarrow> (io_error + config_parse_error) option" where
  "config_error_source e =
     (case e of
        ConfigOpen _ s \<Rightarrow> Some (Inl s)
      | ConfigRead _ s \<Rightarrow> Some (Inl s)
      | ConfigParse p \<Rightarrow> Some (Inr p)
      | InsecurePermissions _ _ \<Rightarrow> None)"

lemma parse_error_display_inject: "parse_error_display e = parse_error_display e' \<longleftrightarrow> e = e'"
  by (cases e; cases e') simp_all

lemma transport_error_display_inject: "transport_error_display e = transport_error_display e' \<longleftrightarrow> e = e'"
  by (cases e; cases e') simp_all

lemma lit_prefix: "lit s @ t \<noteq> lit u" if "take (length s) u \<noteq> s"
  using that by (metis append_eq_conv_conj length_lit lit_inject lit_def take_map)

lemma encode_error_display_inject: "encode_error_display e = encode_error_display e' \<longleftrightarrow> e = e'"
  by (cases e; cases e') simp_all

lemma pap_error_display_inject: "pap_error_display e = pap_error_display e' \<longleftrightarrow> e = e'"
  by (cases e; cases e') (simp_all add: encode_error_display_inject lit_prefix lit_prefix [symmetric])

end
