(* ===== verification/Reply_Memory.thy ===== *)
theory Reply_Memory
  imports Pam_Ffi
begin

text \<open>
  The memory of a conversation's responses (\<open>converse\<close>, \<open>wipe_and_free_string\<close> and
  \<open>wipe_and_free_responses\<close> of \<open>crates/pam-ffi/src/ffi.rs\<close>): the malloc'd strings and the malloc'd
  array of pointers to them that the application hands over. Every access that C leaves undefined
  is \<open>None\<close>: a pointer that is not live, an index out of bounds, a string without a NUL.
\<close>

section \<open>Memory\<close>

type_synonym addr = nat

text \<open>A block is a character buffer or an array of \<open>pam_response\<close>, of which only \<open>resp\<close> is used.\<close>

datatype block = Chars bytes | Responses "addr option list"

text \<open>\<open>freed\<close> are the blocks given back so far, with their contents at that time.\<close>

record memory =
  live :: "addr \<rightharpoonup> block"
  freed :: "(addr \<times> block) list"

definition free :: "addr \<Rightarrow> memory \<Rightarrow> memory option" where
  "free p m =
     (case live m p of None \<Rightarrow> None
      | Some b \<Rightarrow> Some (m\<lparr>live := (live m)(p := None), freed := freed m @ [(p, b)]\<rparr>))"

definition strlen :: "addr \<Rightarrow> memory \<Rightarrow> nat option" where
  "strlen p m =
     (case live m p of
        Some (Chars bs) \<Rightarrow> if 0 \<in> set bs then Some (length (takeWhile (\<lambda>b. b \<noteq> 0) bs)) else None
      | _ \<Rightarrow> None)"

text \<open>\<open>CStr::from_ptr(p).to_bytes()\<close>.\<close>

definition read_cstr :: "addr \<Rightarrow> memory \<Rightarrow> bytes option" where
  "read_cstr p m =
     (case live m p of
        Some (Chars bs) \<Rightarrow> if 0 \<in> set bs then Some (takeWhile (\<lambda>b. b \<noteq> 0) bs) else None
      | _ \<Rightarrow> None)"

text \<open>\<open>write_volatile(p.add(i), 0)\<close>.\<close>

definition write_zero :: "addr \<Rightarrow> nat \<Rightarrow> memory \<Rightarrow> memory option" where
  "write_zero p i m =
     (case live m p of
        Some (Chars bs) \<Rightarrow> if i < length bs then Some (m\<lparr>live := (live m)(p \<mapsto> Chars (bs[i := 0]))\<rparr>) else None
      | _ \<Rightarrow> None)"

fun wipe_from :: "addr \<Rightarrow> nat list \<Rightarrow> memory \<Rightarrow> memory option" where
  "wipe_from p [] m = Some m"
| "wipe_from p (i # is) m = (case write_zero p i m of None \<Rightarrow> None | Some m' \<Rightarrow> wipe_from p is m')"

definition wipe_and_free_string :: "addr \<Rightarrow> memory \<Rightarrow> memory option" where
  "wipe_and_free_string p m =
     (case strlen p m of None \<Rightarrow> None
      | Some len \<Rightarrow> (case wipe_from p [0..<len] m of None \<Rightarrow> None | Some m' \<Rightarrow> free p m'))"

text \<open>\<open>(*resp.add(i)).resp\<close>.\<close>

definition response_at :: "addr \<Rightarrow> nat \<Rightarrow> memory \<Rightarrow> addr option option" where
  "response_at resp i m =
     (case live m resp of Some (Responses ps) \<Rightarrow> if i < length ps then Some (ps ! i) else None | _ \<Rightarrow> None)"

section \<open>The two loops over the responses\<close>

fun wipe_responses_from :: "addr \<Rightarrow> nat list \<Rightarrow> memory \<Rightarrow> memory option" where
  "wipe_responses_from resp [] m = Some m"
| "wipe_responses_from resp (i # is) m =
     (case response_at resp i m of
        None \<Rightarrow> None
      | Some None \<Rightarrow> wipe_responses_from resp is m
      | Some (Some p) \<Rightarrow>
          (case wipe_and_free_string p m of None \<Rightarrow> None | Some m' \<Rightarrow> wipe_responses_from resp is m'))"

definition wipe_and_free_responses :: "addr \<Rightarrow> nat \<Rightarrow> memory \<Rightarrow> memory option" where
  "wipe_and_free_responses resp n m =
     (case wipe_responses_from resp [0..<n] m of None \<Rightarrow> None | Some m' \<Rightarrow> free resp m')"

text \<open>The copying loop of \<open>converse\<close>, with its variables \<open>out\<close> and \<open>decode_failed\<close>.\<close>

fun copy_responses ::
  "addr \<Rightarrow> nat list \<Rightarrow> secret_string option list \<Rightarrow> bool \<Rightarrow> memory \<Rightarrow>
   (secret_string option list \<times> bool \<times> memory) option" where
  "copy_responses resp [] out decode_failed m = Some (out, decode_failed, m)"
| "copy_responses resp (i # is) out decode_failed m =
     (case response_at resp i m of
        None \<Rightarrow> None
      | Some None \<Rightarrow> copy_responses resp is (out @ [None]) decode_failed m
      | Some (Some p) \<Rightarrow>
          (case read_cstr p m of
             None \<Rightarrow> None
           | Some bs \<Rightarrow>
               (let (out, decode_failed) =
                  (case from_utf8 bs of Some s \<Rightarrow> (out @ [Some (secret_string_from_text s)], decode_failed)
                   | None \<Rightarrow> (out, True))
                in case wipe_and_free_string p m of
                     None \<Rightarrow> None
                   | Some m' \<Rightarrow> copy_responses resp is out decode_failed m')))"

text \<open>
  What \<open>converse\<close> does after the application's function has returned \<open>ret\<close> and the pointer \<open>resp\<close>.
\<close>

definition take_responses ::
  "int \<Rightarrow> addr option \<Rightarrow> nat \<Rightarrow> memory \<Rightarrow> ((int + secret_string option list) \<times> memory) option" where
  "take_responses r resp n m =
     (if r \<noteq> PAM_SUCCESS then
        (case resp of
           None \<Rightarrow> Some (Inl CONV_ERR, m)
         | Some a \<Rightarrow> map_option (Pair (Inl CONV_ERR)) (wipe_and_free_responses a n m))
      else case resp of
             None \<Rightarrow> Some (Inl CONV_ERR, m)
           | Some a \<Rightarrow>
               (case copy_responses a [0..<n] [] False m of
                  None \<Rightarrow> None
                | Some (out, decode_failed, m') \<Rightarrow>
                    map_option (Pair (if decode_failed then Inl CONV_ERR else Inr out)) (free a m')))"

section \<open>What the application hands over\<close>

text \<open>The strings of an array of pointers.\<close>

definition strings :: "addr option list \<Rightarrow> addr list" where
  "strings ps = concat (map (\<lambda>p. case p of None \<Rightarrow> [] | Some a \<Rightarrow> [a]) ps)"

lemma strings_simps [simp]:
  "strings [] = []" "strings (None # ps) = strings ps" "strings (Some a # ps) = a # strings ps"
  by (simp_all add: strings_def)

text \<open>
  The conversation ABI: an array of \<open>n\<close> entries, its strings NUL-terminated, all of them separate
  live blocks that now belong to the module.
\<close>

definition cstring_at :: "memory \<Rightarrow> addr \<Rightarrow> bool" where
  "cstring_at m p \<longleftrightarrow> (\<exists>bs. live m p = Some (Chars bs) \<and> 0 \<in> set bs)"

definition handed_over :: "memory \<Rightarrow> addr \<Rightarrow> addr option list \<Rightarrow> bool" where
  "handed_over m resp ps \<longleftrightarrow>
     live m resp = Some (Responses ps) \<and> distinct (resp # strings ps) \<and> list_all (cstring_at m) (strings ps)"

text \<open>The text of a string, and a string after it has been wiped.\<close>

fun text_of :: "block \<Rightarrow> bytes" where
  "text_of (Chars bs) = takeWhile (\<lambda>b. b \<noteq> 0) bs"
| "text_of (Responses ps) = []"

fun wiped :: "block \<Rightarrow> block" where
  "wiped (Chars bs) = Chars (zeros (length (takeWhile (\<lambda>b. b \<noteq> 0) bs)) @ dropWhile (\<lambda>b. b \<noteq> 0) bs)"
| "wiped (Responses ps) = Responses ps"

text \<open>A memory after the strings at \<open>as\<close> have been wiped and freed, in this order.\<close>

definition without :: "memory \<Rightarrow> addr list \<Rightarrow> memory" where
  "without m as =
     m\<lparr>live := (live m) |` (- set as), freed := freed m @ map (\<lambda>a. (a, wiped (the (live m a)))) as\<rparr>"

lemma without_Nil [simp]: "without m [] = m"
  by (simp add: without_def restrict_map_def)

lemma without_live: "a \<notin> set as \<Longrightarrow> live (without m as) a = live m a"
  by (simp add: without_def)

section \<open>One string\<close>

lemma wipe_from_prefix:
  "live m p = Some (Chars bs) \<Longrightarrow> k + n \<le> length bs \<Longrightarrow>
     wipe_from p [k..<k + n] m = Some (m\<lparr>live := (live m)(p \<mapsto> Chars (take k bs @ zeros n @ drop (k + n) bs))\<rparr>)"
proof (induction n arbitrary: k m bs)
  case 0
  then show ?case by (simp add: zeros_def map_upd_triv)
next
  case (Suc n)
  let ?bs = "bs[k := 0]" and ?m = "m\<lparr>live := (live m)(p \<mapsto> Chars (bs[k := 0]))\<rparr>"
  have w: "write_zero p k m = Some ?m" using Suc.prems by (simp add: write_zero_def)
  have up: "[k..<k + Suc n] = k # [Suc k..<Suc k + n]" by (simp add: upt_rec)
  have eq: "take (Suc k) ?bs @ zeros n @ drop (Suc k + n) ?bs = take k bs @ zeros (Suc n) @ drop (k + Suc n) bs"
    using Suc.prems(2) by (simp add: zeros_def take_Suc_conv_app_nth)
  have "wipe_from p [Suc k..<Suc k + n] ?m =
      Some (?m\<lparr>live := (live ?m)(p \<mapsto> Chars (take (Suc k) ?bs @ zeros n @ drop (Suc k + n) ?bs))\<rparr>)"
    by (rule Suc.IH) (use Suc.prems in simp_all)
  moreover have "?m\<lparr>live := (live ?m)(p \<mapsto> x)\<rparr> = m\<lparr>live := (live m)(p \<mapsto> x)\<rparr>" for x by simp
  ultimately show ?case unfolding up wipe_from.simps w option.case eq by (simp only:)
qed

lemma wipe_and_free_string_wipes:
  assumes "cstring_at m p"
  shows "wipe_and_free_string p m = Some (without m [p])"
proof -
  obtain bs where bs: "live m p = Some (Chars bs)" "0 \<in> set bs" using assms by (auto simp: cstring_at_def)
  define n where "n = length (takeWhile (\<lambda>b. b \<noteq> 0) bs)"
  have n: "n \<le> length bs" "drop n bs = dropWhile (\<lambda>b. b \<noteq> 0) bs"
    by (simp_all add: n_def length_takeWhile_le dropWhile_eq_drop)
  have "wipe_from p [0..<n] m = Some (m\<lparr>live := (live m)(p \<mapsto> Chars (zeros n @ drop n bs))\<rparr>)"
    using wipe_from_prefix [OF bs(1), of 0 n] n(1) by simp
  moreover have "strlen p m = Some n" by (simp add: strlen_def bs n_def)
  moreover have "(live m)(p := None) = (live m) |` (- {p})" by (auto simp: restrict_map_def)
  ultimately show ?thesis
    by (simp add: wipe_and_free_string_def free_def without_def bs n(2) n_def [symmetric])
qed

section \<open>All strings\<close>

lemma handed_overD:
  assumes "handed_over m resp ps"
  shows "live m resp = Some (Responses ps)" "resp \<notin> set (strings ps)" "distinct (strings ps)"
    "a \<in> set (strings ps) \<Longrightarrow> cstring_at m a"
  using assms by (auto simp: handed_over_def list_all_iff)

lemma strings_append [simp]: "strings (ps @ qs) = strings ps @ strings qs"
  by (simp add: strings_def)

lemma without_append:
  "distinct (as @ bs) \<Longrightarrow> without (without m as) bs = without m (as @ bs)"
  by (rule memory.equality) (auto simp: without_def restrict_map_def fun_eq_iff)

lemma response_at_without:
  assumes "handed_over m resp ps" and "i < length ps" and "set as \<subseteq> set (strings ps)"
  shows "response_at resp i (without m as) = Some (ps ! i)"
proof -
  have "resp \<notin> set as" using handed_overD(2) [OF assms(1)] assms(3) by blast
  then show ?thesis using assms(2) handed_overD(1) [OF assms(1)] by (simp add: response_at_def without_live)
qed

text \<open>One step of either loop: the strings of the first \<open>k\<close> entries are gone.\<close>

lemma next_string:
  assumes h: "handed_over m resp ps" and k: "k < length ps" and p: "ps ! k = Some a"
  shows "live (without m (strings (take k ps))) a = live m a"
    and "wipe_and_free_string a (without m (strings (take k ps))) = Some (without m (strings (take (Suc k) ps)))"
proof -
  have t: "strings (take (Suc k) ps) = strings (take k ps) @ [a]"
    using k p by (simp add: take_Suc_conv_app_nth)
  have all: "strings ps = strings (take (Suc k) ps) @ strings (drop (Suc k) ps)"
    by (metis append_take_drop_id strings_append)
  then have d: "distinct (strings (take k ps) @ [a])" and a: "a \<in> set (strings ps)"
    using handed_overD(3) [OF h] unfolding t by auto
  show l: "live (without m (strings (take k ps))) a = live m a" using d by (simp add: without_live)
  then have "cstring_at (without m (strings (take k ps))) a"
    using handed_overD(4) [OF h a] by (simp add: cstring_at_def)
  from wipe_and_free_string_wipes [OF this]
  show "wipe_and_free_string a (without m (strings (take k ps))) = Some (without m (strings (take (Suc k) ps)))"
    unfolding t without_append [OF d] .
qed

lemma taken_strings: "set (strings (take k ps)) \<subseteq> set (strings ps)"
  by (metis append_take_drop_id set_append strings_append sup_ge1)

lemma wipe_responses_all:
  assumes h: "handed_over m resp ps"
  shows "k + n = length ps \<Longrightarrow>
    wipe_responses_from resp [k..<length ps] (without m (strings (take k ps))) = Some (without m (strings ps))"
proof (induction n arbitrary: k)
  case (Suc n)
  have up: "[k..<length ps] = k # [Suc k..<length ps]" using Suc.prems by (simp add: upt_conv_Cons)
  have k: "k < length ps" using Suc.prems by simp
  note r = response_at_without [OF h k taken_strings]
  have IH: "wipe_responses_from resp [Suc k..<length ps] (without m (strings (take (Suc k) ps))) = Some (without m (strings ps))"
    by (rule Suc.IH) (use Suc.prems in simp)
  show ?case
  proof (cases "ps ! k")
    case None
    then have "strings (take (Suc k) ps) = strings (take k ps)" using k by (simp add: take_Suc_conv_app_nth)
    with IH show ?thesis unfolding up wipe_responses_from.simps r None by simp
  next
    case (Some a)
    show ?thesis unfolding up wipe_responses_from.simps r Some option.case next_string(2) [OF h k Some] by (rule IH)
  qed
qed simp

text \<open>The entries as the octets the application wrote, without their final NUL.\<close>

definition texts_of :: "memory \<Rightarrow> addr option list \<Rightarrow> bytes option list" where
  "texts_of m ps = map (map_option (\<lambda>a. text_of (the (live m a)))) ps"

lemma read_cstr_text: "cstring_at m a \<Longrightarrow> read_cstr a m = Some (text_of (the (live m a)))"
  by (auto simp: cstring_at_def read_cstr_def)

lemma copy_responses_all:
  assumes h: "handed_over m resp ps"
  shows "k + n = length ps \<Longrightarrow>
    copy_responses resp [k..<length ps] out failed (without m (strings (take k ps))) =
      (case read_replies (texts_of m (drop k ps)) of (out', failed') \<Rightarrow>
         Some (out @ out', failed \<or> failed', without m (strings ps)))"
proof (induction n arbitrary: k out failed)
  case 0
  then show ?case by (simp add: texts_of_def)
next
  case (Suc n)
  have up: "[k..<length ps] = k # [Suc k..<length ps]" using Suc.prems by (simp add: upt_conv_Cons)
  have k: "k < length ps" using Suc.prems by simp
  note r = response_at_without [OF h k taken_strings]
  have IH: "copy_responses resp [Suc k..<length ps] out failed (without m (strings (take (Suc k) ps))) =
      (case read_replies (texts_of m (drop (Suc k) ps)) of (out', failed') \<Rightarrow>
         Some (out @ out', failed \<or> failed', without m (strings ps)))" for out failed
    by (rule Suc.IH) (use Suc.prems in simp)
  have d: "texts_of m (drop k ps) = map_option (\<lambda>a. text_of (the (live m a))) (ps ! k) # texts_of m (drop (Suc k) ps)"
    using k by (simp add: texts_of_def Cons_nth_drop_Suc [symmetric])
  show ?case
  proof (cases "ps ! k")
    case None
    then have "strings (take (Suc k) ps) = strings (take k ps)" using k by (simp add: take_Suc_conv_app_nth)
    with IH show ?thesis unfolding up copy_responses.simps r None d
      by (simp split: prod.split)
  next
    case (Some a)
    have a: "a \<in> set (strings ps)"
      using Some k taken_strings [of "Suc k" ps] by (auto simp: take_Suc_conv_app_nth)
    have l: "read_cstr a (without m (strings (take k ps))) = Some (text_of (the (live m a)))"
      using read_cstr_text [OF handed_overD(4) [OF h a]] next_string(1) [OF h k Some] by (simp add: read_cstr_def)
    show ?thesis
      unfolding up copy_responses.simps r Some option.case l next_string(2) [OF h k Some] d
      by (simp add: IH Let_def split: prod.split option.split)
  qed
qed

section \<open>The whole\<close>

lemma free_array:
  assumes "handed_over m resp ps"
  shows "\<exists>m'. free resp (without m (strings ps)) = Some m' \<and> live m' = (live m) |` (- insert resp (set (strings ps))) \<and>
    freed m' = freed m @ map (\<lambda>a. (a, wiped (the (live m a)))) (strings ps) @ [(resp, Responses ps)]"
proof -
  have "live (without m (strings ps)) resp = Some (Responses ps)"
    using handed_overD(1,2) [OF assms] by (simp add: without_live)
  then show ?thesis by (auto simp: free_def without_def restrict_map_def fun_eq_iff)
qed

text \<open>C35: On every path the responses of a conversation are taken as the model of \<open>converse\<close> takes them,
  without an invalid access: each string is wiped over its whole text and freed once, then the array is
  freed, and no other memory changes, also when the application reported an error or a response is not
  UTF-8.\<close>

theorem responses_wiped_and_freed:
  assumes "handed_over m resp ps"
  shows "\<exists>m'. take_responses r (Some resp) (length ps) m = Some (replies_of r (Some (texts_of m ps)) (length ps), m') \<and>
    live m' = (live m) |` (- insert resp (set (strings ps))) \<and>
    freed m' = freed m @ map (\<lambda>a. (a, wiped (the (live m a)))) (strings ps) @ [(resp, Responses ps)]"
proof -
  have "length (texts_of m ps) = length ps" by (simp add: texts_of_def)
  then have t: "take (length ps) (texts_of m ps) = texts_of m ps" by simp
  have w: "wipe_responses_from resp [0..<length ps] m = Some (without m (strings ps))"
    using wipe_responses_all [OF assms, of 0 "length ps"] by simp
  have c: "copy_responses resp [0..<length ps] [] False m =
      (case read_replies (texts_of m ps) of (out, failed) \<Rightarrow> Some (out, failed, without m (strings ps)))"
    using copy_responses_all [OF assms, of 0 "length ps" "[]" False] by simp
  obtain m' where m': "free resp (without m (strings ps)) = Some m'" "live m' = (live m) |` (- insert resp (set (strings ps)))"
      "freed m' = freed m @ map (\<lambda>a. (a, wiped (the (live m a)))) (strings ps) @ [(resp, Responses ps)]"
    using free_array [OF assms] by blast
  have "take_responses r (Some resp) (length ps) m = Some (replies_of r (Some (texts_of m ps)) (length ps), m')"
    unfolding take_responses_def replies_of_def option.case c t
    by (simp add: wipe_and_free_responses_def w m'(1) split: prod.split)
  with m'(2,3) show ?thesis by blast
qed

definition demo_memory :: memory where
  "demo_memory = \<lparr>live = [1 \<mapsto> Responses [Some 2, None], 2 \<mapsto> Chars [49, 50, 0, 7]], freed = []\<rparr>"

theorem responses_wiped_and_freed_witness:
  "\<exists>m'. take_responses 0 (Some 1) 2 demo_memory = Some (Inr [Some (SecretString [49, 50]), None], m') \<and>
     freed m' = [(2, Chars [0, 0, 0, 7]), (1, Responses [Some 2, None])]"
proof -
  have h: "handed_over demo_memory 1 [Some 2, None]"
    by (simp add: handed_over_def demo_memory_def cstring_at_def)
  have t: "replies_of 0 (Some (texts_of demo_memory [Some 2, None])) 2 = Inr [Some (SecretString [49, 50]), None]"
    by (simp add: replies_of_def texts_of_def demo_memory_def secret_string_from_text_def)
  have w: "wiped (the (live demo_memory 2)) = Chars [0, 0, 0, 7]"
    by (simp add: demo_memory_def zeros_def)
  obtain m' where "take_responses 0 (Some 1) 2 demo_memory = Some (replies_of 0 (Some (texts_of demo_memory [Some 2, None])) 2, m')"
      "freed m' = freed demo_memory @ [(2, wiped (the (live demo_memory 2)))] @ [(1, Responses [Some 2, None])]"
    using responses_wiped_and_freed [OF h, of 0] by (auto simp: numeral_2_eq_2)
  then show ?thesis unfolding t w by (simp add: demo_memory_def)
qed

end
