(* ===== verification/Checked.thy ===== *)
theory Checked
  imports Prelude "HOL-Library.Monad_Syntax"
begin

text \<open>
  Computations that may panic: an index or a range outside its slice, a copy between slices of
  different lengths and an overflow of \<open>usize\<close> are \<open>None\<close>; so is a loop that does not end, which
  \<open>partial_function\<close> leaves undefined. The component theories compute with total functions on
  lists; the theories \<open>Checked_Radius\<close> and \<open>Checked_Protocols\<close> write the same functions with the
  checks that the compiled code makes, and show that none of them ever fails.
\<close>

section \<open>Checked operations\<close>

text \<open>\<open>xs[i]\<close>, \<open>&xs[a..b]\<close>, \<open>&xs[a..]\<close> and \<open>&xs[..b]\<close>.\<close>

definition index :: "'a list \<Rightarrow> nat \<Rightarrow> 'a option" where
  "index xs i = (if i < length xs then Some (xs ! i) else None)"

definition slice_range :: "'a list \<Rightarrow> nat \<Rightarrow> nat \<Rightarrow> 'a list option" where
  "slice_range xs a b = (if a \<le> b \<and> b \<le> length xs then Some (slice a b xs) else None)"

definition slice_from :: "'a list \<Rightarrow> nat \<Rightarrow> 'a list option" where
  "slice_from xs a = (if a \<le> length xs then Some (drop a xs) else None)"

definition slice_to :: "'a list \<Rightarrow> nat \<Rightarrow> 'a list option" where
  "slice_to xs b = (if b \<le> length xs then Some (take b xs) else None)"

text \<open>
  \<open>dst.copy_from_slice(src)\<close> into a whole array of \<open>n\<close> elements, and into \<open>xs[a..b]\<close>, which is also
  \<open>xs[a..b].fill(x)\<close> for a list of copies of \<open>x\<close>.
\<close>

definition copy_from_slice :: "nat \<Rightarrow> 'a list \<Rightarrow> 'a list option" where
  "copy_from_slice n src = (if length src = n then Some src else None)"

definition write_range :: "'a list \<Rightarrow> nat \<Rightarrow> nat \<Rightarrow> 'a list \<Rightarrow> 'a list option" where
  "write_range xs a b src =
     (if a \<le> b \<and> b \<le> length xs \<and> length src = b - a then Some (splice a src xs) else None)"

text \<open>\<open>usize\<close> arithmetic on a 64-bit machine.\<close>

abbreviation USIZE_LIMIT :: nat where "USIZE_LIMIT \<equiv> 2 ^ 64"

definition usize_add :: "nat \<Rightarrow> nat \<Rightarrow> nat option" where
  "usize_add a b = (if a + b < USIZE_LIMIT then Some (a + b) else None)"

definition usize_sub :: "nat \<Rightarrow> nat \<Rightarrow> nat option" where
  "usize_sub a b = (if b \<le> a then Some (a - b) else None)"

definition usize_mul :: "nat \<Rightarrow> nat \<Rightarrow> nat option" where
  "usize_mul a b = (if a * b < USIZE_LIMIT then Some (a * b) else None)"

text \<open>\<open>u8\<close> arithmetic.\<close>

definition u8_add :: "u8 \<Rightarrow> u8 \<Rightarrow> u8 option" where
  "u8_add a b = (if unat a + unat b < 256 then Some (a + b) else None)"

definition u8_sub :: "u8 \<Rightarrow> u8 \<Rightarrow> u8 option" where
  "u8_sub a b = (if b \<le> a then Some (a - b) else None)"

text \<open>The operator \<open>?\<close> on a computation that may also panic.\<close>

definition question :: "('e + 'a) option \<Rightarrow> ('a \<Rightarrow> ('e + 'b) option) \<Rightarrow> ('e + 'b) option" where
  "question m f = m \<bind> (\<lambda>r. case r of Inl e \<Rightarrow> Some (Inl e) | Inr a \<Rightarrow> f a)"

text \<open>A \<open>for\<close> loop with the variables it updates.\<close>

fun for_loop :: "('x \<Rightarrow> 's \<Rightarrow> 's option) \<Rightarrow> 'x list \<Rightarrow> 's \<Rightarrow> 's option" where
  "for_loop body [] s = Some s"
| "for_loop body (x # xs) s = body x s \<bind> for_loop body xs"

section \<open>When they succeed\<close>

named_theorems checked \<open>checked operations that succeed\<close>

lemma index_Some [checked]: "i < length xs \<Longrightarrow> index xs i = Some (xs ! i)"
  by (simp add: index_def)

lemma slice_Some [checked]:
  "a \<le> b \<Longrightarrow> b \<le> length xs \<Longrightarrow> slice_range xs a b = Some (slice a b xs)"
  "a \<le> length xs \<Longrightarrow> slice_from xs a = Some (drop a xs)"
  "b \<le> length xs \<Longrightarrow> slice_to xs b = Some (take b xs)"
  by (simp_all add: slice_range_def slice_from_def slice_to_def)

lemma copy_Some [checked]:
  "length src = n \<Longrightarrow> copy_from_slice n src = Some src"
  "a \<le> b \<Longrightarrow> b \<le> length xs \<Longrightarrow> length src = b - a \<Longrightarrow> write_range xs a b src = Some (splice a src xs)"
  by (simp_all add: copy_from_slice_def write_range_def)

lemma usize_Some [checked]:
  "a + b < USIZE_LIMIT \<Longrightarrow> usize_add a b = Some (a + b)"
  "b \<le> a \<Longrightarrow> usize_sub a b = Some (a - b)"
  "a * b < USIZE_LIMIT \<Longrightarrow> usize_mul a b = Some (a * b)"
  by (simp_all add: usize_add_def usize_sub_def usize_mul_def)

lemma u8_Some [checked]:
  "unat a + unat b < 256 \<Longrightarrow> u8_add a b = Some (a + b)"
  "b \<le> a \<Longrightarrow> u8_sub a b = Some (a - b)"
  by (simp_all add: u8_add_def u8_sub_def)

lemma question_Some [checked]:
  "question (Some (Inl e)) f = Some (Inl e)" "question (Some (Inr a)) f = f a"
  by (simp_all add: question_def)

text \<open>Two computations with \<open>?\<close>, one of them without panics.\<close>

lemma question_and_then:
  "(\<And>a. m = Inr a \<Longrightarrow> f a = Some (g a)) \<Longrightarrow> question (Some m) f = Some (and_then m g)"
  by (cases m) (simp_all add: question_def)

lemma for_loop_fold:
  assumes "\<And>x s. x \<in> set xs \<Longrightarrow> I s \<Longrightarrow> body x s = Some (g x s) \<and> I (g x s)" and "I s"
  shows "for_loop body xs s = Some (fold g xs s)"
  using assms by (induction xs arbitrary: s) auto

end
