(* ===== verification/Checked_Radius.thy ===== *)
theory Checked_Radius
  imports Radius_Binding Checked
begin

text \<open>
  The RADIUS codec with its checks: every index, range, copy and \<open>usize\<close> operation of
  \<open>crates/radius/src/parse.rs\<close>, \<open>auth.rs\<close>, \<open>binding.rs\<close> and \<open>packet.rs\<close>, and the fuzz target over
  the receive path (\<open>fuzz/fuzz_targets/radius_response.rs\<close>). Each checked function always returns,
  with the result of its total counterpart.
\<close>

section \<open>Parsing\<close>

definition declared_length_checked :: "bytes \<Rightarrow> (parse_error + nat) option" where
  "declared_length_checked packet =
     (if length packet < MIN_PACKET_LEN then Some (Inl PacketTooShort)
      else if length packet > MAX_PACKET_LEN then Some (Inl PacketTooLong)
      else do {
        hi \<leftarrow> index packet 2;
        lo \<leftarrow> index packet 3;
        let declared = unat (u16_from_be hi lo);
        if \<not> (MIN_PACKET_LEN \<le> declared \<and> declared \<le> MAX_PACKET_LEN) then Some (Inl LengthFieldInvalid)
        else if declared > length packet then Some (Inl LengthExceedsDatagram)
        else Some (Inr declared)
      })"

type_synonym 's checked_fn = "nat \<Rightarrow> u8 \<Rightarrow> bytes \<Rightarrow> 's \<Rightarrow> (parse_error + 's) option"

partial_function (option) walk_attrs_checked ::
  "bytes \<Rightarrow> 's checked_fn \<Rightarrow> nat \<Rightarrow> 's \<Rightarrow> (parse_error + 's) option" where
  "walk_attrs_checked attrs f off s =
     (if off < length attrs then do {
        room \<leftarrow> usize_sub (length attrs) off;
        if room < 2 then Some (Inl AttributeLengthInvalid)
        else do {
          attr_type \<leftarrow> index attrs off;
          next_off \<leftarrow> usize_add off 1;
          len_octet \<leftarrow> index attrs next_off;
          let attr_len = unat len_octet;
          if attr_len < 2 then Some (Inl AttributeLengthInvalid)
          else do {
            room \<leftarrow> usize_sub (length attrs) off;
            if attr_len > room then Some (Inl AttributeOverrun)
            else do {
              from \<leftarrow> usize_add off 2;
              to \<leftarrow> usize_add off attr_len;
              v \<leftarrow> slice_range attrs from to;
              r \<leftarrow> f off attr_type v s;
              (case r of
                 Inl e \<Rightarrow> Some (Inl e)
               | Inr s' \<Rightarrow> do {
                   off' \<leftarrow> usize_add off attr_len;
                   walk_attrs_checked attrs f off' s'
                 })
            }
          }
        }
      }
      else Some (Inr s))"

definition for_each_attribute_checked :: "bytes \<Rightarrow> 's checked_fn \<Rightarrow> 's \<Rightarrow> (parse_error + 's) option" where
  "for_each_attribute_checked attrs f s = walk_attrs_checked attrs f 0 s"

partial_function (option) vendor_walk_checked :: "bytes \<Rightarrow> nat \<Rightarrow> (parse_error + unit) option" where
  "vendor_walk_checked v off =
     (if off < length v then do {
        room \<leftarrow> usize_sub (length v) off;
        if room < 2 then Some (Inl VendorLengthInvalid)
        else do {
          next_off \<leftarrow> usize_add off 1;
          len_octet \<leftarrow> index v next_off;
          let vlen = unat len_octet;
          room \<leftarrow> (if vlen < 2 then Some 0 else usize_sub (length v) off);
          if vlen < 2 \<or> vlen > room then Some (Inl VendorLengthInvalid)
          else do {
            off' \<leftarrow> usize_add off vlen;
            vendor_walk_checked v off'
          }
        }
      }
      else Some (Inr ()))"

definition validate_vendor_specific_checked :: "bytes \<Rightarrow> (parse_error + unit) option" where
  "validate_vendor_specific_checked v =
     (if length v < 6 then Some (Inl VendorTooShort) else vendor_walk_checked v 4)"

definition collect_attr_checked :: "(u8 \<times> bytes) list checked_fn" where
  "collect_attr_checked off attr_type v attrs =
     question (if attr_type = VENDOR_SPECIFIC then validate_vendor_specific_checked v else Some (Inr ()))
       (\<lambda>_. Some (Inr (attrs @ [(attr_type, v)])))"

definition parse_response_checked :: "bytes \<Rightarrow> (parse_error + parsed_response) option" where
  "parse_response_checked packet =
     question (declared_length_checked packet) (\<lambda>declared. do {
       header \<leftarrow> slice_range packet 4 20;
       authenticator \<leftarrow> copy_from_slice 16 header;
       region \<leftarrow> slice_range packet 20 declared;
       question (for_each_attribute_checked region collect_attr_checked []) (\<lambda>attrs. do {
         c \<leftarrow> index packet 0;
         i \<leftarrow> index packet 1;
         Some (Inr \<lparr>pr_code = c, pr_id = i, pr_authenticator = authenticator, pr_attrs = attrs\<rparr>)
       })
     })"

definition decode_vendor_specific_checked :: "bytes \<Rightarrow> (parse_error + vendor_specific) option" where
  "decode_vendor_specific_checked v =
     (if length v < 6 then Some (Inl VendorTooShort)
      else do {
        a \<leftarrow> index v 0; b \<leftarrow> index v 1; c \<leftarrow> index v 2; d \<leftarrow> index v 3;
        vtype \<leftarrow> index v 4;
        len_octet \<leftarrow> index v 5;
        let vlen = unat len_octet;
        inner \<leftarrow> (if vlen < 2 then Some 0 else usize_sub (length v) 4);
        if vlen < 2 \<or> vlen \<noteq> inner then Some (Inl VendorLengthInvalid)
        else do {
          data \<leftarrow> slice_from v 6;
          Some (Inr \<lparr>vendor_id = u32_from_be a b c d, vendor_type = vtype, vendor_data = data\<rparr>)
        }
      })"

section \<open>Parsing never panics\<close>

lemma declared_length_checked_Some: "declared_length_checked p = Some (declared_length p)"
  by (simp add: declared_length_checked_def declared_length_def Let_def checked)

text \<open>
  A closure that does not panic while the variables it captures satisfy \<open>I\<close>, on a region of at most
  \<open>n\<close> octets. A slice never holds more than \<open>isize::MAX\<close> octets.
\<close>

abbreviation SLICE_LIMIT :: nat where "SLICE_LIMIT \<equiv> 2 ^ 63"

locale checked_closure =
  fixes fc :: "'s checked_fn" and f :: "'s attr_fn" and I :: "nat \<Rightarrow> 's \<Rightarrow> bool"
  assumes step: "I n s \<Longrightarrow> off + 2 + length v \<le> n \<Longrightarrow> n < SLICE_LIMIT \<Longrightarrow> fc off t v s = Some (f off t v s)"
    and keeps: "I n s \<Longrightarrow> off + 2 + length v \<le> n \<Longrightarrow> f off t v s = Inr s' \<Longrightarrow> I n s'"
begin

lemma walk_Some:
  assumes n: "length attrs = n" "n < SLICE_LIMIT"
  shows "off \<le> n \<Longrightarrow> I n s \<Longrightarrow> walk_attrs_checked attrs fc off s = Some (walk_attrs attrs f off s)"
proof (induction "n - off" arbitrary: off s rule: less_induct)
  case less
  note unfold = walk_attrs_checked.simps [of attrs fc off s] walk_attrs.simps [of attrs f off s]
  define l where "l = unat (attrs ! Suc off)"
  have l: "l < 256" by (simp add: l_def)
  consider (stop) "\<not> off < n" | (one) "off < n" "n - off < 2"
    | (bad) "Suc off < n" "2 \<le> n - off" "l < 2 \<or> n - off < l" | (entry) "Suc off < n" "2 \<le> n - off" "2 \<le> l" "l \<le> n - off"
    using less.prems(1) by linarith
  then show ?case
  proof cases
    case stop
    with n show ?thesis unfolding unfold by simp
  next
    case entry
    let ?v = "slice (off + 2) (off + l) attrs"
    have v: "off + 2 + length ?v \<le> n" using n entry by simp
    have next_step: "walk_attrs_checked attrs fc (off + l) s' = Some (walk_attrs attrs f (off + l) s')"
      if "f off (attrs ! off) ?v s = Inr s'" for s'
      using less.hyps [of "off + l" s'] keeps [OF less.prems(2) v that] entry by simp
    have u: "off + 1 < USIZE_LIMIT" "off + 2 < USIZE_LIMIT" "off + l < USIZE_LIMIT" "off + 2 \<le> off + l" "off + l \<le> n"
      using entry n l by simp_all
    show ?thesis
      unfolding unfold using entry n(1) u step [OF less.prems(2) v n(2)]
      by (simp add: checked l_def [symmetric] Let_def next_step split: sum.split)
  qed (use n in \<open>auto simp: unfold checked l_def [symmetric] Let_def\<close>)
qed

lemma walk_keeps:
  assumes n: "length attrs = n"
  shows "off \<le> n \<Longrightarrow> I n s \<Longrightarrow> walk_attrs attrs f off s = Inr s' \<Longrightarrow> I n s'"
proof (induction "n - off" arbitrary: off s rule: less_induct)
  case less
  show ?case
  proof (cases "off < n")
    case True
    from less.prems(3) True n obtain l s'' where l: "2 \<le> l" "l \<le> n - off"
        "f off (attrs ! off) (slice (off + 2) (off + l) attrs) s = Inr s''"
        "walk_attrs attrs f (off + l) s'' = Inr s'"
      by (subst (asm) walk_attrs.simps) (auto simp: Let_def not_less split: if_splits sum.splits)
    then have "off + 2 + length (slice (off + 2) (off + l) attrs) \<le> n" using n True by simp
    from keeps [OF less.prems(2) this l(3)] less.hyps [of "off + l" s''] True l(1,2,4)
    show ?thesis by simp
  next
    case False
    with less.prems(2,3) n show ?thesis unfolding walk_attrs.simps [of attrs f off s] by simp
  qed
qed

lemma for_each_keeps:
  "I (length attrs) s \<Longrightarrow> for_each_attribute attrs f s = Inr s' \<Longrightarrow> I (length attrs) s'"
  unfolding for_each_attribute_def by (rule walk_keeps [of attrs _ 0 s]) simp_all

lemma for_each_Some:
  "length attrs < SLICE_LIMIT \<Longrightarrow> I (length attrs) s \<Longrightarrow>
     for_each_attribute_checked attrs fc s = Some (for_each_attribute attrs f s)"
  unfolding for_each_attribute_checked_def for_each_attribute_def
  by (rule walk_Some) simp_all

end

lemma vendor_walk_checked_Some:
  "length v < SLICE_LIMIT \<Longrightarrow> vendor_walk_checked v off = Some (vendor_walk v off)"
proof (induction v off rule: vendor_walk.induct)
  case (1 v off)
  define l where "l = unat (v ! Suc off)"
  have l: "l < 256" by (simp add: l_def)
  note unfold = vendor_walk_checked.simps [of v off] vendor_walk.simps [of v off]
  consider (stop) "length v \<le> off" | (one) "off < length v" "length v - off < 2"
    | (bad) "Suc off < length v" "2 \<le> length v - off" "l < 2 \<or> length v - off < l"
    | (entry) "Suc off < length v" "2 \<le> length v - off" "2 \<le> l" "l \<le> length v - off"
    by linarith
  then show ?case
  proof cases
    case entry
    then have IH: "vendor_walk_checked v (off + l) = Some (vendor_walk v (off + l))"
      using "1.IH" "1.prems" by (simp add: l_def)
    have "off + 1 < USIZE_LIMIT" "off + l < USIZE_LIMIT" using entry "1.prems" l by simp_all
    with entry show ?thesis by (simp add: unfold checked l_def [symmetric] Let_def IH)
  qed (use "1.prems" in \<open>auto simp: unfold checked l_def [symmetric] Let_def\<close>)
qed

lemma validate_vendor_specific_checked_Some:
  "length v < SLICE_LIMIT \<Longrightarrow> validate_vendor_specific_checked v = Some (validate_vendor_specific v)"
  by (simp add: validate_vendor_specific_checked_def validate_vendor_specific_def vendor_walk_checked_Some)

lemma collect_attr_checked_Some:
  "length v < SLICE_LIMIT \<Longrightarrow> collect_attr_checked off t v s = Some (collect_attr off t v s)"
  unfolding collect_attr_checked_def collect_attr_def
  by (simp add: validate_vendor_specific_checked_Some question_and_then)

interpretation collect: checked_closure collect_attr_checked collect_attr "\<lambda>n s. True"
  by unfold_locales (simp_all add: collect_attr_checked_Some)

lemma declared_length_bounds:
  "declared_length p = Inr d \<Longrightarrow> 20 \<le> d \<and> d \<le> length p \<and> d \<le> 4096 \<and> p \<noteq> []"
  by (auto simp: declared_length_def Let_def split: if_splits)

lemma parse_response_checked_Some: "parse_response_checked p = Some (parse_response p)"
proof (cases "declared_length p")
  case (Inl e)
  then show ?thesis
    by (simp add: parse_response_checked_def parse_response_def declared_length_checked_Some checked)
next
  case (Inr d)
  note d = declared_length_bounds [OF Inr]
  have "for_each_attribute_checked (slice 20 d p) collect_attr_checked [] =
      Some (for_each_attribute (slice 20 d p) collect_attr [])"
    by (rule collect.for_each_Some) (use d in \<open>auto simp: min_less_iff_disj\<close>)
  moreover have "length (slice 4 20 p) = 16" using d by (auto simp: min_def)
  ultimately show ?thesis using d
    by (simp add: parse_response_checked_def parse_response_def declared_length_checked_Some Inr checked question_and_then)
qed

lemma decode_vendor_specific_checked_Some: "decode_vendor_specific_checked v = Some (decode_vendor_specific v)"
proof (cases "length v < 6")
  case False
  then have "v \<noteq> []" by auto
  with False show ?thesis
    by (auto simp: decode_vendor_specific_checked_def decode_vendor_specific_def checked Let_def)
qed (simp add: decode_vendor_specific_checked_def decode_vendor_specific_def)

section \<open>Verification\<close>

definition hmac_md5_checked :: "crypto \<Rightarrow> bytes \<Rightarrow> bytes list \<Rightarrow> bytes option option" where
  "hmac_md5_checked K key parts =
     (case hmac_md5_mac K key (concat parts) of
        None \<Rightarrow> Some None
      | Some tag \<Rightarrow> do {
          out \<leftarrow> copy_from_slice 16 tag;
          Some (Some out)
        })"

definition message_authenticator_checked :: "crypto \<Rightarrow> bytes \<Rightarrow> bytes \<Rightarrow> bytes option" where
  "message_authenticator_checked K packet_with_ma_zeroed secret = do {
     mac \<leftarrow> hmac_md5_checked K secret [packet_with_ma_zeroed];
     Some (case mac of None \<Rightarrow> zeros 16 | Some m \<Rightarrow> m)
   }"

definition response_authenticator_checked ::
  "crypto \<Rightarrow> u8 \<Rightarrow> u8 \<Rightarrow> u16 \<Rightarrow> bytes \<Rightarrow> bytes \<Rightarrow> bytes \<Rightarrow> bytes option" where
  "response_authenticator_checked K c i len request_authenticator attributes_ma_filled secret =
     copy_from_slice 16 (md5 K ([c, i] @ u16_to_be len @ request_authenticator @ attributes_ma_filled @ secret))"

definition verify_response_authenticator_checked :: "crypto \<Rightarrow> bytes \<Rightarrow> bytes \<Rightarrow> bytes \<Rightarrow> bool option" where
  "verify_response_authenticator_checked K packet request_authenticator secret = do {
     parsed \<leftarrow> parse_response_checked packet;
     (case parsed of
        Inl _ \<Rightarrow> Some False
      | Inr _ \<Rightarrow> do {
          declared \<leftarrow> declared_length_checked packet;
          (case declared of
             Inl _ \<Rightarrow> Some False
           | Inr declared \<Rightarrow> do {
               c \<leftarrow> index packet 0;
               i \<leftarrow> index packet 1;
               attrs \<leftarrow> slice_range packet 20 declared;
               expected \<leftarrow> response_authenticator_checked K c i (of_nat declared) request_authenticator attrs secret;
               received \<leftarrow> slice_range packet 4 20;
               Some (expected = received)
             })
        })
   }"

definition collect_ma_checked :: "(bytes \<times> bytes option \<times> bool) checked_fn" where
  "collect_ma_checked off attr_type v st =
     (case st of (attrs, received, invalid) \<Rightarrow>
        if attr_type = MESSAGE_AUTHENTICATOR then
          if length v \<noteq> 16 \<or> received \<noteq> None then Some (Inr (attrs, received, True))
          else do {
            ma \<leftarrow> copy_from_slice 16 v;
            from \<leftarrow> usize_add off 2;
            to \<leftarrow> usize_add off 18;
            attrs' \<leftarrow> write_range attrs from to (zeros 16);
            Some (Inr (attrs', Some ma, invalid))
          }
        else Some (Inr (attrs, received, invalid)))"

definition verify_response_message_authenticator_checked ::
  "crypto \<Rightarrow> bytes \<Rightarrow> bytes \<Rightarrow> bytes \<Rightarrow> bool option" where
  "verify_response_message_authenticator_checked K packet request_authenticator secret = do {
     parsed \<leftarrow> parse_response_checked packet;
     (case parsed of
        Inl _ \<Rightarrow> Some False
      | Inr _ \<Rightarrow> do {
          declared \<leftarrow> declared_length_checked packet;
          (case declared of
             Inl _ \<Rightarrow> Some False
           | Inr declared \<Rightarrow> do {
               attrs \<leftarrow> slice_range packet 20 declared;
               region \<leftarrow> slice_range packet 20 declared;
               walk \<leftarrow> for_each_attribute_checked region collect_ma_checked (attrs, None, False);
               (case walk of
                  Inl _ \<Rightarrow> Some False
                | Inr (attrs, received, invalid) \<Rightarrow>
                    if invalid then Some False
                    else (case received of
                            None \<Rightarrow> Some False
                          | Some ma \<Rightarrow> do {
                              header \<leftarrow> slice_range packet 0 4;
                              mac \<leftarrow> hmac_md5_checked K secret [header, request_authenticator, attrs];
                              Some (case mac of None \<Rightarrow> False | Some expected \<Rightarrow> expected = ma)
                            }))
             })
        })
   }"

definition verify_response_checked :: "crypto \<Rightarrow> request_binding \<Rightarrow> bytes \<Rightarrow> bytes \<Rightarrow> bool option" where
  "verify_response_checked K b packet secret = do {
     parsed \<leftarrow> parse_response_checked packet;
     (case parsed of
        Inl _ \<Rightarrow> Some False
      | Inr parsed \<Rightarrow>
          if pr_id parsed \<noteq> rb_id b then Some False
          else do {
            authentic \<leftarrow> verify_response_authenticator_checked K packet (rb_request_authenticator b) secret;
            if \<not> authentic then Some False
            else if list_ex (\<lambda>a. fst a = MESSAGE_AUTHENTICATOR) (pr_attrs parsed)
            then verify_response_message_authenticator_checked K packet (rb_request_authenticator b) secret
            else Some (\<not> rb_require_message_authenticator b)
          })
   }"

text \<open>The fuzz target: what it calls on the octets of one input.\<close>

definition fuzz_target :: "crypto \<Rightarrow> bytes \<Rightarrow> unit option" where
  "fuzz_target K data = do {
     parsed \<leftarrow> parse_response_checked data;
     (case parsed of
        Inl _ \<Rightarrow> Some ()
      | Inr parsed \<Rightarrow>
          for_loop (\<lambda>(attr_type, v) _.
              if attr_type = VENDOR_SPECIFIC then decode_vendor_specific_checked v \<bind> (\<lambda>_. Some ()) else Some ())
            (pr_attrs parsed) ());
     let request_authenticator = zeros 16;
     _ \<leftarrow> verify_response_authenticator_checked K data request_authenticator (blit ''fuzz-secret'');
     _ \<leftarrow> verify_response_message_authenticator_checked K data request_authenticator (blit ''fuzz-secret'');
     let binding = request_binding_new 0x2A request_authenticator;
     _ \<leftarrow> verify_response_checked K binding data (blit ''fuzz-secret'');
     Some ()
   }"

section \<open>Verification never panics\<close>

lemma hmac_md5_checked_Some: "crypto_ok K \<Longrightarrow> hmac_md5_checked K k parts = Some (hmac_md5 K k parts)"
  by (auto simp: hmac_md5_checked_def hmac_md5_def checked crypto_ok_lengths split: option.split)

lemma message_authenticator_checked_Some:
  "crypto_ok K \<Longrightarrow> message_authenticator_checked K p secret = Some (message_authenticator K p secret)"
  by (simp add: message_authenticator_checked_def message_authenticator_def hmac_md5_checked_Some)

lemma response_authenticator_checked_Some:
  "crypto_ok K \<Longrightarrow> response_authenticator_checked K c i len ra attrs secret =
     Some (response_authenticator K c i len ra attrs secret)"
  by (simp add: response_authenticator_checked_def response_authenticator_def checked crypto_ok_lengths)

lemma verify_response_authenticator_checked_Some:
  "crypto_ok K \<Longrightarrow> verify_response_authenticator_checked K p ra secret = Some (verify_response_authenticator K p ra secret)"
  by (auto simp: verify_response_authenticator_checked_def verify_response_authenticator_def
      parse_response_checked_Some declared_length_checked_Some response_authenticator_checked_Some checked
      dest!: declared_length_bounds split: sum.split)

interpretation ma: checked_closure collect_ma_checked collect_ma "\<lambda>n s. length (fst s) = n"
  by unfold_locales (auto simp: collect_ma_checked_def collect_ma_def checked split: if_splits prod.splits)

lemma verify_response_message_authenticator_checked_Some:
  assumes "crypto_ok K"
  shows "verify_response_message_authenticator_checked K p ra secret =
    Some (verify_response_message_authenticator K p ra secret)"
proof (cases "parse_response p")
  case (Inl e)
  then show ?thesis
    by (simp add: verify_response_message_authenticator_checked_def verify_response_message_authenticator_def
        parse_response_checked_Some)
next
  case parsed: (Inr r)
  show ?thesis
  proof (cases "declared_length p")
    case (Inl e)
    with parsed show ?thesis
      by (simp add: verify_response_message_authenticator_checked_def verify_response_message_authenticator_def
          parse_response_checked_Some declared_length_checked_Some)
  next
    case (Inr d)
    note d = declared_length_bounds [OF Inr]
    have w: "for_each_attribute_checked (slice 20 d p) collect_ma_checked (slice 20 d p, None, False) =
        Some (for_each_attribute (slice 20 d p) collect_ma (slice 20 d p, None, False))"
      by (rule ma.for_each_Some) (use d in \<open>auto simp: min_less_iff_disj\<close>)
    have "slice 0 4 p = take 4 p" by (simp add: slice_def)
    with d show ?thesis
      by (simp add: verify_response_message_authenticator_checked_def verify_response_message_authenticator_def
          parsed Inr parse_response_checked_Some declared_length_checked_Some checked w Let_def
          hmac_md5_checked_Some [OF assms] split: sum.split option.split)
  qed
qed

lemma verify_response_checked_Some:
  "crypto_ok K \<Longrightarrow> verify_response_checked K b p secret = Some (verify_response K b p secret)"
  by (simp add: verify_response_checked_def verify_response_def parse_response_checked_Some
      verify_response_authenticator_checked_Some verify_response_message_authenticator_checked_Some Let_def
      split: sum.split)

lemma for_loop_unit: "(\<And>x. body x () = Some ()) \<Longrightarrow> for_loop body xs () = Some ()"
  by (induction xs) simp_all

lemma fuzz_target_Some: "crypto_ok K \<Longrightarrow> fuzz_target K data = Some ()"
  unfolding fuzz_target_def
  by (auto simp: parse_response_checked_Some verify_response_authenticator_checked_Some Let_def
      verify_response_message_authenticator_checked_Some verify_response_checked_Some
      decode_vendor_specific_checked_Some intro!: for_loop_unit split: sum.split prod.split)

section \<open>Requests\<close>

definition encode_attribute_checked :: "u8 \<Rightarrow> bytes \<Rightarrow> (encode_error + bytes) option" where
  "encode_attribute_checked attr_type v =
     (if length v > MAX_ATTR_VALUE_LEN then Some (Inl ValueTooLong)
      else do {
        total \<leftarrow> usize_add (length v) 2;
        Some (Inr ([attr_type] @ [as_u8 total] @ v))
      })"

definition attribute_checked :: "packet_builder \<Rightarrow> u8 \<Rightarrow> bytes \<Rightarrow> (encode_error + packet_builder) option" where
  "attribute_checked pb attr_type v =
     question (encode_attribute_checked attr_type v) (\<lambda>encoded. do {
       used \<leftarrow> usize_add MIN_PACKET_LEN (length (pb_attributes pb));
       total \<leftarrow> usize_add used (length encoded);
       if total > MAX_PACKET_LEN then Some (Inl EncPacketTooLong)
       else Some (Inr (pb\<lparr>pb_attributes := pb_attributes pb @ encoded\<rparr>))
     })"

definition build_checked :: "packet_builder \<Rightarrow> (encode_error + bytes) option" where
  "build_checked pb = do {
     total \<leftarrow> usize_add MIN_PACKET_LEN (length (pb_attributes pb));
     if total > MAX_PACKET_LEN then Some (Inl EncPacketTooLong)
     else Some (Inr ([code_as_u8 (pb_code pb)] @ [pb_id pb] @ u16_to_be (of_nat total)
                     @ pb_authenticator pb @ pb_attributes pb))
   }"

definition find_ma_checked :: "(nat option \<times> bool \<times> bool) checked_fn" where
  "find_ma_checked off attr_type v st =
     (case st of (ma_value_off, bad_length, duplicate) \<Rightarrow>
        if attr_type = MESSAGE_AUTHENTICATOR then
          if length v \<noteq> 16 then Some (Inr (ma_value_off, True, duplicate))
          else if ma_value_off \<noteq> None then Some (Inr (ma_value_off, bad_length, True))
          else do {
            attr_off \<leftarrow> usize_add MIN_PACKET_LEN off;
            value_off \<leftarrow> usize_add attr_off 2;
            Some (Inr (Some value_off, bad_length, duplicate))
          }
        else Some (Inr (ma_value_off, bad_length, duplicate)))"

definition fill_message_authenticator_checked :: "crypto \<Rightarrow> bytes \<Rightarrow> bytes \<Rightarrow> (encode_error + bytes) option" where
  "fill_message_authenticator_checked K packet secret =
     (if length packet < MIN_PACKET_LEN \<or> length packet > MAX_PACKET_LEN then Some (Inl MalformedPacket)
      else do {
        hi \<leftarrow> index packet 2;
        lo \<leftarrow> index packet 3;
        if unat (u16_from_be hi lo) \<noteq> length packet then Some (Inl MalformedPacket)
        else do {
          region \<leftarrow> slice_from packet MIN_PACKET_LEN;
          walk \<leftarrow> for_each_attribute_checked region find_ma_checked (None, False, False);
          (case walk of
             Inl _ \<Rightarrow> Some (Inl MalformedPacket)
           | Inr (ma_value_off, bad_length, duplicate) \<Rightarrow>
               if bad_length then Some (Inl MalformedPacket)
               else if duplicate then Some (Inl DuplicateMessageAuthenticator)
               else question (Some (ok_or MissingMessageAuthenticator ma_value_off)) (\<lambda>off. do {
                 to \<leftarrow> usize_add off 16;
                 zeroed \<leftarrow> write_range packet off to (zeros 16);
                 mac \<leftarrow> message_authenticator_checked K zeroed secret;
                 to \<leftarrow> usize_add off 16;
                 filled \<leftarrow> write_range zeroed off to mac;
                 Some (Inr filled)
               }))
        }
      })"

text \<open>The attributes of a packet builder never exceed a packet, so its \<open>usize\<close> sums never overflow.\<close>

lemma attribute_checked_Some:
  assumes "length (pb_attributes pb) \<le> MAX_PACKET_LEN"
  shows "attribute_checked pb t v = Some (attribute pb t v)"
proof -
  have "encode_attribute_checked t v = Some (encode_attribute t v)"
    by (simp add: encode_attribute_checked_def encode_attribute_def checked Let_def)
  moreover have "usize_add MIN_PACKET_LEN (length (pb_attributes pb)) = Some (MIN_PACKET_LEN + length (pb_attributes pb))"
    by (rule usize_Some) (use assms in simp)
  moreover have "usize_add (MIN_PACKET_LEN + length (pb_attributes pb)) (length enc) =
      Some (MIN_PACKET_LEN + length (pb_attributes pb) + length enc)" if "encode_attribute t v = Inr enc" for enc
    by (rule usize_Some) (use assms that in \<open>auto simp: encode_attribute_def Let_def split: if_splits\<close>)
  ultimately show ?thesis unfolding attribute_checked_def attribute_def
    by (auto intro!: question_and_then)
qed

lemma attribute_bounded:
  "attribute pb t v = Inr pb' \<Longrightarrow> length (pb_attributes pb') \<le> MAX_PACKET_LEN"
  by (auto simp: attribute_def and_then_Inr split: if_splits)

lemma build_checked_Some:
  assumes "length (pb_attributes pb) \<le> MAX_PACKET_LEN"
  shows "build_checked pb = Some (build pb)"
proof -
  have "usize_add MIN_PACKET_LEN (length (pb_attributes pb)) = Some (MIN_PACKET_LEN + length (pb_attributes pb))"
    by (rule usize_Some) (use assms in simp)
  then show ?thesis by (simp add: build_checked_def build_def Let_def)
qed

interpretation find: checked_closure find_ma_checked find_ma
  "\<lambda>n s. \<forall>off. fst s = Some off \<longrightarrow> 22 \<le> off \<and> off + 16 \<le> MIN_PACKET_LEN + n"
  by unfold_locales (auto simp: find_ma_checked_def find_ma_def checked split: if_splits prod.splits)

lemma fill_message_authenticator_checked_Some:
  assumes "crypto_ok K"
  shows "fill_message_authenticator_checked K p secret = Some (fill_message_authenticator K p secret)"
proof (cases "length p < MIN_PACKET_LEN \<or> length p > MAX_PACKET_LEN")
  case False
  let ?region = "drop MIN_PACKET_LEN p"
  have w: "for_each_attribute_checked ?region find_ma_checked (None, False, False) =
      Some (for_each_attribute ?region find_ma (None, False, False))"
    by (rule find.for_each_Some) (use False in auto)
  have off: "off + 16 \<le> length p \<and> off + 16 < USIZE_LIMIT"
    if "for_each_attribute ?region find_ma (None, False, False) = Inr (Some off, False, False)" for off
    using find.for_each_keeps [OF _ that] False by auto
  have m: "length (message_authenticator K q secret) = 16" for q
    using crypto_ok_lengths [OF assms] by (auto simp: message_authenticator_def hmac_md5_def split: option.split)
  have body: "question (Some (ok_or MissingMessageAuthenticator ma)) (\<lambda>off. do {
        to \<leftarrow> usize_add off 16;
        zeroed \<leftarrow> write_range p off to (zeros 16);
        mac \<leftarrow> message_authenticator_checked K zeroed secret;
        to \<leftarrow> usize_add off 16;
        filled \<leftarrow> write_range zeroed off to mac;
        Some (Inr filled)
      }) = Some (and_then (ok_or MissingMessageAuthenticator ma) (\<lambda>off.
        let zeroed = splice off (zeros 16) p; mac = message_authenticator K zeroed secret in Inr (splice off mac zeroed)))"
    if "for_each_attribute ?region find_ma (None, False, False) = Inr (ma, False, False)" for ma
    by (rule question_and_then)
      (use that in \<open>auto dest!: off simp: checked message_authenticator_checked_Some [OF assms] m Let_def\<close>)
  show ?thesis using False
    unfolding fill_message_authenticator_checked_def fill_message_authenticator_def
    by (auto simp: checked w body Let_def split: sum.split)
qed (simp add: fill_message_authenticator_checked_def fill_message_authenticator_def)

text \<open>C17: No datagram makes the receive path panic: with every index, range, copy and addition checked,
  the fuzz target ends normally on every input, and parsing and verification return what their total
  counterparts compute.\<close>

theorem datagram_never_panics:
  assumes "crypto_ok K"
  shows "fuzz_target K data = Some () \<and> parse_response_checked data = Some (parse_response data) \<and>
    verify_response_checked K b data secret = Some (verify_response K b data secret)"
  using assms by (simp add: fuzz_target_Some parse_response_checked_Some verify_response_checked_Some)

text \<open>A packet whose only attribute runs over the end.\<close>

theorem datagram_never_panics_witness:
  "fuzz_target demo_crypto ([3, 7, 0, 22] @ zeros 16 @ [18, 9]) = Some () \<and>
   parse_response_checked ([3, 7, 0, 22] @ zeros 16 @ [18, 9]) = Some (Inl AttributeOverrun)"
proof -
  have "parse_response ([3, 7, 0, 22] @ zeros 16 @ [18, 9]) = Inl AttributeOverrun"
    by (simp add: zeros_def) code_simp
  with datagram_never_panics [OF demo_crypto_ok] show ?thesis by metis
qed

end
