(* ===== verification/Checked_Protocols.thy ===== *)
theory Checked_Protocols
  imports Checked_Radius Mschap_Flow Conversation
begin

text \<open>
  The two authentication protocols and the clamping of prompts with their checks: every index,
  range, copy and arithmetic operation of \<open>crates/mschapv2\<close>, \<open>crates/pap\<close> and of \<open>clamp\<close> in
  \<open>crates/pam-ffi/src/conversation.rs\<close>. Each checked function always returns, with the result of
  its total counterpart.
\<close>

section \<open>MSCHAPv2 attributes in a response\<close>

definition parse_ms_chap2_success_checked :: "bytes \<Rightarrow> (success_error + rstr) option" where
  "parse_ms_chap2_success_checked vdata =
     (if vdata = [] then Some (Inl TooShort)
      else
        let s = drop 1 vdata
        in if length s < 42 then Some (Inl TooShort)
           else do {
             prefix \<leftarrow> slice_range s 0 2;
             if prefix \<noteq> blit ''S='' then Some (Inl MissingSPrefix)
             else do {
               hex \<leftarrow> slice_range s 2 42;
               if \<not> list_all is_ascii_hexdigit hex then Some (Inl NotHex)
               else do {
                 separator \<leftarrow> (if length s > 42 then index s 42 else Some 0x20);
                 if separator \<noteq> 0x20 then Some (Inl TrailingGarbage)
                 else Some (Inr (lit ''S='' @ map (\<lambda>c. unat (to_ascii_uppercase c)) hex))
               }
             }
           })"

fun e_digits_checked :: "nat \<Rightarrow> nat \<Rightarrow> bool \<Rightarrow> bytes \<Rightarrow> (nat \<times> bool) option option" where
  "e_digits_checked n value any [] = Some (Some (value, any))"
| "e_digits_checked n value any (c # cs) =
     (if \<not> (48 \<le> c \<and> c \<le> 57) then Some (Some (value, any))
      else if n \<ge> 9 then Some None
      else if value * 10 \<ge> 2 ^ 32 then Some None
      else do {
        digit \<leftarrow> u8_sub c 48;
        if value * 10 + unat digit \<ge> 2 ^ 32 then Some None
        else e_digits_checked (n + 1) (value * 10 + unat digit) True cs
      })"

definition find_e_code_checked :: "bytes \<Rightarrow> u32 option option" where
  "find_e_code_checked s =
     (case position_e s of
        None \<Rightarrow> Some None
      | Some pos \<Rightarrow> do {
          start \<leftarrow> usize_add pos 2;
          digits \<leftarrow> slice_from s start;
          code \<leftarrow> e_digits_checked 0 0 False digits;
          Some (case code of None \<Rightarrow> None | Some (value, any) \<Rightarrow> if any then Some (of_nat value) else None)
        })"

definition parse_ms_chap_error_checked :: "bytes \<Rightarrow> ms_chap_error option" where
  "parse_ms_chap_error_checked vdata =
     (if vdata = [] then Some Malformed
      else do {
        code \<leftarrow> find_e_code_checked (drop 1 vdata);
        Some (case code of Some c \<Rightarrow> from_code c | None \<Rightarrow> Malformed)
      })"

fun first_vendor_data_checked :: "u8 \<Rightarrow> bytes list \<Rightarrow> bytes option option" where
  "first_vendor_data_checked vtype [] = Some None"
| "first_vendor_data_checked vtype (v # vs) = do {
     vsa \<leftarrow> decode_vendor_specific_checked v;
     (case vsa of
        Inr vsa \<Rightarrow>
          if vendor_id vsa = VENDOR_ID_MICROSOFT \<and> vendor_type vsa = vtype then Some (Some (vendor_data vsa))
          else first_vendor_data_checked vtype vs
      | Inl _ \<Rightarrow> first_vendor_data_checked vtype vs)
   }"

definition find_vendor_data_checked :: "parsed_response \<Rightarrow> u8 \<Rightarrow> bytes option option" where
  "find_vendor_data_checked response vtype = first_vendor_data_checked vtype (attr_values response VENDOR_SPECIFIC)"

definition hex_val_checked :: "u8 \<Rightarrow> u8 option option" where
  "hex_val_checked c =
     (if 48 \<le> c \<and> c \<le> 57 then u8_sub c 48 \<bind> (\<lambda>d. Some (Some d))
      else if 97 \<le> c \<and> c \<le> 102 then u8_sub c 97 \<bind> (\<lambda>d. u8_add d 10 \<bind> (\<lambda>d. Some (Some d)))
      else if 65 \<le> c \<and> c \<le> 70 then u8_sub c 65 \<bind> (\<lambda>d. u8_add d 10 \<bind> (\<lambda>d. Some (Some d)))
      else Some None)"

fun hex_pairs_checked :: "bytes list \<Rightarrow> bytes option option" where
  "hex_pairs_checked [] = Some (Some [])"
| "hex_pairs_checked (pair # pairs) = do {
     a \<leftarrow> index pair 0;
     hi \<leftarrow> hex_val_checked a;
     (case hi of
        None \<Rightarrow> Some None
      | Some hi \<Rightarrow> do {
          b \<leftarrow> index pair 1;
          lo \<leftarrow> hex_val_checked b;
          (case lo of
             None \<Rightarrow> Some None
           | Some lo \<Rightarrow> do {
               rest \<leftarrow> hex_pairs_checked pairs;
               Some (map_option (Cons (push_bit 4 hi OR lo)) rest)
             })
        })
   }"

definition hex_decode_20_checked :: "bytes \<Rightarrow> bytes option option" where
  "hex_decode_20_checked hex = (if length hex \<noteq> 40 then Some None else hex_pairs_checked (chunks_exact 2 hex))"

definition decode_s_value_checked :: "rstr \<Rightarrow> bytes option option" where
  "decode_s_value_checked s =
     (case strip_prefix (lit ''S='') s of
        None \<Rightarrow> Some None
      | Some hex \<Rightarrow> if length (as_bytes hex) \<noteq> 40 then Some None else hex_decode_20_checked (as_bytes hex))"

definition verify_authenticator_response_checked :: "rstr \<Rightarrow> rstr \<Rightarrow> bool option" where
  "verify_authenticator_response_checked expected received = do {
     a \<leftarrow> decode_s_value_checked expected;
     (case a of
        None \<Rightarrow> Some False
      | Some a \<Rightarrow> do {
          b \<leftarrow> decode_s_value_checked received;
          Some (case b of None \<Rightarrow> False | Some b \<Rightarrow> a = b)
        })
   }"

definition verify_access_accept_checked :: "parsed_response \<Rightarrow> rstr \<Rightarrow> bool option" where
  "verify_access_accept_checked response expected_authenticator = do {
     found \<leftarrow> find_vendor_data_checked response MS_CHAP2_SUCCESS;
     (case found of
        None \<Rightarrow> Some False
      | Some vdata \<Rightarrow> do {
          success \<leftarrow> parse_ms_chap2_success_checked vdata;
          (case success of
             Inl _ \<Rightarrow> Some False
           | Inr received \<Rightarrow> verify_authenticator_response_checked expected_authenticator received)
        })
   }"

section \<open>They never panic\<close>

lemma parse_ms_chap2_success_checked_Some:
  "parse_ms_chap2_success_checked v = Some (parse_ms_chap2_success v)"
  by (auto simp: parse_ms_chap2_success_checked_def parse_ms_chap2_success_def Let_def checked)

lemma e_digits_checked_Some: "e_digits_checked n val any cs = Some (e_digits n val any cs)"
  by (induction n val any cs rule: e_digits.induct) (simp_all add: checked)

lemma position_e_bound: "position_e s = Some pos \<Longrightarrow> pos + 2 \<le> length s"
  by (induction s arbitrary: pos rule: position_e.induct) (auto split: if_splits)

lemma find_e_code_checked_Some: "length s < SLICE_LIMIT \<Longrightarrow> find_e_code_checked s = Some (find_e_code s)"
  unfolding find_e_code_checked_def find_e_code_def
  by (auto simp: checked e_digits_checked_Some Let_def dest!: position_e_bound split: option.split)

lemma parse_ms_chap_error_checked_Some:
  "length v < SLICE_LIMIT \<Longrightarrow> parse_ms_chap_error_checked v = Some (parse_ms_chap_error v)"
  by (simp add: parse_ms_chap_error_checked_def parse_ms_chap_error_def find_e_code_checked_Some)

lemma first_vendor_data_checked_Some: "first_vendor_data_checked t vs = Some (first_vendor_data t vs)"
  by (induction vs) (auto simp: decode_vendor_specific_checked_Some split: sum.split)

lemma find_vendor_data_checked_Some: "find_vendor_data_checked r t = Some (find_vendor_data r t)"
  by (simp add: find_vendor_data_checked_def find_vendor_data_def first_vendor_data_checked_Some)

lemma hex_val_checked_Some: "hex_val_checked c = Some (hex_val c)"
proof -
  have "unat (c - k) + unat (10::u8) < 256" if "k \<le> c" "k = 65 \<or> k = 97" for k :: u8
  proof -
    have "65 \<le> unat k" using that(2) by auto
    moreover have "unat (c - k) = unat c - unat k" using that(1) by (rule unat_sub)
    ultimately have "unat (c - k) + 10 < 256" using unat_u8_le [of c] by linarith
    then show ?thesis by simp
  qed
  then show ?thesis
    by (simp add: hex_val_checked_def hex_val_def u8_add_def u8_sub_def)
qed

lemma hex_pairs_checked_Some:
  "list_all (\<lambda>p. length p = 2) ps \<Longrightarrow> hex_pairs_checked ps = Some (hex_pairs ps)"
  by (induction ps) (auto simp: index_def hex_val_checked_Some split: option.split)

lemma decode_s_value_checked_Some: "decode_s_value_checked s = Some (decode_s_value s)"
  by (auto simp: decode_s_value_checked_def decode_s_value_def hex_decode_20_checked_def hex_decode_20_def
      hex_pairs_checked_Some chunks_exact_lengths split: option.split)

lemma verify_authenticator_response_checked_Some:
  "verify_authenticator_response_checked e r = Some (verify_authenticator_response e r)"
  by (auto simp: verify_authenticator_response_checked_def verify_authenticator_response_def
      decode_s_value_checked_Some split: option.split)

lemma verify_access_accept_checked_Some:
  "verify_access_accept_checked r expected = Some (verify_access_accept r expected)"
  by (auto simp: verify_access_accept_checked_def verify_access_accept_def verify_success_def
      find_ms_chap2_success_def find_vendor_data_checked_Some parse_ms_chap2_success_checked_Some
      verify_authenticator_response_checked_Some split: option.split sum.split)

section \<open>Requests\<close>

definition challenge_hash_checked :: "crypto \<Rightarrow> bytes \<Rightarrow> bytes \<Rightarrow> bytes \<Rightarrow> bytes option" where
  "challenge_hash_checked K peer auth username = do {
     first \<leftarrow> slice_to (sha1 K (peer @ auth @ username)) 8;
     copy_from_slice 8 first
   }"

definition md4_16_checked :: "crypto \<Rightarrow> bytes \<Rightarrow> bytes option" where
  "md4_16_checked K bs = copy_from_slice 16 (md4 K bs)"

definition nt_password_hash_checked :: "crypto \<Rightarrow> rstr \<Rightarrow> bytes option" where
  "nt_password_hash_checked K password = md4_16_checked K (concat (map u16_to_le (encode_utf16 password)))"

definition expand_des_key_checked :: "bytes \<Rightarrow> bytes option" where
  "expand_des_key_checked k = do {
     k0 \<leftarrow> index k 0; k1 \<leftarrow> index k 1; k2 \<leftarrow> index k 2; k3 \<leftarrow> index k 3;
     k4 \<leftarrow> index k 4; k5 \<leftarrow> index k 5; k6 \<leftarrow> index k 6;
     Some [k0 AND 0xFE,
           push_bit 7 k0 OR drop_bit 1 k1,
           push_bit 6 k1 OR drop_bit 2 k2,
           push_bit 5 k2 OR drop_bit 3 k3,
           push_bit 4 k3 OR drop_bit 4 k4,
           push_bit 3 k4 OR drop_bit 5 k5,
           push_bit 2 k5 OR drop_bit 6 k6,
           push_bit 1 k6]
   }"

text \<open>
  The loop over the three groups, with the blocks written so far; \<open>zip\<close> gives every group the next
  8 octets of the output.
\<close>

definition challenge_response_checked :: "crypto \<Rightarrow> bytes \<Rightarrow> bytes \<Rightarrow> bytes option" where
  "challenge_response_checked K challenge nt_hash = do {
     padded \<leftarrow> write_range (zeros 21) 0 16 nt_hash;
     for_loop (\<lambda>group out. do {
         key7 \<leftarrow> copy_from_slice 7 group;
         key8 \<leftarrow> expand_des_key_checked key7;
         block \<leftarrow> copy_from_slice 8 (des_encrypt_block K key8 challenge);
         Some (out @ block)
       }) (chunks_exact 7 padded) []
   }"

definition generate_nt_response_checked :: "crypto \<Rightarrow> bytes \<Rightarrow> bytes \<Rightarrow> bytes \<Rightarrow> rstr \<Rightarrow> bytes option" where
  "generate_nt_response_checked K auth peer username password = do {
     challenge \<leftarrow> challenge_hash_checked K peer auth username;
     nt_hash \<leftarrow> nt_password_hash_checked K password;
     challenge_response_checked K challenge nt_hash
   }"

definition push_upper_hex_checked :: "rstr \<Rightarrow> bytes \<Rightarrow> rstr option" where
  "push_upper_hex_checked out bs =
     for_loop (\<lambda>b out. do {
         hi \<leftarrow> index HEX (unat (drop_bit 4 b));
         lo \<leftarrow> index HEX (unat (b AND 0x0F));
         Some (out @ [hi, lo])
       }) bs out"

definition generate_authenticator_response_checked ::
  "crypto \<Rightarrow> rstr \<Rightarrow> bytes \<Rightarrow> bytes \<Rightarrow> bytes \<Rightarrow> bytes \<Rightarrow> rstr option" where
  "generate_authenticator_response_checked K password nt_response peer auth username = do {
     password_hash \<leftarrow> nt_password_hash_checked K password;
     password_hash_hash \<leftarrow> md4_16_checked K password_hash;
     let digest1 = sha1 K (password_hash_hash @ nt_response @ MAGIC1);
     challenge \<leftarrow> challenge_hash_checked K peer auth username;
     let digest2 = sha1 K (digest1 @ challenge @ MAGIC2);
     push_upper_hex_checked (lit ''S='') digest2
   }"

definition vsa_value_checked :: "u8 \<Rightarrow> bytes \<Rightarrow> bytes option" where
  "vsa_value_checked vtype data = do {
     vendor_length \<leftarrow> usize_add 2 (length data);
     capacity \<leftarrow> usize_add 6 (length data);
     Some (u32_to_be VENDOR_ID_MICROSOFT @ [vtype] @ [as_u8 vendor_length] @ data)
   }"

definition encode_ms_chap2_response_checked :: "u8 \<Rightarrow> bytes \<Rightarrow> bytes \<Rightarrow> bytes option" where
  "encode_ms_chap2_response_checked ident peer nt_response = do {
     data \<leftarrow> write_range (zeros 50) 0 1 [ident];
     data \<leftarrow> write_range data 1 2 [0];
     data \<leftarrow> write_range data 2 18 peer;
     data \<leftarrow> write_range data 26 50 nt_response;
     vsa_value_checked MS_CHAP2_RESPONSE data
   }"

definition build_request_checked :: "crypto \<Rightarrow> bytes \<Rightarrow> rstr \<Rightarrow> challenges \<Rightarrow> u8 \<Rightarrow> mschapv2_request option" where
  "build_request_checked K username password challenges ident = do {
     let auth = authenticator_challenge challenges;
     let peer = peer_challenge challenges;
     nt_response \<leftarrow> generate_nt_response_checked K auth peer username password;
     expected \<leftarrow> generate_authenticator_response_checked K password nt_response peer auth username;
     challenge_value \<leftarrow> vsa_value_checked MS_CHAP_CHALLENGE auth;
     response_value \<leftarrow> encode_ms_chap2_response_checked ident peer nt_response;
     Some \<lparr>mr_ms_chap_challenge = challenge_value, mr_ms_chap2_response = response_value,
           mr_expected_authenticator = expected\<rparr>
   }"

definition padded_len_checked :: "nat \<Rightarrow> nat option" where
  "padded_len_checked n = usize_mul (max ((n + 15) div 16) 1) 16"

definition hide_block_checked :: "crypto \<Rightarrow> bytes \<Rightarrow> bytes \<Rightarrow> bytes \<Rightarrow> nat \<Rightarrow> bytes \<Rightarrow> bytes option" where
  "hide_block_checked K secret request_authenticator plain block out = do {
     previous \<leftarrow> (if block = 0 then Some request_authenticator
                  else do {
                    b \<leftarrow> usize_sub block 1;
                    from \<leftarrow> usize_mul b 16;
                    to \<leftarrow> usize_mul block 16;
                    slice_range out from to
                  });
     keystream \<leftarrow> copy_from_slice 16 (md5 K (secret @ previous));
     base \<leftarrow> usize_mul block 16;
     to \<leftarrow> usize_add base 16;
     dst \<leftarrow> slice_range out base to;
     src \<leftarrow> slice_range plain base to;
     Some (splice base (map2 (XOR) src keystream) out)
   }"

definition hide_core_checked :: "crypto \<Rightarrow> bytes \<Rightarrow> bytes \<Rightarrow> bytes \<Rightarrow> bytes option" where
  "hide_core_checked K password secret request_authenticator = do {
     total \<leftarrow> padded_len_checked (length password);
     plain \<leftarrow> write_range (zeros total) 0 (length password) password;
     for_loop (hide_block_checked K secret request_authenticator plain) [0..<total div 16] (zeros total)
   }"

definition build_challenge_response_checked ::
  "crypto \<Rightarrow> u8 \<Rightarrow> bytes \<Rightarrow> bytes \<Rightarrow> bytes \<Rightarrow> bytes \<Rightarrow> bytes \<Rightarrow> (pap_error + bytes) option" where
  "build_challenge_response_checked K i request_authenticator username one_time_code state secret =
     (if length one_time_code > MAX_PASSWORD_LEN then Some (Inl PasswordTooLong)
      else do {
        hidden \<leftarrow> hide_core_checked K one_time_code secret request_authenticator;
        packet \<leftarrow>
          question (attribute_checked (packet_builder_new AccessRequest i request_authenticator) USER_NAME username) (\<lambda>pb.
          question (attribute_checked pb USER_PASSWORD hidden) (\<lambda>pb.
          question (attribute_checked pb STATE state) (\<lambda>pb.
          question (attribute_checked pb MESSAGE_AUTHENTICATOR (zeros 16)) (\<lambda>pb.
          question (build_checked pb) (\<lambda>packet.
            fill_message_authenticator_checked K packet secret)))));
        Some (map_err Encode packet)
      })"

text \<open>The clamping of a text: \<open>&text[..end]\<close> panics inside a character.\<close>

definition str_to :: "rstr \<Rightarrow> nat \<Rightarrow> rstr option" where
  "str_to s k = (if is_char_boundary s k then Some (str_take s k) else None)"

partial_function (option) clamp_loop_checked :: "rstr \<Rightarrow> nat \<Rightarrow> nat option" where
  "clamp_loop_checked text k =
     (if 0 < k \<and> \<not> is_char_boundary text k then usize_sub k 1 \<bind> clamp_loop_checked text else Some k)"

definition clamp_checked :: "rstr \<Rightarrow> rstr option" where
  "clamp_checked text =
     (if length (as_bytes text) \<le> 511 then Some text
      else do {
        k \<leftarrow> clamp_loop_checked text 511;
        str_to text k
      })"

section \<open>They never panic either\<close>

lemma challenge_hash_checked_Some: "crypto_ok K \<Longrightarrow> challenge_hash_checked K p a u = Some (challenge_hash K p a u)"
  by (simp add: challenge_hash_checked_def challenge_hash_def checked crypto_ok_lengths)

lemma md4_16_checked_Some: "crypto_ok K \<Longrightarrow> md4_16_checked K bs = Some (md4_16 K bs)"
  by (simp add: md4_16_checked_def md4_16_def checked crypto_ok_lengths)

lemma nt_password_hash_checked_Some: "crypto_ok K \<Longrightarrow> nt_password_hash_checked K pw = Some (nt_password_hash K pw)"
  by (simp add: nt_password_hash_checked_def nt_password_hash_def md4_16_checked_Some)

lemma expand_des_key_checked_Some: "length k = 7 \<Longrightarrow> expand_des_key_checked k = Some (expand_des_key k)"
  by (auto simp: expand_des_key_checked_def expand_des_key_def index_def)

lemma for_loop_concat:
  "(\<And>x out. x \<in> set xs \<Longrightarrow> body x out = Some (out @ g x)) \<Longrightarrow> for_loop body xs out = Some (out @ concat (map g xs))"
  by (induction xs arbitrary: out) auto

lemma challenge_response_checked_Some:
  assumes "crypto_ok K" and "length nt_hash = 16"
  shows "challenge_response_checked K c nt_hash = Some (challenge_response K c nt_hash)"
proof -
  have "length g = 7" if "g \<in> set (chunks_exact 7 (splice 0 nt_hash (zeros 21)))" for g
    using chunks_exact_lengths [of 7 "splice 0 nt_hash (zeros 21)"] that by (simp add: list_all_iff)
  then show ?thesis
    using assms by (simp add: challenge_response_checked_def challenge_response_def checked
        expand_des_key_checked_Some for_loop_concat des_encrypt_block_def crypto_ok_lengths)
qed

lemma generate_nt_response_checked_Some:
  "crypto_ok K \<Longrightarrow> generate_nt_response_checked K a p u pw = Some (generate_nt_response K a p u pw)"
  by (simp add: generate_nt_response_checked_def generate_nt_response_def challenge_hash_checked_Some
      nt_password_hash_checked_Some challenge_response_checked_Some nt_password_hash_def md4_16_def crypto_ok_lengths)

lemma push_upper_hex_checked_Some: "push_upper_hex_checked out bs = Some (push_upper_hex out bs)"
proof -
  have "length HEX = 16" by (simp add: HEX_def lit_def)
  then have "index HEX (unat (drop_bit 4 b)) = Some (HEX ! unat (drop_bit 4 b))"
    "index HEX (unat (b AND 0x0F)) = Some (HEX ! unat (b AND 0x0F))" for b :: u8
    using nibble_bounds [of b] by (simp_all add: index_def)
  then show ?thesis by (simp add: push_upper_hex_checked_def push_upper_hex_def for_loop_concat)
qed

lemma generate_authenticator_response_checked_Some:
  "crypto_ok K \<Longrightarrow> generate_authenticator_response_checked K pw nt p a u =
     Some (generate_authenticator_response K pw nt p a u)"
  by (simp add: generate_authenticator_response_checked_def generate_authenticator_response_def Let_def
      nt_password_hash_checked_Some md4_16_checked_Some password_hash_hash_def challenge_hash_checked_Some
      push_upper_hex_checked_Some)

lemma vsa_value_checked_Some: "length d \<le> 253 \<Longrightarrow> vsa_value_checked t d = Some (vsa_value t d)"
  by (simp add: vsa_value_checked_def vsa_value_def checked Let_def)

lemma encode_ms_chap2_response_checked_Some:
  assumes "length peer = 16" and "length nt = 24"
  shows "encode_ms_chap2_response_checked i peer nt = Some (encode_ms_chap2_response i peer nt)"
proof -
  have "splice 0 [i] (zeros 50) = (zeros 50)[0 := i]" "splice 1 [0] ((zeros 50)[0 := i]) = (zeros 50)[0 := i, 1 := 0]"
    by (simp_all add: splice_def upd_conv_take_nth_drop)
  with assms show ?thesis
    by (simp add: encode_ms_chap2_response_checked_def encode_ms_chap2_response_def Let_def checked
        vsa_value_checked_Some)
qed

lemma build_request_checked_Some:
  assumes "crypto_ok K" and "length (authenticator_challenge c) = 16" "length (peer_challenge c) = 16"
  shows "build_request_checked K u pw c i = Some (build_request K u pw c i)"
  using assms
  by (simp add: build_request_checked_def build_request_def Let_def generate_nt_response_checked_Some
      generate_authenticator_response_checked_Some vsa_value_checked_Some encode_ms_chap_challenge_def
      encode_ms_chap2_response_checked_Some length_generate_nt_response)

lemma padded_len_le: "padded_len n \<le> n + 16"
  by (simp add: padded_len_def max_def) linarith

lemma hide_block_checked_Some:
  assumes "crypto_ok K" and "block * 16 + 16 \<le> n" "n < USIZE_LIMIT" and "length plain = n" "length out = n"
  shows "hide_block_checked K secret ra plain block out = Some (hide_block K secret ra plain block out) \<and>
    length (hide_block K secret ra plain block out) = n"
proof -
  have "(block - 1) * 16 \<le> block * 16" by simp
  then have "(if block = 0 then Some ra
              else do {
                b \<leftarrow> usize_sub block 1;
                from \<leftarrow> usize_mul b 16;
                to \<leftarrow> usize_mul block 16;
                slice_range out from to
              }) = Some (if block = 0 then ra else slice ((block - 1) * 16) (block * 16) out)"
    using assms(2,3,5) by (auto simp: checked)
  moreover have "length (map2 (XOR) (slice (block * 16) (block * 16 + 16) plain) (md5 K m)) = 16" for m
    using assms(1,2,4) by (simp add: crypto_ok_lengths)
  ultimately show ?thesis using assms
    unfolding hide_block_checked_def hide_block_def Let_def by (auto simp: checked crypto_ok_lengths)
qed

lemma hide_core_checked_Some:
  assumes "crypto_ok K" and "length pw \<le> MAX_PASSWORD_LEN"
  shows "hide_core_checked K pw secret ra = Some (hide_core K pw secret ra)"
proof -
  define n where "n = padded_len (length pw)"
  have n: "length pw \<le> n" "n < USIZE_LIMIT" "n mod 16 = 0"
    using padded_len_le [of "length pw"] padded_len_bounds [of "length pw"] assms(2) by (simp_all add: n_def)
  have "padded_len_checked (length pw) = Some n"
    using n(2) by (simp add: padded_len_checked_def n_def padded_len_def usize_mul_def)
  moreover have "for_loop (hide_block_checked K secret ra (splice 0 pw (zeros n))) [0..<n div 16] (zeros n) =
      Some (fold (hide_block K secret ra (splice 0 pw (zeros n))) [0..<n div 16] (zeros n))"
  proof (rule for_loop_fold [where I = "\<lambda>out. length out = n"])
    fix block :: nat and out :: bytes
    assume b: "block \<in> set [0..<n div 16]" and out: "length out = n"
    from b n(3) have "block * 16 + 16 \<le> n" by (simp add: less_iff_Suc_add) presburger
    from hide_block_checked_Some [OF assms(1) this n(2) _ out] n(1)
    show "hide_block_checked K secret ra (splice 0 pw (zeros n)) block out =
        Some (hide_block K secret ra (splice 0 pw (zeros n)) block out) \<and>
      length (hide_block K secret ra (splice 0 pw (zeros n)) block out) = n" by simp
  qed simp
  ultimately show ?thesis
    using n(1) by (simp add: hide_core_checked_def hide_core_def Let_def checked n_def [symmetric])
qed

lemma build_challenge_response_checked_Some:
  assumes "crypto_ok K"
  shows "build_challenge_response_checked K i ra user code state secret =
    Some (build_challenge_response K i ra user code state secret)"
proof (cases "length code > MAX_PASSWORD_LEN")
  case False
  have pb: "length (pb_attributes (packet_builder_new AccessRequest i ra)) \<le> MAX_PACKET_LEN"
    by (simp add: packet_builder_new_def)
  show ?thesis using False
    by (simp add: build_challenge_response_checked_def build_challenge_response_def try_hide_password_def
        hide_core_checked_Some [OF assms] message_authenticator_placeholder_def
        question_and_then attribute_checked_Some attribute_bounded build_checked_Some pb
        fill_message_authenticator_checked_Some [OF assms])
qed (simp add: build_challenge_response_checked_def build_challenge_response_def try_hide_password_def)

lemma clamp_loop_checked_Some: "clamp_loop_checked s k = Some (clamp_end s k)"
  by (induction k) (simp_all add: clamp_loop_checked.simps [of s] checked)

lemma clamp_checked_Some: "clamp_checked s = Some (clamp s)"
  using clamp_end_boundary [of s 511]
  by (simp add: clamp_checked_def clamp_def clamp_loop_checked_Some str_to_def)

section \<open>Properties\<close>

lemma first_vendor_data_length:
  "first_vendor_data t vs = Some d \<Longrightarrow> \<exists>v\<in>set vs. length d \<le> length v"
  by (induction vs) (auto simp: decode_vendor_specific_def Let_def split: sum.splits if_splits)

lemma find_vendor_data_short:
  assumes "parse_response p = Inr r" and "find_vendor_data r t = Some d"
  shows "length d \<le> 253"
proof -
  obtain a where "a \<in> set (pr_attrs r)" "length d \<le> length (snd a)"
    using first_vendor_data_length [OF assms(2) [unfolded find_vendor_data_def]] by (auto simp: attr_values_def)
  moreover have "short_attrs (pr_attrs r)" using assms(1) by (simp add: parse_response_Inr wf_attrs_def)
  ultimately show ?thesis by (auto simp: short_attrs_def list_all_iff)
qed

text \<open>C25: Nothing a server sends makes the use of a parsed response panic: the search for the vendor
  attributes, the verification of an Access-Accept, the reading of an MS-CHAP-Error and the clamping
  of a Reply-Message, whose loop ends, return what their total counterparts compute.\<close>

theorem response_use_never_panics:
  assumes "parse_response packet = Inr r"
  shows "verify_access_accept_checked r expected = Some (verify_access_accept r expected) \<and>
    find_vendor_data_checked r MS_CHAP_ERROR = Some (find_ms_chap_error r) \<and>
    pred_option (\<lambda>vdata. parse_ms_chap_error_checked vdata = Some (parse_ms_chap_error vdata)) (find_ms_chap_error r) \<and>
    clamp_checked message = Some (clamp message)"
proof -
  have "pred_option (\<lambda>vdata. parse_ms_chap_error_checked vdata = Some (parse_ms_chap_error vdata)) (find_ms_chap_error r)"
  proof (cases "find_ms_chap_error r")
    case (Some vdata)
    then have "length vdata < SLICE_LIMIT"
      using find_vendor_data_short [OF assms, of MS_CHAP_ERROR vdata] by (simp add: find_ms_chap_error_def)
    with Some show ?thesis by (simp add: parse_ms_chap_error_checked_Some)
  qed simp
  then show ?thesis
    by (simp add: verify_access_accept_checked_Some find_vendor_data_checked_Some find_ms_chap_error_def clamp_checked_Some)
qed

text \<open>An Access-Reject with the error \<open>E=648\<close>, an expired password.\<close>

theorem response_use_never_panics_witness:
  "\<exists>r vdata. parse_response (packet_bytes 3 7 (zeros 16) [(VENDOR_SPECIFIC, vsa_value MS_CHAP_ERROR [1, 69, 61, 54, 52, 56])]) = Inr r \<and>
     find_vendor_data_checked r MS_CHAP_ERROR = Some (Some vdata) \<and> parse_ms_chap_error_checked vdata = Some PasswordExpired"
proof -
  let ?v = "vsa_value MS_CHAP_ERROR [1, 69, 61, 54, 52, 56]"
  let ?r = "\<lparr>pr_code = 3, pr_id = 7, pr_authenticator = zeros 16, pr_attrs = [(VENDOR_SPECIFIC, ?v)]\<rparr>"
  have p: "parse_response (packet_bytes 3 7 (zeros 16) [(VENDOR_SPECIFIC, ?v)]) = Inr ?r"
    using vsa_value_ok [of "[1, 69, 61, 54, 52, 56]" MS_CHAP_ERROR]
    by (simp add: parse_response_Inr wf_attrs_def short_attrs_def enc_attrs_def enc_attr_def vsa_value_def)
  have "find_ms_chap_error ?r = Some [1, 69, 61, 54, 52, 56]"
    by (simp add: find_ms_chap_error_def find_vendor_data_def attr_values_def decode_vsa_value)
  moreover have "parse_ms_chap_error [1, 69, 61, 54, 52, 56] = PasswordExpired"
    by (simp add: parse_ms_chap_error_def find_e_code_def from_code_def)
  ultimately show ?thesis using response_use_never_panics [OF p] p by fastforce
qed

text \<open>The requests are built without a panic: for challenges of 16 octets the MSCHAPv2 attributes,
  for every code and State the answer to a PAP challenge, and for every packet its Message-Authenticator
  return what their total counterparts compute.\<close>

theorem requests_never_panic:
  assumes "crypto_ok K" and "length (authenticator_challenge c) = 16" "length (peer_challenge c) = 16"
  shows "build_request_checked K user pw c i = Some (build_request K user pw c i) \<and>
    build_challenge_response_checked K i ra user_octets code state secret =
      Some (build_challenge_response K i ra user_octets code state secret) \<and>
    fill_message_authenticator_checked K packet secret = Some (fill_message_authenticator K packet secret)"
  using assms
  by (simp add: build_request_checked_Some build_challenge_response_checked_Some fill_message_authenticator_checked_Some)

theorem requests_never_panic_witness:
  "\<exists>req. build_request_checked demo_crypto [117] (lit ''pw'')
      \<lparr>authenticator_challenge = zeros 16, peer_challenge = replicate 16 1\<rparr> 7 = Some req"
  using requests_never_panic [OF demo_crypto_ok, of "\<lparr>authenticator_challenge = zeros 16, peer_challenge = replicate 16 1\<rparr>"]
  by auto

end
