(* ===== verification/Secret_Memory.thy ===== *)
theory Secret_Memory
  imports Config Mschap_Crypto
begin

text \<open>
  The memory of secret buffers: what a \<open>Vec<u8>\<close> that holds a secret gives back to the allocator when
  it grows and when it is dropped. This is the reason for the buffer types of
  \<open>crates/secrets/src/lib.rs\<close>, for the sized scratch buffer of \<open>read_secret\<close>
  (\<open>crates/config/src/lib.rs\<close>) and for the wiped UTF-16 buffer of \<open>nt_password_hash\<close>
  (\<open>crates/mschapv2/src/crypto.rs\<close>). Stack copies are not modelled.
\<close>

section \<open>Growable buffers\<close>

text \<open>
  A vector has its octets and a capacity. The allocator chooses the capacity of a vector that grows
  and whether the block moves; a block that moves is given back with the octets it held.
\<close>

record vec =
  vec_bytes :: bytes
  vec_capacity :: nat

record allocator =
  al_grow :: "nat \<Rightarrow> nat \<Rightarrow> nat"
  al_moves :: "nat \<Rightarrow> nat \<Rightarrow> bool"

text \<open>The contents of the blocks given back, oldest first.\<close>

type_synonym released = "bytes list"

definition vec_with_capacity :: "nat \<Rightarrow> vec" where
  "vec_with_capacity n = \<lparr>vec_bytes = [], vec_capacity = n\<rparr>"

definition vec_reserve :: "allocator \<Rightarrow> nat \<Rightarrow> vec \<times> released \<Rightarrow> vec \<times> released" where
  "vec_reserve A extra s =
     (case s of (v, rel) \<Rightarrow>
        let needed = length (vec_bytes v) + extra
        in if needed \<le> vec_capacity v then (v, rel)
           else let cap = max needed (al_grow A (vec_capacity v) needed)
                in (v\<lparr>vec_capacity := cap\<rparr>,
                    if vec_capacity v \<noteq> 0 \<and> al_moves A (vec_capacity v) cap then rel @ [vec_bytes v] else rel))"

definition vec_extend :: "allocator \<Rightarrow> bytes \<Rightarrow> vec \<times> released \<Rightarrow> vec \<times> released" where
  "vec_extend A bs s =
     (case vec_reserve A (length bs) s of (v, rel) \<Rightarrow> (v\<lparr>vec_bytes := vec_bytes v @ bs\<rparr>, rel))"

definition vec_push :: "allocator \<Rightarrow> u8 \<Rightarrow> vec \<times> released \<Rightarrow> vec \<times> released" where
  "vec_push A b s = vec_extend A [b] s"

text \<open>
  Collecting an iterator pushes its items into a vector of some first capacity.
\<close>

definition vec_collect :: "allocator \<Rightarrow> nat \<Rightarrow> bytes \<Rightarrow> vec \<times> released" where
  "vec_collect A initial bs = fold (vec_push A) bs (vec_with_capacity initial, [])"

text \<open>
  Dropping a \<open>Zeroizing\<close> buffer: the \<open>zeroize\<close> crate overwrites the octets, then the block is given
  back. \<open>wipes\<close> is what that crate documents.
\<close>

definition wipes :: "(bytes \<Rightarrow> bytes) \<Rightarrow> bool" where
  "wipes zeroize \<longleftrightarrow> (\<forall>bs. zeroize bs = zeros (length bs))"

definition drop_zeroizing :: "(bytes \<Rightarrow> bytes) \<Rightarrow> vec \<times> released \<Rightarrow> released" where
  "drop_zeroizing zeroize s =
     (case s of (v, rel) \<Rightarrow> if vec_capacity v = 0 then rel else rel @ [zeroize (vec_bytes v)])"

section \<open>The buffers of the program\<close>

text \<open>
  The scratch buffer of \<open>read_secret\<close>, \<open>Zeroizing::new(Vec::with_capacity(hint))\<close>, filled by
  \<open>read_to_end\<close> in the given pieces. (\<open>ZeroizingBytes\<close> of the secrets crate holds the same vector.)
\<close>

definition fill_scratch :: "allocator \<Rightarrow> nat \<Rightarrow> bytes list \<Rightarrow> vec \<times> released" where
  "fill_scratch A cap pieces = fold (vec_extend A) pieces (vec_with_capacity cap, [])"

text \<open>
  \<open>read_secret\<close>: \<open>read_to_end\<close> delivers \<open>pieces\<close> and then ends, or fails with the code \<open>failure\<close>; the
  scratch buffer is dropped on every return.
\<close>

definition read_secret_memory ::
  "allocator \<Rightarrow> (bytes \<Rightarrow> bytes) \<Rightarrow> metadata \<Rightarrow> bytes list \<Rightarrow> nat option \<Rightarrow> rstr \<Rightarrow>
   (config_error + secret_string) \<times> released" where
  "read_secret_memory A zeroize meta pieces failure path =
     (let hint = md_len meta;
          scratch = fill_scratch A hint pieces;
          result = (case failure of
              Some e \<Rightarrow> Inl (ConfigRead path (OsError e))
            | None \<Rightarrow>
                (case from_utf8 (strip_newline (vec_bytes (fst scratch))) of
                   None \<Rightarrow> Inl (ConfigRead path (InvalidData (lit ''secret file is not valid UTF-8'')))
                 | Some text \<Rightarrow> Inr (secret_string_from_text text)))
      in (result, drop_zeroizing zeroize scratch))"

text \<open>
  \<open>nt_password_hash\<close>: the UTF-16 octets are collected, hashed and dropped. The capacity \<open>initial\<close> that
  the collection starts with is up to the standard library, which documents no more than that a lower
  bound of the iterator's size is a hint for it; it is a parameter.
\<close>

definition nt_password_hash_memory ::
  "crypto \<Rightarrow> allocator \<Rightarrow> (bytes \<Rightarrow> bytes) \<Rightarrow> nat \<Rightarrow> rstr \<Rightarrow> bytes \<times> released" where
  "nt_password_hash_memory K A zeroize initial password =
     (let utf16le = vec_collect A initial (concat (map u16_to_le (encode_utf16 password)))
      in (md4_16 K (vec_bytes (fst utf16le)), drop_zeroizing zeroize utf16le))"

section \<open>What is given back\<close>

text \<open>Blocks without a trace of their contents.\<close>

definition traceless :: "released \<Rightarrow> bool" where
  "traceless rel \<longleftrightarrow> list_all (\<lambda>bs. bs = zeros (length bs)) rel"

lemma traceless_append [simp]: "traceless (rel @ rel') \<longleftrightarrow> traceless rel \<and> traceless rel'"
  by (simp add: traceless_def)

lemma vec_extend_bytes: "vec_bytes (fst (vec_extend A bs s)) = vec_bytes (fst s) @ bs"
  by (auto simp: vec_extend_def vec_reserve_def Let_def split: prod.splits)

lemma fold_extend_bytes: "vec_bytes (fst (fold (vec_extend A) ps s)) = vec_bytes (fst s) @ concat ps"
  by (induction ps arbitrary: s) (simp_all add: vec_extend_bytes)

lemma fold_push: "fold (vec_push A) bs s = fold (vec_extend A) (map (\<lambda>b. [b]) bs) s"
  by (induction bs arbitrary: s) (simp_all add: vec_push_def)

text \<open>A vector that is large enough never moves.\<close>

lemma vec_extend_room:
  "length (vec_bytes v) + length bs \<le> vec_capacity v \<Longrightarrow>
     vec_extend A bs (v, rel) = (v\<lparr>vec_bytes := vec_bytes v @ bs\<rparr>, rel)"
  by (simp add: vec_extend_def vec_reserve_def)

lemma fold_extend_room:
  "length (vec_bytes v) + length (concat ps) \<le> vec_capacity v \<Longrightarrow>
     fold (vec_extend A) ps (v, rel) = (v\<lparr>vec_bytes := vec_bytes v @ concat ps\<rparr>, rel)"
  by (induction ps arbitrary: v) (simp_all add: vec_extend_room)

text \<open>What has been given back stays given back.\<close>

lemma vec_extend_released: "\<exists>more. snd (vec_extend A bs s) = snd s @ more"
  by (auto simp: vec_extend_def vec_reserve_def Let_def split: prod.splits)

lemma fold_extend_released: "\<exists>more. snd (fold (vec_extend A) ps s) = snd s @ more"
proof (induction ps arbitrary: s)
  case (Cons p ps)
  then show ?case using vec_extend_released [of A p s] by (metis append.assoc fold_simps(2))
qed simp

lemma traceless_Nil [simp]: "traceless []"
  by (simp add: traceless_def)

lemma traceless_drop: "wipes Z \<Longrightarrow> traceless rel \<Longrightarrow> traceless (drop_zeroizing Z (v, rel))"
  by (simp add: drop_zeroizing_def wipes_def traceless_def)

lemma fill_scratch_room:
  "length (concat ps) \<le> cap \<Longrightarrow> fill_scratch A cap ps = (\<lparr>vec_bytes = concat ps, vec_capacity = cap\<rparr>, [])"
  by (simp add: fill_scratch_def fold_extend_room vec_with_capacity_def)

lemma fill_scratch_bytes: "vec_bytes (fst (fill_scratch A cap ps)) = concat ps"
  by (simp add: fill_scratch_def fold_extend_bytes vec_with_capacity_def)

lemma vec_collect_bytes: "vec_bytes (fst (vec_collect A c bs)) = bs"
  by (simp add: vec_collect_def fold_push fold_extend_bytes vec_with_capacity_def)

text \<open>Pushing octet by octet gives back prefixes of what is collected, as they were when a block moved.\<close>

lemma vec_push_released:
  "vec_push A b (v, rel) = (v', rel') \<Longrightarrow>
     vec_bytes v' = vec_bytes v @ [b] \<and> (rel' = rel \<or> rel' = rel @ [vec_bytes v]) \<and>
     (length (vec_bytes v) < vec_capacity v \<longrightarrow> rel' = rel) \<and>
     vec_capacity v \<le> vec_capacity v' \<and> length (vec_bytes v') \<le> vec_capacity v'"
  by (auto simp: vec_push_def vec_extend_def vec_reserve_def Let_def split: prod.splits if_splits)

lemma fold_push_released:
  "\<exists>ns. snd (fold (vec_push A) bs (v, rel)) = rel @ map (\<lambda>n. take n (vec_bytes v @ bs)) ns \<and>
     list_all (\<lambda>n. n < length (vec_bytes v @ bs)) ns"
proof (induction bs arbitrary: v rel)
  case (Cons b bs)
  obtain v' rel' where p: "vec_push A b (v, rel) = (v', rel')" by force
  note q = vec_push_released [OF p]
  let ?all = "vec_bytes v @ b # bs"
  obtain ns where ns: "snd (fold (vec_push A) bs (v', rel')) = rel' @ map (\<lambda>n. take n ?all) ns"
      "list_all (\<lambda>n. n < length ?all) ns"
    using Cons.IH [of v' rel'] q by auto
  show ?case
  proof (cases "rel' = rel")
    case True
    with ns p show ?thesis by auto
  next
    case False
    then have "rel' = rel @ [take (length (vec_bytes v)) ?all]" using q by simp
    with ns p show ?thesis by (intro exI [of _ "length (vec_bytes v) # ns"]) simp
  qed
qed (simp add: exI [of _ "[]"])

lemma fold_push_capacity:
  "vec_capacity v \<le> vec_capacity (fst (fold (vec_push A) bs (v, rel))) \<and>
     (bs \<noteq> [] \<longrightarrow> 0 < vec_capacity (fst (fold (vec_push A) bs (v, rel))))"
proof (induction bs arbitrary: v rel)
  case (Cons b bs)
  obtain v' rel' where p: "vec_push A b (v, rel) = (v', rel')" by force
  from vec_push_released [OF p] have "vec_capacity v \<le> vec_capacity v'" "0 < vec_capacity v'" by auto
  then show ?case using Cons.IH [of v' rel'] p by auto
qed simp

lemma vec_collect_room: "length bs \<le> c \<Longrightarrow> vec_collect A c bs = (\<lparr>vec_bytes = bs, vec_capacity = c\<rparr>, [])"
  by (simp add: vec_collect_def fold_push fold_extend_room vec_with_capacity_def comp_def)

text \<open>A collection that outgrows its first buffer leaves it behind when the block moves.\<close>

definition first_move :: "allocator \<Rightarrow> nat \<Rightarrow> bool" where
  "first_move A c \<longleftrightarrow> c \<noteq> 0 \<and> al_moves A c (max (Suc c) (al_grow A c (Suc c)))"

lemma vec_collect_released:
  "\<exists>ns. snd (vec_collect A c bs) = map (\<lambda>n. take n bs) ns \<and> list_all (\<lambda>n. n < length bs) ns \<and>
     (length bs \<le> c \<longrightarrow> ns = []) \<and> (c < length bs \<and> first_move A c \<longrightarrow> (\<exists>more. ns = c # more))"
proof (cases "c < length bs \<and> first_move A c")
  case False
  obtain ns where "snd (vec_collect A c bs) = map (\<lambda>n. take n bs) ns" "list_all (\<lambda>n. n < length bs) ns"
    using fold_push_released [of A bs "vec_with_capacity c" "[]"] by (auto simp: vec_collect_def vec_with_capacity_def)
  with False vec_collect_room [of bs c A] show ?thesis by (cases "length bs \<le> c") auto
next
  case True
  define v where "v = \<lparr>vec_bytes = take c bs, vec_capacity = c\<rparr>"
  have bs: "bs = take c bs @ bs ! c # drop (Suc c) bs" using True by (simp add: id_take_nth_drop)
  have "vec_collect A c bs = fold (vec_push A) (bs ! c # drop (Suc c) bs) (fold (vec_push A) (take c bs) (vec_with_capacity c, []))"
    unfolding vec_collect_def by (subst bs) (simp only: fold_append o_apply)
  also have "fold (vec_push A) (take c bs) (vec_with_capacity c, []) = (v, [])"
    using True by (simp add: fold_push fold_extend_room vec_with_capacity_def v_def comp_def)
  finally have c: "vec_collect A c bs = fold (vec_push A) (drop (Suc c) bs) (vec_push A (bs ! c) (v, []))" by simp
  obtain v' where p: "vec_push A (bs ! c) (v, []) = (v', [take c bs])" "vec_bytes v' = take c bs @ [bs ! c]"
    using True by (simp add: vec_push_def vec_extend_def vec_reserve_def v_def Let_def first_move_def)
  obtain ns where "snd (vec_collect A c bs) = [take c bs] @ map (\<lambda>n. take n bs) ns" "list_all (\<lambda>n. n < length bs) ns"
    using fold_push_released [of A "drop (Suc c) bs" v' "[take c bs]"] bs unfolding c p by (auto simp: p(2))
  with True show ?thesis by (intro exI [of _ "c # ns"]) simp
qed

section \<open>Properties\<close>

text \<open>C36: \<open>read_secret\<close> leaves no trace of a secret file that is at most as long as \<open>fstat\<close> said,
  whatever pieces the read delivers and also when it fails or the secret is not UTF-8: every block
  given back is wiped. Its result is that of the model on values.\<close>

theorem read_secret_wiped:
  assumes "wipes zeroize" and "length (concat pieces) \<le> md_len meta"
    and "fs_read_to_end fs file w = (case failure of None \<Rightarrow> Inr (concat pieces) | Some e \<Rightarrow> Inl e, w')"
  shows "traceless (snd (read_secret_memory A zeroize meta pieces failure path)) \<and>
    read_secret fs file meta path w = Returns (fst (read_secret_memory A zeroize meta pieces failure path)) w'"
proof
  show "traceless (snd (read_secret_memory A zeroize meta pieces failure path))"
    using assms(1,2) by (simp add: read_secret_memory_def Let_def fill_scratch_room traceless_drop)
  show "read_secret fs file meta path w = Returns (fst (read_secret_memory A zeroize meta pieces failure path)) w'"
    by (simp add: read_secret_memory_def read_secret_def Let_def fill_scratch_bytes attempt_apply seq_apply
        lift_apply assms(3) ret_apply split: option.split)
qed

theorem read_secret_wiped_witness:
  "\<exists>result. read_secret_memory \<lparr>al_grow = (\<lambda>c n. 2 * n), al_moves = (\<lambda>a b. True)\<rparr> (\<lambda>bs. zeros (length bs))
      \<lparr>md_is_file = True, md_uid = 0, md_mode = 384, md_len = 4\<rparr> [[107, 101], [121, 10]] None (lit ''/s'') = (Inr result, [zeros 4]) \<and>
    expose_secret result = lit ''key'' \<and> traceless [zeros 4]"
proof -
  let ?A = "\<lparr>al_grow = (\<lambda>c n. 2 * n), al_moves = (\<lambda>a b. True)\<rparr>" and ?Z = "\<lambda>bs. zeros (length bs)"
  let ?meta = "\<lparr>md_is_file = True, md_uid = 0, md_mode = 384, md_len = 4\<rparr>"
  let ?fs = "\<lparr>fs_open = (\<lambda>p w. (Inl 0, w)), fs_metadata = (\<lambda>d w. (Inl 0, w)),
    fs_read_to_end = (\<lambda>d w. (Inr [107, 101, 121, 10], w))\<rparr> :: unit fs"
  have four: "zeros (Suc (Suc (Suc (Suc 0)))) = zeros 4" by (simp add: numeral_eq_Suc)
  have "traceless (snd (read_secret_memory ?A ?Z ?meta [[107, 101], [121, 10]] None (lit ''/s'')))"
    using read_secret_wiped [of ?Z "[[107, 101], [121, 10]]" ?meta ?fs 5 "()" None "()" ?A "lit ''/s''"]
    by (simp add: wipes_def)
  moreover have "read_secret_memory ?A ?Z ?meta [[107, 101], [121, 10]] None (lit ''/s'') =
      (Inr (secret_string_from_text (lit ''key'')), [zeros 4])"
    by (simp add: read_secret_memory_def fill_scratch_room drop_zeroizing_def strip_newline_def
        secret_string_from_text_def lit_def Let_def four)
  ultimately show ?thesis by simp
qed

text \<open>C37: What \<open>nt_password_hash\<close> gives back of its UTF-16 copy of the password, for every allocator and
  every first capacity: the copy itself is wiped when it is dropped, and each block given back before
  that, when the collection outgrew it and the allocator moved it, holds an unwiped prefix of the
  copy. A first block that is large enough leaves none; one that is too small and moves when it first
  grows is the first of them.\<close>

theorem utf16_copy_released:
  fixes K :: crypto and A :: allocator and password :: rstr
  defines "encoded \<equiv> concat (map u16_to_le (encode_utf16 password))"
  assumes "wipes zeroize"
  shows "case nt_password_hash_memory K A zeroize initial password of (hash, rel) \<Rightarrow>
    hash = nt_password_hash K password \<and>
    (\<exists>ns. rel = map (\<lambda>n. take n encoded) ns @ (if encoded = [] \<and> initial = 0 then [] else [zeros (length encoded)]) \<and>
       list_all (\<lambda>n. n < length encoded) ns \<and> (length encoded \<le> initial \<longrightarrow> ns = []) \<and>
       (initial < length encoded \<and> first_move A initial \<longrightarrow> (\<exists>more. ns = initial # more)))"
proof -
  obtain ns where ns: "snd (vec_collect A initial encoded) = map (\<lambda>n. take n encoded) ns" "list_all (\<lambda>n. n < length encoded) ns"
      "length encoded \<le> initial \<longrightarrow> ns = []" "initial < length encoded \<and> first_move A initial \<longrightarrow> (\<exists>more. ns = initial # more)"
    using vec_collect_released [of A initial encoded] by blast
  have "vec_capacity (fst (vec_collect A initial encoded)) = 0 \<longleftrightarrow> encoded = [] \<and> initial = 0"
    using fold_push_capacity [of "vec_with_capacity initial" A encoded "[]"] vec_collect_room [of encoded initial A]
    by (auto simp: vec_collect_def vec_with_capacity_def)
  then have "drop_zeroizing zeroize (vec_collect A initial encoded) =
      map (\<lambda>n. take n encoded) ns @ (if encoded = [] \<and> initial = 0 then [] else [zeros (length encoded)])"
    using assms(2) ns(1) vec_collect_bytes [of A initial encoded] by (auto simp: drop_zeroizing_def wipes_def split: prod.split)
  moreover have "fst (nt_password_hash_memory K A zeroize initial password) = nt_password_hash K password"
    by (simp add: nt_password_hash_memory_def nt_password_hash_def encoded_def [symmetric] vec_collect_bytes Let_def)
  ultimately show ?thesis using ns(2-4)
    by (auto simp: nt_password_hash_memory_def encoded_def [symmetric] Let_def)
qed

text \<open>With the first buffer of 8 octets that the eight characters of \<open>password\<close> give, their first half is left.\<close>

theorem utf16_copy_released_witness:
  "\<exists>more. snd (nt_password_hash_memory demo_crypto \<lparr>al_grow = (\<lambda>c n. 2 * n), al_moves = (\<lambda>a b. True)\<rparr>
      (\<lambda>bs. zeros (length bs)) 8 (lit ''password'')) = [112, 0, 97, 0, 115, 0, 115, 0] # more"
proof -
  have "concat (map u16_to_le (encode_utf16 (lit ''password''))) =
      [112, 0, 97, 0, 115, 0, 115, 0, 119, 0, 111, 0, 114, 0, 100, 0]"
    by (simp add: lit_def encode_utf16_def utf16_char_def u16_to_le_def as_u8_def)
  then show ?thesis
    using utf16_copy_released [where zeroize = "\<lambda>bs. zeros (length bs)" and K = demo_crypto and initial = 8
        and A = "\<lparr>al_grow = (\<lambda>c n. 2 * n), al_moves = (\<lambda>a b. True)\<rparr>" and password = "lit ''password''"]
    by (auto simp: wipes_def first_move_def split: prod.splits)
qed

end
