(* ===== verification/Screen.thy ===== *)
theory Screen
  imports Pam_Module
begin

text \<open>
  What the application's conversation function is handed during an attempt: the link between the
  calls of the interface \<open>Conversation\<close>, which the log of an attempt holds, and the calls of the
  function libpam gives the module (\<open>crates/pam-ffi/src/conversation.rs\<close> over \<open>ffi.rs\<close>). With
  \<open>PAM_SILENT\<close> an informational text is dropped; otherwise it is handed over octet for octet.
\<close>

section \<open>Relating the world to the log\<close>

text \<open>A computation whose change of the world and whose new events are in the relation \<open>R\<close>.\<close>

definition logs :: "('w \<Rightarrow> 'w \<Rightarrow> 'e list \<Rightarrow> bool) \<Rightarrow> ('a, 'w \<times> 'e list) io \<Rightarrow> bool" where
  "logs R m \<longleftrightarrow> (\<forall>w tr a w' tr'. m (w, tr) = Returns a (w', tr') \<longrightarrow> (\<exists>evs. tr' = tr @ evs \<and> R w w' evs))"

text \<open>
  A relation between worlds and events that composes, and that every call of the environment of an
  attempt satisfies; then the attempt satisfies it.
\<close>

locale observed =
  fixes E :: "'w env" and R :: "'w \<Rightarrow> 'w \<Rightarrow> event list \<Rightarrow> bool"
  assumes unchanged: "\<And>w. R w w []"
    and composed: "\<And>w w' w'' tr tr'. R w w' tr \<Longrightarrow> R w' w'' tr' \<Longrightarrow> R w w'' (tr @ tr')"
    and random: "\<And>w r w'. env_random E w = Returns r w' \<Longrightarrow> R w w' [EvRandom r]"
    and info: "\<And>t w x w'. cv_info (env_conv E) t w = Returns x w' \<Longrightarrow> R w w' [EvInfo t x]"
    and prompt: "\<And>t w y w'. cv_prompt_echo_off (env_conv E) t w = Returns y w' \<Longrightarrow> R w w' [EvPrompt t y]"
    and exchange: "\<And>s b accept w res w'. env_exchange E s b accept w = Returns res w' \<Longrightarrow> R w w' [EvExchange s b res]"
begin

lemma logs_ret: "logs R (ret a)" "logs R (Returns a)"
  by (auto simp: logs_def unchanged)

lemma logs_seq:
  assumes "logs R m" and "\<And>a. logs R (f a)"
  shows "logs R (seq m f)"
  unfolding logs_def
proof (intro allI impI)
  fix w tr b w'' tr''
  assume "seq m f (w, tr) = Returns b (w'', tr'')"
  then obtain a w' tr' where "m (w, tr) = Returns a (w', tr')" "f a (w', tr') = Returns b (w'', tr'')"
    by (auto simp: seq_Returns)
  with assms obtain e1 e2 where "tr' = tr @ e1" "R w w' e1" "tr'' = tr' @ e2" "R w' w'' e2"
    unfolding logs_def by blast
  with composed show "\<exists>evs. tr'' = tr @ evs \<and> R w w'' evs" by auto
qed

lemma logs_attempt: "logs R m \<Longrightarrow> (\<And>a. logs R (f a)) \<Longrightarrow> logs R (attempt m f)"
  unfolding attempt_def by (rule logs_seq) (auto intro: logs_ret split: sum.split)

lemma logs_calls:
  "logs R (logged_io EvRandom (env_random E))" "logs R (logged_io (EvInfo t) (cv_info (env_conv E) t))"
  "logs R (logged_io (EvPrompt t) (cv_prompt_echo_off (env_conv E) t))"
  "logs R (logged_io (EvExchange s b) (env_exchange E s b accept))"
  using random info prompt exchange by (auto simp: logs_def logged_io_def split: exec.splits)

lemma logs_draws:
  "logs R (fresh_request_authenticator (logged_io EvRandom (env_random E)))"
  "logs R (generate_challenges (logged_io EvRandom (env_random E)))"
  unfolding fresh_request_authenticator_def generate_challenges_def
  by (intro logs_attempt logs_seq logs_calls logs_ret)+

lemmas logs_intros = logs_ret logs_seq logs_calls logs_draws

lemma logs_mschapv2_servers: "logs R (mschapv2_servers (traced_env E) ctx cf notice svs)"
proof (induction svs arbitrary: notice)
  case (Cons sv svs)
  show ?case unfolding mschapv2_servers.simps mschapv2_response_outcome_def Let_def traced_env_simps
    by (auto intro!: Cons.IH logs_intros split: sum.split transport_error.split option.split code.split)
qed (simp add: logs_ret)

lemma logs_pap_loop: "logs R (pap_loop (traced_env E) ctx cf addr secret n response)"
proof (induction n arbitrary: response)
  case (Suc n)
  show ?case unfolding pap_loop.simps Let_def traced_env_simps prompt_response_def
    by (auto intro!: Suc.IH logs_intros split: sum.split round.split)
qed (simp add: logs_ret)

lemma logs_pap_servers: "logs R (pap_servers (traced_env E) ctx cf svs)"
proof (induction svs)
  case (Cons sv svs)
  show ?case unfolding pap_servers.simps pap_rounds_def Let_def traced_env_simps
    by (auto intro!: Cons.IH logs_pap_loop logs_intros split: sum.split transport_error.split)
qed (simp add: logs_ret)

lemma attempt_observed:
  assumes "authenticate_report (traced_env E) ctx cf (w, tr) = Returns rep (w', tr')"
  shows "\<exists>evs. tr' = tr @ evs \<and> R w w' evs"
proof -
  have "logs R (authenticate_report (traced_env E) ctx cf)"
    by (simp add: authenticate_report_def mschapv2_flow_def pap_flow_def logs_mschapv2_servers logs_pap_servers logs_ret
        split: protocol.split)
  with assms show ?thesis unfolding logs_def by blast
qed

end

section \<open>The messages handed over\<close>

type_synonym messages = "(int \<times> bytes) list"

text \<open>
  An application that remembers what its conversation function is handed, as a part \<open>seen\<close> of the
  outside world that no other call of an attempt touches.
\<close>

definition remembers :: "'w system \<Rightarrow> ('w \<Rightarrow> messages list) \<Rightarrow> bool" where
  "remembers S seen \<longleftrightarrow>
     (\<forall>ms w. seen (snd (pam_converse (sys_pam S) ms w)) = seen w @ [ms]) \<and>
     (\<forall>w. seen (snd (pam_conv_item (sys_pam S) w)) = seen w) \<and>
     (\<forall>w. seen (snd (sys_getrandom S w)) = seen w) \<and>
     (\<forall>a w. seen (snd (os_bind (sys_os S) a w)) = seen w) \<and>
     (\<forall>sock a w. seen (snd (os_connect (sys_os S) sock a w)) = seen w) \<and>
     (\<forall>sock b w. seen (snd (os_send (sys_os S) sock b w)) = seen w) \<and>
     (\<forall>sock d w. seen (snd (os_set_read_timeout (sys_os S) sock d w)) = seen w) \<and>
     (\<forall>sock n w. seen (snd (os_recv (sys_os S) sock n w)) = seen w) \<and>
     (\<forall>w. seen (snd (os_now (sys_os S) w)) = seen w)"

text \<open>
  The messages of a log: one for each notice the conversation took, in order, and one or
  none for a call of the conversation that failed or was a prompt; with \<open>PAM_SILENT\<close> no notice.
\<close>

fun handed :: "bool \<Rightarrow> event list \<Rightarrow> messages list \<Rightarrow> bool" where
  "handed silent [] ms = (ms = [])"
| "handed silent (EvInfo t x # tr) ms =
     ((silent \<or> x \<noteq> Inr ()) \<and> handed silent tr ms \<or>
      \<not> silent \<and> ms \<noteq> [] \<and> hd ms = [(PAM_TEXT_INFO, as_bytes (clamp t))] \<and> handed silent tr (tl ms))"
| "handed silent (EvPrompt t x # tr) ms =
     (handed silent tr ms \<or>
      ms \<noteq> [] \<and> hd ms = [(PAM_PROMPT_ECHO_OFF, as_bytes (clamp t))] \<and> handed silent tr (tl ms))"
| "handed silent (_ # tr) ms = handed silent tr ms"

lemma handed_append: "handed silent tr ms \<Longrightarrow> handed silent tr' ms' \<Longrightarrow> handed silent (tr @ tr') (ms @ ms')"
  by (induction silent tr ms rule: handed.induct) auto

definition on_screen :: "'w system \<Rightarrow> ('w \<Rightarrow> messages list) \<Rightarrow> bool \<Rightarrow> 'w \<Rightarrow> 'w \<Rightarrow> event list \<Rightarrow> bool" where
  "on_screen S seen silent w w' tr \<longleftrightarrow>
     (remembers S seen \<longrightarrow> (\<exists>ms. seen w' = seen w @ ms \<and> handed silent tr ms))"

lemma on_screen_quiet: "(remembers S seen \<Longrightarrow> seen w' = seen w) \<Longrightarrow> handed silent tr [] \<Longrightarrow> on_screen S seen silent w w' tr"
  by (simp add: on_screen_def)

text \<open>The calls that leave the screen alone.\<close>

definition keeps :: "('w \<Rightarrow> 'v) \<Rightarrow> ('a, 'w) io \<Rightarrow> bool" where
  "keeps f m \<longleftrightarrow> (\<forall>w a w'. m w = Returns a w' \<longrightarrow> f w' = f w)"

lemma keeps_ret: "keeps f (ret a)" "keeps f (Returns a)"
  by (simp_all add: keeps_def)

lemma keeps_panic: "keeps f panic" "keeps f (\<lambda>w. Diverges)"
  by (simp_all add: keeps_def)

lemma keeps_seq: "keeps f m \<Longrightarrow> (\<And>a. keeps f (g a)) \<Longrightarrow> keeps f (seq m g)"
  unfolding keeps_def seq_Returns by metis

lemma keeps_attempt: "keeps f m \<Longrightarrow> (\<And>a. keeps f (g a)) \<Longrightarrow> keeps f (attempt m g)"
  unfolding attempt_def by (rule keeps_seq) (auto intro: keeps_ret split: sum.split)

lemma keeps_lift: "(\<And>w. f (snd (op w)) = f w) \<Longrightarrow> keeps f (lift op)"
  by (auto simp: keeps_def lift_def split: prod.splits) (metis snd_conv)

lemmas keeps_intros = keeps_ret keeps_panic keeps_seq keeps_attempt keeps_lift

lemma remembers_os:
  assumes "remembers S seen"
  shows "keeps seen (lift (os_bind (sys_os S) a))" "keeps seen (lift (os_connect (sys_os S) sock a))"
    "keeps seen (lift (os_send (sys_os S) sock b))" "keeps seen (lift (os_set_read_timeout (sys_os S) sock d))"
    "keeps seen (lift (os_recv (sys_os S) sock n))" "keeps seen (lift (os_now (sys_os S)))"
    "keeps seen (lift (sys_getrandom S))" "keeps seen (lift (pam_conv_item (sys_pam S)))"
  using assms by (auto intro!: keeps_lift simp: remembers_def)

lemma send_request_keeps: "remembers S seen \<Longrightarrow> keeps seen (send_request (sys_os S) fuel sock b)"
  by (induction fuel) (auto intro!: keeps_intros remembers_os split: sum.split)

lemma exchange_loop_keeps:
  assumes "remembers S seen"
  shows "keeps seen (exchange_loop (sys_os S) sf t sock b accept start interval fuel left nxt)"
proof (induction fuel arbitrary: left nxt)
  case (Suc fuel)
  show ?case unfolding exchange_loop.simps elapsed_since_def Let_def
    by (auto intro!: Suc.IH keeps_ret keeps_seq keeps_attempt remembers_os [OF assms] send_request_keeps [OF assms]
        split: sum.split io_class.split)
qed (simp add: keeps_panic)

lemma udp_exchange_keeps: "remembers S seen \<Longrightarrow> keeps seen (udp_exchange (sys_os S) fuel t s b accept)"
  unfolding udp_exchange_def connect_def Let_def
  by (auto intro!: keeps_ret keeps_panic keeps_seq keeps_attempt remembers_os send_request_keeps exchange_loop_keeps
      split: sum.split option.split)

text \<open>What a call of libpam's conversation hands over: its one message, at most once, and once if it succeeds.\<close>

lemma converse_seen:
  assumes "remembers S seen" and "converse (sys_pam S) [(style, clamp text)] w = Returns r w'"
  shows "seen w' = seen w @ [[(style, as_bytes (clamp text))]] \<or> seen w' = seen w \<and> (\<exists>c. r = Inl c)"
proof -
  have keep: "seen w1 = seen w" if "pam_conv_item (sys_pam S) w = (x, w1)" for x w1
    using assms(1) that by (metis remembers_def snd_conv)
  have call: "seen w2 = seen w1 @ [ms]" if "pam_converse (sys_pam S) ms w1 = (y, w2)" for ms y w1 w2
    using assms(1) that by (metis remembers_def snd_conv)
  show ?thesis using assms(2) keep call
    by (auto simp: converse_def seq_apply lift_apply split: if_splits prod.splits option.splits)
qed

interpretation screen: observed "module_env S fuel silent cf" "on_screen S seen silent"
proof
  fix w r w'
  assume "env_random (module_env S fuel silent cf) w = Returns r w'"
  moreover have "remembers S seen \<Longrightarrow> keeps seen (getrandom_16 (sys_getrandom S))"
    unfolding getrandom_16_def by (intro keeps_seq keeps_ret remembers_os)
  ultimately show "on_screen S seen silent w w' [EvRandom r]"
    by (intro on_screen_quiet) (simp_all add: keeps_def)
next
  fix s b accept w res w'
  assume "env_exchange (module_env S fuel silent cf) s b accept w = Returns res w'"
  then have "seen w' = seen w" if "remembers S seen"
    using udp_exchange_keeps [OF that] unfolding module_env_simps keeps_def by blast
  then show "on_screen S seen silent w w' [EvExchange s b res]" by (intro on_screen_quiet) simp_all
next
  fix t w x w'
  assume run: "cv_info (env_conv (module_env S fuel silent cf)) t w = Returns x w'"
  show "on_screen S seen silent w w' [EvInfo t x]"
  proof (cases silent)
    case True
    then show ?thesis using run by (intro on_screen_quiet) (simp_all add: pam_conversation_def)
  next
    case False
    then obtain r where "converse (sys_pam S) [(PAM_TEXT_INFO, clamp t)] w = Returns r w'"
        "x = (case r of Inl _ \<Rightarrow> Inl ConvFailed | Inr _ \<Rightarrow> Inr ())"
      using run by (auto simp: pam_conversation_def seq_Returns)
    with converse_seen [of S seen PAM_TEXT_INFO t w r w'] False show ?thesis by (auto simp: on_screen_def)
  qed
next
  fix t w y w'
  assume "cv_prompt_echo_off (env_conv (module_env S fuel silent cf)) t w = Returns y w'"
  then obtain r where "converse (sys_pam S) [(PAM_PROMPT_ECHO_OFF, clamp t)] w = Returns r w'"
    by (auto simp: pam_conversation_def seq_Returns)
  with converse_seen [of S seen PAM_PROMPT_ECHO_OFF t w r w'] show "on_screen S seen silent w w' [EvPrompt t y]"
    by (auto simp: on_screen_def)
qed (auto simp: on_screen_def intro: handed_append)

section \<open>The notices\<close>

lemma notices_whole: "clamp PUSH_NOTICE = PUSH_NOTICE" "clamp PASSWORD_EXPIRED_NOTICE = PASSWORD_EXPIRED_NOTICE"
  by (simp_all add: clamp_def PUSH_NOTICE_def PASSWORD_EXPIRED_NOTICE_def lit_def as_bytes_def utf8_char_def)

text \<open>Without prompts the messages are notices of the log, and with \<open>PAM_SILENT\<close> there are none.\<close>

lemma handed_notices:
  "handed silent tr ms \<Longrightarrow> prompted tr = [] \<Longrightarrow>
     subseq ms (if silent then [] else map (\<lambda>t. [(PAM_TEXT_INFO, as_bytes (clamp t))]) (informed tr))"
proof (induction silent tr ms rule: handed.induct)
  case (2 silent t x tr ms)
  then show ?case by (cases ms) (auto dest: subseq_Cons')
qed (auto split: if_splits)

lemma handed_told:
  "handed False tr ms \<Longrightarrow> told_first tr \<Longrightarrow> exchanged tr \<noteq> [] \<Longrightarrow>
     [(PAM_TEXT_INFO, as_bytes (clamp PUSH_NOTICE))] \<in> set ms"
proof (induction tr arbitrary: ms)
  case (Cons ev tr)
  note IH = Cons.IH [of ms] Cons.IH [of "tl ms"]
  show ?case
  proof (cases ev)
    case (EvInfo t x)
    then show ?thesis using Cons.prems IH by (cases x; cases ms) auto
  next
    case (EvPrompt t x)
    then show ?thesis using Cons.prems IH by (cases ms) auto
  qed (use Cons.prems IH in auto)
qed simp

lemma subseq_filter_length: "subseq xs ys \<Longrightarrow> length (filter P xs) \<le> length (filter P ys)"
  by (metis list_emb_length subseq_filter)

text \<open>The messages of an attempt that shows the two notices only, the first at most once.\<close>

definition notice_message :: "rstr \<Rightarrow> messages" where
  "notice_message t = [(PAM_TEXT_INFO, as_bytes t)]"

lemma notice_messages:
  assumes "handed silent tr ms" and "prompted tr = []" and "told_first tr"
    and "length (filter ((=) PUSH_NOTICE) (informed tr)) \<le> 1" and "set (informed tr) \<subseteq> {PUSH_NOTICE, PASSWORD_EXPIRED_NOTICE}"
  shows "(silent \<longrightarrow> ms = []) \<and> (\<not> silent \<and> exchanged tr \<noteq> [] \<longrightarrow> notice_message PUSH_NOTICE \<in> set ms) \<and>
    length (filter ((=) (notice_message PUSH_NOTICE)) ms) \<le> 1 \<and>
    set ms \<subseteq> {notice_message PUSH_NOTICE, notice_message PASSWORD_EXPIRED_NOTICE}"
proof (cases silent)
  case True
  then show ?thesis using handed_notices [OF assms(1,2)] by (auto dest: list_emb_Nil2)
next
  case False
  let ?m = "\<lambda>t. [(PAM_TEXT_INFO, as_bytes (clamp t))]"
  have sub: "subseq ms (map ?m (informed tr))" using handed_notices [OF assms(1,2)] False by simp
  have m: "?m t = notice_message t" if "t \<in> set (informed tr)" for t
    using that assms(5) notices_whole by (auto simp: notice_message_def)
  have distinct: "notice_message PUSH_NOTICE \<noteq> notice_message PASSWORD_EXPIRED_NOTICE"
    by (simp add: notice_message_def PUSH_NOTICE_def PASSWORD_EXPIRED_NOTICE_def lit_def as_bytes_def utf8_char_def)
  have "filter ((=) (notice_message PUSH_NOTICE) \<circ> ?m) (informed tr) = filter ((=) PUSH_NOTICE) (informed tr)"
    using m assms(5) distinct by (intro filter_cong) auto
  then have "length (filter ((=) (notice_message PUSH_NOTICE)) (map ?m (informed tr))) \<le> 1"
    using assms(4) by (simp add: filter_map)
  moreover have "set ms \<subseteq> notice_message ` set (informed tr)"
  proof
    fix x
    assume "x \<in> set ms"
    with sub obtain y where "y \<in> set (map ?m (informed tr))" "x = y" by (rule list_emb_set)
    then show "x \<in> notice_message ` set (informed tr)" using m by auto
  qed
  moreover have "exchanged tr \<noteq> [] \<Longrightarrow> notice_message PUSH_NOTICE \<in> set ms"
    using handed_told [of tr ms] assms(1,3) False notices_whole by (simp add: notice_message_def)
  ultimately show ?thesis
    using le_trans [OF subseq_filter_length [OF sub, of "(=) (notice_message PUSH_NOTICE)"], of 1] assms(5) False by auto
qed

end
