(* ===== verification/Wall_Clock.thy ===== *)
theory Wall_Clock
  imports Auth_Flow Radius_Udp
begin

text \<open>
  How long an exchange and an attempt take, as the timing notes of \<open>crates/radius/src/udp.rs\<close> promise:
  a server that answers explicitly is left within the probe window, and at most one server is waited
  for through the whole approval window. Times are nanoseconds of a clock on the outside world.
\<close>

section \<open>A calculus of durations\<close>

text \<open>\<open>within clock m k\<close>: \<open>m\<close> takes at most \<open>k\<close>. \<open>spent clock c m T\<close>: after \<open>c\<close> has been spent, \<open>m\<close> ends within \<open>T\<close>.\<close>

definition within :: "('w \<Rightarrow> nat) \<Rightarrow> ('a, 'w) io \<Rightarrow> nat \<Rightarrow> bool" where
  "within clock m k \<longleftrightarrow> (\<forall>w a w'. m w = Returns a w' \<longrightarrow> clock w' \<le> clock w + k)"

definition spent :: "('w \<Rightarrow> nat) \<Rightarrow> nat \<Rightarrow> ('a, 'w) io \<Rightarrow> ('a \<Rightarrow> nat) \<Rightarrow> bool" where
  "spent clock c m T \<longleftrightarrow> (\<forall>w a w'. m w = Returns a w' \<longrightarrow> clock w' + c \<le> clock w + T a)"

named_theorems timing

lemma withinD: "within clock m k \<Longrightarrow> m w = Returns a w' \<Longrightarrow> clock w' \<le> clock w + k"
  by (auto simp: within_def)

lemma spentD: "spent clock c m T \<Longrightarrow> m w = Returns a w' \<Longrightarrow> clock w' + c \<le> clock w + T a"
  by (auto simp: spent_def)

lemma within_spent: "within clock m k \<longleftrightarrow> spent clock 0 m (\<lambda>_. k)"
  by (simp add: within_def spent_def)

lemma spent_ret [timing]: "c \<le> T a \<Longrightarrow> spent clock c (ret a) T" "c \<le> T a \<Longrightarrow> spent clock c (Returns a) T"
  by (simp_all add: spent_def)

lemma spent_mono: "spent clock c m T \<Longrightarrow> (\<And>a. c' + T a \<le> T' a + c) \<Longrightarrow> spent clock c' m T'"
  unfolding spent_def
proof (intro allI impI)
  fix w a w'
  assume "\<forall>w a w'. m w = Returns a w' \<longrightarrow> clock w' + c \<le> clock w + T a" "\<And>a. c' + T a \<le> T' a + c" "m w = Returns a w'"
  then have "clock w' + c \<le> clock w + T a" "c' + T a \<le> T' a + c" by blast+
  then show "clock w' + c' \<le> clock w + T' a" by linarith
qed

lemma spent_le: "spent clock c m T \<Longrightarrow> c' \<le> c \<Longrightarrow> spent clock c' m T"
  by (erule spent_mono) linarith

lemma spent_seq_by:
  assumes "\<And>w a w'. m w = Returns a w' \<Longrightarrow> clock w' \<le> clock w + K a" and "\<And>a. spent clock (c + K a) (f a) T"
  shows "spent clock c (seq m f) T"
  unfolding spent_def
proof (intro allI impI)
  fix w b w''
  assume "seq m f w = Returns b w''"
  then obtain a w' where "m w = Returns a w'" "f a w' = Returns b w''" by (auto simp: seq_apply split: exec.splits)
  from assms(1) [OF this(1)] spentD [OF assms(2) this(2)] show "clock w'' + c \<le> clock w + T b" by linarith
qed

lemma spent_seq [timing]:
  "within clock m k \<Longrightarrow> (\<And>a. spent clock (c + k) (f a) T) \<Longrightarrow> spent clock c (seq m f) T"
  by (rule spent_seq_by [where K = "\<lambda>_. k"]) (auto dest: withinD)

lemma within_ret [timing]: "within clock (ret a) k" "within clock (Returns a) k"
  by (simp_all add: within_def)

lemma within_seq:
  assumes "within clock m k" "\<And>a. within clock (f a) l" "k + l \<le> n"
  shows "within clock (seq m f) n"
  unfolding within_spent
proof (rule spent_seq [OF assms(1)])
  fix a
  show "spent clock (0 + k) (f a) (\<lambda>_. n)"
    using assms(2) [of a] assms(3) unfolding within_spent by (auto intro: spent_mono)
qed

section \<open>An exchange\<close>

text \<open>
  An operating system with little latency: every call takes at most \<open>eps\<close>, a receive at most its
  timeout more, and a send at most \<open>eps\<close> with its interrupted attempts.
\<close>

definition punctual :: "'w os \<Rightarrow> ('w \<Rightarrow> nat) \<Rightarrow> nat \<Rightarrow> bool" where
  "punctual os clock eps \<longleftrightarrow>
     (\<forall>w. fst (os_now os w) = Nanos (clock w) \<and> clock (snd (os_now os w)) \<le> clock w + eps) \<and>
     (\<forall>a w. clock (snd (os_bind os a w)) \<le> clock w + eps) \<and>
     (\<forall>sock a w. clock (snd (os_connect os sock a w)) \<le> clock w + eps) \<and>
     (\<forall>fuel sock request. within clock (send_request os fuel sock request) eps) \<and>
     (\<forall>sock d w. clock (snd (os_set_read_timeout os sock d w)) \<le> clock w + eps) \<and>
     (\<forall>sock d n w. clock (snd (os_recv os sock n (snd (os_set_read_timeout os sock d w)))) \<le> clock w + nanos d + eps)"

text \<open>No retransmission fails explicitly, since there is none or sends never do.\<close>

definition quiet_resends :: "'w os \<Rightarrow> u32 \<Rightarrow> bool" where
  "quiet_resends os left \<longleftrightarrow>
     left = 0 \<or> (\<forall>sock request w k. fst (os_send os sock request w) = Inl k \<longrightarrow> classify k \<noteq> ClassUnreachable)"

abbreviation READ_FLOOR :: nat where "READ_FLOOR \<equiv> nanos MIN_READ_TIMEOUT"

lemma read_timeout_le:
  "nanos (read_timeout t left nxt (Nanos e)) \<le> max (nanos (ut_mfa_timeout t) - e) READ_FLOOR"
  unfolding read_timeout_def Let_def
  by (cases "left > 0") (auto simp: saturating_sub_def max_def min_def less_eq_duration_def not_le)

lemma send_not_unreachable:
  assumes "\<And>w k. fst (os_send os sock request w) = Inl k \<Longrightarrow> classify k \<noteq> ClassUnreachable"
  shows "send_request os fuel sock request w = Returns (Inl e) w' \<Longrightarrow> e \<noteq> Unreachable"
proof (induction fuel arbitrary: w)
  case (Suc fuel)
  then show ?case using assms [of w]
    by (auto simp: seq_lift send_error_def split: sum.splits if_splits io_class.splits)
qed simp

lemma punctualD:
  assumes "punctual os clock eps"
  shows "fst (os_now os w) = Nanos (clock w)" "clock (snd (os_now os w)) \<le> clock w + eps"
    "clock (snd (os_bind os a w)) \<le> clock w + eps" "clock (snd (os_connect os sock a w)) \<le> clock w + eps"
    "within clock (send_request os fuel sock request) eps"
    "clock (snd (os_set_read_timeout os sock d w)) \<le> clock w + eps"
    "clock (snd (os_recv os sock n (snd (os_set_read_timeout os sock d w)))) \<le> clock w + nanos d + eps"
  using assms unfolding punctual_def by blast+

lemma elapsed_punctual:
  assumes "punctual os clock eps"
  shows "elapsed_since os (Nanos s) w = Returns (Nanos (clock w - s)) (snd (os_now os w))"
  using punctualD(1) [OF assms, of w] by (simp add: elapsed_since_def seq_lift saturating_sub_def)

text \<open>
  What is left of a round after the receive. The loop starts again within four calls of its deadline,
  or returns within three.
\<close>

lemma exchange_loop_punctual:
  assumes p: "punctual os clock eps" and s: "s \<le> D" and D: "D = s + nanos (ut_mfa_timeout t) + READ_FLOOR"
  shows "clock w \<le> D + 4 * eps \<Longrightarrow>
    exchange_loop os sf t sock request accept (Nanos s) interval fuel left nxt w = Returns r w' \<Longrightarrow>
    clock w' \<le> D + 5 * eps \<and>
    (r = Inl Unreachable \<and> quiet_resends os left \<longrightarrow> clock w' \<le> s + nanos (ut_probe_timeout t) + eps)"
proof (induction fuel arbitrary: left nxt w)
  case (Suc fuel)
  let ?e = "clock w - s"
  define w1 where "w1 = snd (os_now os w)"
  have w1: "clock w1 \<le> clock w + eps" unfolding w1_def by (rule punctualD(2) [OF p])
  show ?case
  proof (cases "nanos (ut_mfa_timeout t) \<le> ?e")
    case True
    then show ?thesis using Suc.prems w1 by (auto simp: elapsed_punctual [OF p] seq_apply less_eq_duration_def w1_def)
  next
    case False
    define d where "d = read_timeout t left nxt (Nanos ?e)"
    define w2 where "w2 = snd (os_set_read_timeout os sock d w1)"
    define w3 where "w3 = snd (os_recv os sock MAX_PACKET_LEN w2)"
    define w4 where "w4 = snd (os_now os w3)"
    have "clock w3 \<le> clock w1 + nanos d + eps"
      unfolding w3_def w2_def by (rule punctualD(7) [OF p])
    moreover have "nanos d \<le> max (nanos (ut_mfa_timeout t) - ?e) READ_FLOOR" unfolding d_def by (rule read_timeout_le)
    ultimately have c3: "clock w3 \<le> D + 2 * eps" using w1 False D by linarith
    have c2: "clock w2 \<le> D + 2 * eps"
      using punctualD(6) [OF p, of sock d w1] w1 False D by (simp add: w2_def)
    have c4: "clock w4 \<le> clock w3 + eps" unfolding w4_def by (rule punctualD(2) [OF p])
    note e3 = elapsed_punctual [OF p, of s w3, folded w4_def]
    have quiet_pred: "quiet_resends os (left - 1)" if "quiet_resends os left" "left > 0"
      using that by (auto simp: quiet_resends_def)
    have again: "clock w' \<le> D + 5 * eps \<and>
        (r = Inl Unreachable \<and> quiet_resends os left \<longrightarrow> clock w' \<le> s + nanos (ut_probe_timeout t) + eps)"
      if "clock v \<le> D + 4 * eps" "exchange_loop os sf t sock request accept (Nanos s) interval fuel left nxt v = Returns r w'" for v
      using Suc.IH [OF that] .
    have resend: "clock w' \<le> D + 5 * eps \<and>
        (r = Inl Unreachable \<and> quiet_resends os left \<longrightarrow> clock w' \<le> s + nanos (ut_probe_timeout t) + eps)"
      if run: "attempt (send_request os sf sock request) (\<lambda>_.
          exchange_loop os sf t sock request accept (Nanos s) interval fuel (left - 1) n') w4 = Returns r w'"
        and left: "left > 0" for n'
    proof (cases "send_request os sf sock request w4")
      case (Returns a w5)
      have c5: "clock w5 \<le> clock w4 + eps" by (rule withinD [OF punctualD(5) [OF p] Returns])
      show ?thesis
      proof (cases a)
        case (Inl e)
        then have r: "r = Inl e" "w' = w5" using run Returns by (simp_all add: attempt_apply)
        have "e \<noteq> Unreachable" if "quiet_resends os left"
        proof (rule send_not_unreachable [OF _ Returns [unfolded Inl]])
          show "\<And>w k. fst (os_send os sock request w) = Inl k \<Longrightarrow> classify k \<noteq> ClassUnreachable"
            using that left by (auto simp: quiet_resends_def)
        qed
        then show ?thesis using r c3 c4 c5 by auto
      next
        case (Inr u)
        then have "exchange_loop os sf t sock request accept (Nanos s) interval fuel (left - 1) n' w5 = Returns r w'"
          using run Returns by (simp add: attempt_apply)
        then show ?thesis using Suc.IH [of w5 "left - 1" n'] c3 c4 c5 quiet_pred left by auto
      qed
    qed (use run in \<open>simp_all add: attempt_apply\<close>)
    obtain r2 where w2: "os_set_read_timeout os sock d w1 = (r2, w2)" unfolding w2_def by (metis prod.collapse)
    obtain r3 where w3: "os_recv os sock MAX_PACKET_LEN w2 = (r3, w3)" unfolding w3_def by (metis prod.collapse)
    have le: "\<not> ut_mfa_timeout t \<le> Nanos ?e" using False by (simp add: less_eq_duration_def)
    note step = exchange_loop_step [OF elapsed_punctual [OF p] le w2 [unfolded d_def w1_def] w3 e3]
    have "clock w' \<le> s + nanos (ut_probe_timeout t) + eps"
      if "Nanos (clock w3 - s) < ut_probe_timeout t" "w' = w4"
      using that c4 by (simp add: less_duration_def)
    moreover have "clock w3 \<le> D + 4 * eps" "clock w4 \<le> D + 4 * eps" "clock w2 \<le> D + 5 * eps"
        "clock w3 \<le> D + 5 * eps" "clock w4 \<le> D + 5 * eps"
      using c2 c3 c4 by simp_all
    ultimately show ?thesis
      using Suc.prems(2) [unfolded step] again [of w3] again [of w4] resend
      by (auto split: sum.splits io_class.splits if_splits)
  qed
qed simp

text \<open>What one exchange may take: a server that is unreachable, and any other.\<close>

definition probe_cost :: "udp_transport \<Rightarrow> nat \<Rightarrow> nat" where
  "probe_cost t eps = nanos (ut_probe_timeout t) + 4 * eps"

definition wait_cost :: "udp_transport \<Rightarrow> nat \<Rightarrow> nat" where
  "wait_cost t eps = nanos (ut_mfa_timeout t) + READ_FLOOR + 8 * eps"

definition exchange_cost :: "'w os \<Rightarrow> udp_transport \<Rightarrow> nat \<Rightarrow> transport_error + bytes \<Rightarrow> nat" where
  "exchange_cost os t eps r =
     (if r = Inl Unreachable \<and> quiet_resends os (ut_retries t) then min (probe_cost t eps) (wait_cost t eps)
      else wait_cost t eps)"

lemma udp_exchange_punctual:
  assumes p: "punctual os clock eps" and run: "udp_exchange os fuel t server request accept w = Returns r w'"
  shows "clock w' \<le> clock w + exchange_cost os t eps r"
proof -
  have early: "clock w' \<le> clock w + exchange_cost os t eps r" if "clock w' \<le> clock w + 3 * eps"
    using that by (auto simp: exchange_cost_def probe_cost_def wait_cost_def min_def)
  obtain r1 w1 where bind: "os_bind os (SocketV4 (case ut_source_ip t of Some ip \<Rightarrow> ip | None \<Rightarrow> IPV4_UNSPECIFIED) 0) w = (r1, w1)"
    by force
  have c1: "clock w1 \<le> clock w + eps" using punctualD(3) [OF p] bind by (metis snd_conv)
  note connect = connect_def Let_def seq_lift bind
  show ?thesis
  proof (cases r1)
    case (Inl k)
    then have "w' = w1" using run by (simp add: udp_exchange_def attempt_apply connect)
    then show ?thesis using c1 early by simp
  next
    case (Inr sock)
    obtain r2 w2 where conn: "os_connect os sock server w1 = (r2, w2)" by force
    have c2: "clock w2 \<le> clock w1 + eps" using punctualD(4) [OF p] conn by (metis snd_conv)
    show ?thesis
    proof (cases r2)
      case (Inl k)
      then have "w' = w2" using run Inr conn by (simp add: udp_exchange_def attempt_apply connect)
      then show ?thesis using c1 c2 early by simp
    next
      case (Inr u)
      have "connect os t server w = Returns (Inr sock) w2" using \<open>r1 = Inr sock\<close> conn Inr by (simp add: connect)
      note run = run [unfolded udp_exchange_def attempt_apply this exec.case sum.case]
      show ?thesis
      proof (cases "send_request os fuel sock request w2")
        case (Returns r3 w3)
        have c3: "clock w3 \<le> clock w2 + eps" by (rule withinD [OF punctualD(5) [OF p] Returns])
        show ?thesis
        proof (cases r3)
          case (Inl e)
          then have "w' = w3" using run Returns by simp
          then show ?thesis using c1 c2 c3 early by simp
        next
          case (Inr u)
          define w4 where "w4 = snd (os_now os w3)"
          have c4: "clock w4 \<le> clock w3 + eps" unfolding w4_def by (rule punctualD(2) [OF p])
          obtain interval where "exchange_loop os fuel t sock request accept (Nanos (clock w3)) interval fuel
              (ut_retries t) interval w4 = Returns r w'"
            using run Returns Inr by (auto simp: seq_lift punctualD(1) [OF p] w4_def split: option.splits)
          from exchange_loop_punctual [OF p _ refl _ this] c4
          have "clock w' \<le> clock w3 + nanos (ut_mfa_timeout t) + READ_FLOOR + 5 * eps"
            "r = Inl Unreachable \<and> quiet_resends os (ut_retries t) \<Longrightarrow> clock w' \<le> clock w3 + nanos (ut_probe_timeout t) + eps"
            by auto
          then show ?thesis using c1 c2 c3 by (auto simp: exchange_cost_def probe_cost_def wait_cost_def)
        qed
      qed (use run in \<open>simp_all\<close>)
    qed
  qed
qed

section \<open>An attempt\<close>

text \<open>
  An environment in which a draw takes at most \<open>rnd\<close>, a notice \<open>info\<close>, a prompt \<open>ask\<close> (the user's
  typing included), and an exchange \<open>probe\<close> when the server is unreachable and \<open>wait\<close> otherwise.
\<close>

record costs =
  co_random :: nat
  co_info :: nat
  co_ask :: nat
  co_probe :: nat
  co_wait :: nat

definition env_takes :: "('w \<Rightarrow> nat) \<Rightarrow> 'w env \<Rightarrow> costs \<Rightarrow> bool" where
  "env_takes clock E c \<longleftrightarrow>
     within clock (env_random E) (co_random c) \<and> (\<forall>t. within clock (cv_info (env_conv E) t) (co_info c)) \<and>
     (\<forall>t. within clock (cv_prompt_echo_off (env_conv E) t) (co_ask c)) \<and>
     (\<forall>s b a w r w'. env_exchange E s b a w = Returns r w' \<longrightarrow>
        clock w' \<le> clock w + (if r = Inl Unreachable then co_probe c else co_wait c)) \<and>
     co_probe c \<le> co_wait c"

lemma env_takesD:
  assumes "env_takes clock E c"
  shows "within clock (fresh_request_authenticator (env_random E)) (co_random c)"
    "within clock (generate_challenges (env_random E)) (2 * co_random c)"
    "within clock (cv_info (env_conv E) t) (co_info c)" "within clock (prompt_response (env_conv E) t) (co_ask c)"
    "env_exchange E s b a w = Returns r w' \<Longrightarrow> clock w' \<le> clock w + (if r = Inl Unreachable then co_probe c else co_wait c)"
    "within clock (env_exchange E s b a) (co_wait c)"
    "co_probe c \<le> co_wait c"
proof -
  have r: "within clock (env_random E) (co_random c)" using assms by (simp add: env_takes_def)
  have f: "within clock (seq (env_random E) (\<lambda>r. ret (ok_or e r))) (co_random c)" for e :: 'e
    by (rule within_seq [OF r within_ret(1) [of _ _ 0]]) simp
  then show "within clock (fresh_request_authenticator (env_random E)) (co_random c)"
    by (simp add: fresh_request_authenticator_def)
  show "within clock (generate_challenges (env_random E)) (2 * co_random c)"
    unfolding within_spent generate_challenges_def attempt_def
    by (rule spent_seq [OF f]) (auto intro!: timing f split: sum.split)
  show ex: "clock w' \<le> clock w + (if r = Inl Unreachable then co_probe c else co_wait c)"
    if "env_exchange E s b a w = Returns r w'" for s b a w r w' using that assms by (simp add: env_takes_def)
  show le: "co_probe c \<le> co_wait c" using assms by (simp add: env_takes_def)
  show "within clock (env_exchange E s b a) (co_wait c)"
    unfolding within_def
  proof (intro allI impI)
    fix w r w'
    assume "env_exchange E s b a w = Returns r w'"
    from ex [OF this] le show "clock w' \<le> clock w + co_wait c" by (auto split: if_splits)
  qed
qed (use assms in \<open>auto simp: env_takes_def prompt_response_def\<close>)

text \<open>The MSCHAPv2 servers: the draws, the notice and the exchange of each, and the last notice.\<close>

definition mschap_cost :: "costs \<Rightarrow> nat \<Rightarrow> nat" where
  "mschap_cost c n = n * (3 * co_random c + co_info c) + (n - 1) * co_probe c + co_wait c + co_info c"

lemma mschap_outcome_takes:
  assumes "env_takes clock E c"
  shows "within clock (mschapv2_response_outcome E d request) (co_info c)"
proof -
  have "within clock (case find_ms_chap_error r of
      Some vdata \<Rightarrow>
        if parse_ms_chap_error vdata = PasswordExpired
        then seq (cv_info (env_conv E) PASSWORD_EXPIRED_NOTICE) (\<lambda>_. ret ()) else ret ()
    | None \<Rightarrow> ret ()) (co_info c)" for r
    by (auto intro!: timing within_seq [OF env_takesD(3) [OF assms] within_ret(1) [of _ _ 0]] split: option.split)
  then have reject: "spent clock 0 (seq (case find_ms_chap_error r of
      Some vdata \<Rightarrow>
        if parse_ms_chap_error vdata = PasswordExpired
        then seq (cv_info (env_conv E) PASSWORD_EXPIRED_NOTICE) (\<lambda>_. ret ()) else ret ()
    | None \<Rightarrow> ret ()) (\<lambda>_. ret (report_of PamAuthErr REASON_REJECT))) (\<lambda>_. co_info c)" for r
    by (rule spent_seq) (simp add: spent_ret)
  have other: "spent clock 0 (ret rep) (\<lambda>_. co_info c)" for rep :: auth_report
    by (rule spent_ret) simp
  note unfold = mschapv2_response_outcome_def within_spent
  show ?thesis
  proof (cases "parse_response d")
    case (Inl e)
    then show ?thesis by (simp only: unfold sum.case other)
  next
    case (Inr r)
    show ?thesis
    proof (cases "known_code r")
      case None
      then show ?thesis by (simp only: unfold Inr sum.case option.case other)
    next
      case (Some k)
      then show ?thesis
        by (cases k) (simp_all only: unfold Inr sum.case option.case code.case reject other split: if_split, blast?)
    qed
  qed
qed

lemma mschap_takes:
  assumes E: "env_takes clock E c"
  shows "within clock (mschapv2_servers E ctx cf notice svs) (mschap_cost c (length svs))"
proof (induction svs arbitrary: notice)
  case Nil
  then show ?case by (simp add: within_ret)
next
  case (Cons sv svs)
  let ?n = "length svs"
  let ?T = "mschap_cost c (Suc ?n)" and ?own = "3 * co_random c + co_info c"
  have own: "?own + co_wait c + co_info c \<le> ?T" by (simp add: mschap_cost_def algebra_simps)
  have notice: "within clock (if notice then ret (Inr ()) else cv_info (env_conv E) PUSH_NOTICE) (co_info c)"
    by (simp add: within_ret env_takesD(3) [OF E])
  have done_: "spent clock k (ret rep) (\<lambda>_. ?T)" if "k \<le> ?own + co_wait c" for k and rep :: auth_report
    by (rule spent_ret) (use own that in linarith)
  have next_server: "spent clock (?own + co_probe c) (mschapv2_servers E ctx cf True svs) (\<lambda>_. ?T)"
  proof (cases svs)
    case Nil
    show ?thesis unfolding Nil mschapv2_servers.simps
      by (rule spent_ret) (use own env_takesD(7) [OF E] Nil in simp)
  next
    case (Cons sv' svs')
    have "?own + co_probe c + mschap_cost c ?n \<le> ?T" using Cons by (simp add: mschap_cost_def algebra_simps)
    then show ?thesis using Cons.IH [of True] unfolding within_spent by (rule_tac spent_mono) auto
  qed
  have answered: "spent clock (?own + co_wait c)
      (seq (mschapv2_response_outcome E d request) (\<lambda>rep. ret (with_server rep (sv_addr sv)))) (\<lambda>_. ?T)" for d request
    by (rule spent_seq [OF mschap_outcome_takes [OF E]]) (use own in \<open>auto intro: spent_ret\<close>)
  have exchanged: "spent clock ?own
      (seq (env_exchange E (sv_addr sv) packet accept) (\<lambda>r. case r of
        Inl Unreachable \<Rightarrow> mschapv2_servers E ctx cf True svs
      | Inl Timeout \<Rightarrow> ret (with_server (report_of PamUnavail REASON_TIMEOUT) (sv_addr sv))
      | Inl Io \<Rightarrow> ret (with_server (report_of PamUnavail REASON_IO_ERROR) (sv_addr sv))
      | Inr response \<Rightarrow>
          seq (mschapv2_response_outcome E response request) (\<lambda>rep. ret (with_server rep (sv_addr sv))))) (\<lambda>_. ?T)"
    for packet accept request
  proof (rule spent_seq_by [OF env_takesD(5) [OF E]])
    fix r
    show "spent clock (?own + (if r = Inl Unreachable then co_probe c else co_wait c)) (case r of
        Inl Unreachable \<Rightarrow> mschapv2_servers E ctx cf True svs
      | Inl Timeout \<Rightarrow> ret (with_server (report_of PamUnavail REASON_TIMEOUT) (sv_addr sv))
      | Inl Io \<Rightarrow> ret (with_server (report_of PamUnavail REASON_IO_ERROR) (sv_addr sv))
      | Inr response \<Rightarrow>
          seq (mschapv2_response_outcome E response request) (\<lambda>rep. ret (with_server rep (sv_addr sv)))) (\<lambda>_. ?T)"
    proof (cases r)
      case (Inl e)
      with next_server show ?thesis by (cases e) (simp_all only: sum.case transport_error.case if_True if_False
          sum.inject transport_error.distinct refl done_ order_refl)
    next
      case (Inr d)
      with answered show ?thesis by simp
    qed
  qed
  have sent: "spent clock (3 * co_random c)
      (seq (if notice then ret (Inr ()) else cv_info (env_conv E) PUSH_NOTICE) (\<lambda>r. case r of
        Inl _ \<Rightarrow> ret (with_server (report_of PamConvErr REASON_CONV_ERROR) (sv_addr sv))
      | Inr _ \<Rightarrow>
      let binding = attempt_binding cf i ra in
      seq (env_exchange E (sv_addr sv) packet (\<lambda>d. verify_response (env_crypto E) binding d (secret_of sv))) (\<lambda>r. case r of
        Inl Unreachable \<Rightarrow> mschapv2_servers E ctx cf True svs
      | Inl Timeout \<Rightarrow> ret (with_server (report_of PamUnavail REASON_TIMEOUT) (sv_addr sv))
      | Inl Io \<Rightarrow> ret (with_server (report_of PamUnavail REASON_IO_ERROR) (sv_addr sv))
      | Inr response \<Rightarrow>
          seq (mschapv2_response_outcome E response request) (\<lambda>rep. ret (with_server rep (sv_addr sv)))))) (\<lambda>_. ?T)"
    for i ra packet request
    by (rule spent_seq [OF notice]) (auto simp only: Let_def split: sum.split intro!: exchanged done_)
  show ?case
    unfolding within_spent mschapv2_servers.simps length_Cons
    unfolding Let_def [of "secret_of sv"] Let_def [of "\<lambda>out why. ret (with_server (report_of out why) (sv_addr sv))"]
  proof (rule spent_seq [OF env_takesD(1) [OF E]], goal_cases)
    case (1 r)
    show ?case
    proof (cases r)
      case (Inl e)
      then show ?thesis by (simp only: sum.case) (rule done_, simp)
    next
      case (Inr ra)
      show ?thesis unfolding Inr sum.case Let_def [of "ra ! 0"]
      proof (rule spent_seq [OF env_takesD(2) [OF E]], goal_cases)
        case (1 r)
        have c: "0 + co_random c + 2 * co_random c = 3 * co_random c" by simp
        show ?case unfolding c
          by (cases r) (auto simp only: sum.case Let_def [of "build_request _ _ _ _ _"] split: sum.split intro!: sent done_)
      qed
    qed
  qed
qed

text \<open>A PAP conversation: a prompt, a draw and an exchange in each round.\<close>

definition pap_round_cost :: "costs \<Rightarrow> nat" where
  "pap_round_cost c = co_ask c + co_random c + co_wait c"

lemma pap_loop_takes:
  assumes E: "env_takes clock E c"
  shows "within clock (pap_loop E ctx cf addr secret n d) (n * pap_round_cost c)"
proof (induction n arbitrary: d)
  case 0
  then show ?case by (simp add: within_ret)
next
  case (Suc n)
  let ?T = "Suc n * pap_round_cost c"
  have done_: "spent clock k (ret rep) (\<lambda>_. ?T)" if "k \<le> pap_round_cost c" for k and rep :: auth_report
    by (rule spent_ret) (use that in simp)
  have next_round: "spent clock (pap_round_cost c) (pap_loop E ctx cf addr secret n d') (\<lambda>_. ?T)" for d'
    using Suc.IH [of d'] unfolding within_spent by (rule spent_mono) simp
  have exchanged: "spent clock (co_ask c + co_random c)
      (seq (env_exchange E addr packet accept) (\<lambda>r. case r of
        Inr response' \<Rightarrow> pap_loop E ctx cf addr secret n response'
      | Inl _ \<Rightarrow> ret (report_of PamUnavail REASON_TRANSPORT_ERROR))) (\<lambda>_. ?T)" for packet accept
    by (rule spent_seq [OF env_takesD(6) [OF E]])
      (auto simp only: pap_round_cost_def [symmetric] split: sum.split intro!: next_round done_)
  have answered: "spent clock (co_ask c)
      (if secret_string_is_empty code then ret (report_of PamAuthErr REASON_EMPTY_OTP)
       else seq (fresh_request_authenticator (env_random E)) (\<lambda>r. case r of
        Inl _ \<Rightarrow> ret (report_of PamUnavail REASON_RNG_FAILURE)
      | Inr request_authenticator \<Rightarrow>
      let i = request_authenticator ! 0 in
      case build_response (env_crypto E) challenge i request_authenticator (as_bytes (ac_username ctx))
             (as_bytes (expose_secret code)) secret of
        Inl _ \<Rightarrow> ret (report_of PamAuthErr REASON_CHALLENGE_UNANSWERABLE)
      | Inr follow_up \<Rightarrow>
      let binding = attempt_binding cf i request_authenticator in
      seq (env_exchange E addr follow_up (\<lambda>d. verify_response (env_crypto E) binding d secret)) (\<lambda>r. case r of
        Inr response' \<Rightarrow> pap_loop E ctx cf addr secret n response'
      | Inl _ \<Rightarrow> ret (report_of PamUnavail REASON_TRANSPORT_ERROR)))) (\<lambda>_. ?T)" for code challenge
  proof (cases "secret_string_is_empty code")
    case True
    then show ?thesis by (simp only: if_True) (rule done_, simp add: pap_round_cost_def)
  next
    case False
    show ?thesis unfolding if_not_P [OF False]
    proof (rule spent_seq [OF env_takesD(1) [OF E]], goal_cases)
      case (1 r)
      have "co_ask c + co_random c \<le> pap_round_cost c" by (simp add: pap_round_cost_def)
      then show ?case
        by (cases r) (auto simp only: sum.case Let_def split: sum.split intro!: exchanged done_)
    qed
  qed
  show ?case unfolding within_spent
  proof (cases "\<exists>challenge. pap_round d = Inr (Challenge challenge)")
    case True
    then obtain challenge where r: "pap_round d = Inr (Challenge challenge)" by blast
    show "spent clock 0 (pap_loop E ctx cf addr secret (Suc n) d) (\<lambda>_. ?T)"
      unfolding pap_loop.simps r sum.case round.case
    proof (rule spent_seq [OF env_takesD(4) [OF E]], goal_cases)
      case (1 r)
      have "0 + co_ask c = co_ask c" "co_ask c \<le> pap_round_cost c" by (simp_all add: pap_round_cost_def)
      then show ?case by (cases r) (simp_all only: sum.case answered done_)
    qed
  next
    case False
    then have "\<exists>rep. pap_round d = Inl rep \<or> pap_round d = Inr (Done rep)"
      by (metis round.exhaust sum.exhaust)
    then show "spent clock 0 (pap_loop E ctx cf addr secret (Suc n) d) (\<lambda>_. ?T)"
      by (elim exE disjE) (simp_all only: pap_loop.simps sum.case round.case done_ zero_le)
  qed
qed

definition pap_cost :: "costs \<Rightarrow> nat \<Rightarrow> nat" where
  "pap_cost c n = n * co_random c + (n - 1) * co_probe c + co_wait c + MAX_CHALLENGE_ROUNDS * pap_round_cost c"

lemma pap_takes:
  assumes E: "env_takes clock E c"
  shows "within clock (pap_servers E ctx cf svs) (pap_cost c (length svs))"
proof (induction svs)
  case Nil
  then show ?case by (simp add: within_ret)
next
  case (Cons sv svs)
  let ?n = "length svs" and ?rounds = "MAX_CHALLENGE_ROUNDS * pap_round_cost c"
  let ?T = "pap_cost c (Suc ?n)"
  have own: "co_random c + co_wait c + ?rounds \<le> ?T" by (simp add: pap_cost_def algebra_simps)
  have done_: "spent clock k (ret rep) (\<lambda>_. ?T)" if "k \<le> co_random c + co_wait c" for k and rep :: auth_report
    by (rule spent_ret) (use own that in linarith)
  have next_server: "spent clock (co_random c + co_probe c) (pap_servers E ctx cf svs) (\<lambda>_. ?T)"
  proof (cases svs)
    case Nil
    show ?thesis unfolding Nil pap_servers.simps
      by (rule spent_ret) (use own env_takesD(7) [OF E] Nil in simp)
  next
    case (Cons sv' svs')
    have "co_random c + co_probe c + pap_cost c ?n \<le> ?T" using Cons by (simp add: pap_cost_def algebra_simps)
    then show ?thesis using Cons.IH unfolding within_spent by (rule_tac spent_mono) auto
  qed
  have answered: "spent clock (co_random c + co_wait c)
      (seq (pap_rounds E ctx cf (sv_addr sv) secret d) (\<lambda>rep. ret (with_server rep (sv_addr sv)))) (\<lambda>_. ?T)" for d secret
    unfolding pap_rounds_def
    by (rule spent_seq [OF pap_loop_takes [OF E]]) (rule spent_ret, use own in simp)
  have exchanged: "spent clock (co_random c)
      (seq (env_exchange E (sv_addr sv) packet accept) (\<lambda>r. case r of
        Inl Unreachable \<Rightarrow> pap_servers E ctx cf svs
      | Inl Timeout \<Rightarrow> ret (with_server (report_of PamUnavail REASON_TIMEOUT) (sv_addr sv))
      | Inl Io \<Rightarrow> ret (with_server (report_of PamUnavail REASON_IO_ERROR) (sv_addr sv))
      | Inr response \<Rightarrow>
          seq (pap_rounds E ctx cf (sv_addr sv) secret response) (\<lambda>rep. ret (with_server rep (sv_addr sv))))) (\<lambda>_. ?T)"
    for packet accept secret
  proof (rule spent_seq_by [OF env_takesD(5) [OF E]])
    fix r
    show "spent clock (co_random c + (if r = Inl Unreachable then co_probe c else co_wait c)) (case r of
        Inl Unreachable \<Rightarrow> pap_servers E ctx cf svs
      | Inl Timeout \<Rightarrow> ret (with_server (report_of PamUnavail REASON_TIMEOUT) (sv_addr sv))
      | Inl Io \<Rightarrow> ret (with_server (report_of PamUnavail REASON_IO_ERROR) (sv_addr sv))
      | Inr response \<Rightarrow>
          seq (pap_rounds E ctx cf (sv_addr sv) secret response) (\<lambda>rep. ret (with_server rep (sv_addr sv)))) (\<lambda>_. ?T)"
    proof (cases r)
      case (Inl e)
      with next_server show ?thesis by (cases e) (simp_all only: sum.case transport_error.case if_True if_False
          sum.inject transport_error.distinct refl done_ order_refl)
    next
      case (Inr d)
      with answered show ?thesis by simp
    qed
  qed
  show ?case
    unfolding within_spent pap_servers.simps length_Cons
    unfolding Let_def [of "secret_of sv"] Let_def [of "\<lambda>out why. ret (with_server (report_of out why) (sv_addr sv))"]
  proof (rule spent_seq [OF env_takesD(1) [OF E]], goal_cases)
    case (1 r)
    have c: "0 + co_random c = co_random c" "co_random c \<le> co_random c + co_wait c" by simp_all
    show ?case unfolding c(1)
      by (cases r) (auto simp only: sum.case Let_def split: sum.split intro!: exchanged done_ c(2))
  qed
qed

lemma authenticate_report_takes:
  assumes "env_takes clock E c"
  shows "within clock (authenticate_report E ctx cf)
    (case cf_protocol cf of Mschapv2 \<Rightarrow> mschap_cost c (length (cf_servers cf)) | Pap \<Rightarrow> pap_cost c (length (cf_servers cf)))"
  using mschap_takes [OF assms] pap_takes [OF assms]
  by (auto simp: authenticate_report_def mschapv2_flow_def pap_flow_def within_ret split: protocol.split)

end
