(* ===== verification/Demo_Clock.thy ===== *)
theory Demo_Clock
  imports Demo Screen Wall_Clock
begin

text \<open>
  A second concrete system: a network with a clock and two servers, of which the first refuses within
  the probe window and the second is silent, and an application that remembers the messages it is
  handed.
\<close>

record net =
  nt_clock :: nat
  nt_timeout :: nat
  nt_peer :: socket_addr
  nt_seen :: "messages list"

definition refused_addr :: socket_addr where
  "refused_addr = SocketV4 (Ipv4 1 2 3 5) 9"

text \<open>A refusal arrives after half the read timeout, silence lasts for all of it.\<close>

definition net_os :: "net os" where
  "net_os =
     \<lparr>os_bind = (\<lambda>a w. (Inr 3, w)), os_connect = (\<lambda>s a w. (Inr (), w\<lparr>nt_peer := a\<rparr>)),
      os_send = (\<lambda>s b w. (Inr (length b), w)), os_set_read_timeout = (\<lambda>s d w. (Inr (), w\<lparr>nt_timeout := nanos d\<rparr>)),
      os_recv = (\<lambda>s n w. if nt_peer w = refused_addr
        then (Inl ConnectionRefused, w\<lparr>nt_clock := nt_clock w + nt_timeout w div 2\<rparr>)
        else (Inl WouldBlock, w\<lparr>nt_clock := nt_clock w + nt_timeout w\<rparr>)),
      os_now = (\<lambda>w. (Nanos (nt_clock w), w))\<rparr>"

definition net_pam :: "net pam" where
  "net_pam = demo_pam\<lparr>pam_converse := (\<lambda>ms w. ((0, Some (map (\<lambda>m. Some [49]) ms)), w\<lparr>nt_seen := nt_seen w @ [ms]\<rparr>))\<rparr>"

definition net_system :: "net system" where
  "net_system =
     \<lparr>sys_crypto = flat_crypto, sys_getrandom = (\<lambda>w. (Some demo_ra, w)), sys_pam = net_pam,
      sys_fs = demo_fs, sys_os = net_os, sys_audit = demo_audit\<rparr>"

definition refused_server :: server where
  "refused_server = \<lparr>sv_addr = refused_addr, sv_secret = SecretString (lit ''k'')\<rparr>"

definition net_config :: "protocol \<Rightarrow> config" where
  "net_config p = demo_config p\<lparr>cf_servers := [refused_server, demo_server]\<rparr>"

abbreviation net_env :: "bool \<Rightarrow> protocol \<Rightarrow> net env" where
  "net_env silent p \<equiv> module_env net_system (Suc (Suc (Suc 0))) silent (net_config p)"

definition net_start :: net where
  "net_start = \<lparr>nt_clock = 0, nt_timeout = 0, nt_peer = refused_addr, nt_seen = []\<rparr>"

section \<open>The two servers\<close>

lemma refused_exchange:
  "udp_exchange net_os (Suc (Suc (Suc 0))) (from_config 5 60 1 None) refused_addr request accept w =
     Returns (Inl Unreachable) (w\<lparr>nt_clock := nt_clock w + 1250000000, nt_timeout := 2500000000, nt_peer := refused_addr\<rparr>)"
  by (simp add: udp_exchange_def connect_def attempt_apply seq_apply lift_apply net_os_def
      from_config_def udp_transport_new_def retransmit_interval_def dur_div_def elapsed_since_def
      from_secs_def saturating_sub_def less_eq_duration_def less_duration_def read_timeout_def MIN_READ_TIMEOUT_def
      from_millis_def max_def min_def Let_def)

lemma silent_exchange:
  "s \<noteq> refused_addr \<Longrightarrow>
     udp_exchange net_os (Suc (Suc (Suc 0))) (from_config 5 60 1 None) s request accept w =
       Returns (Inl Timeout) (w\<lparr>nt_clock := nt_clock w + 60 * 10 ^ 9, nt_timeout := 57500000000, nt_peer := s\<rparr>)"
  by (simp add: udp_exchange_def connect_def attempt_apply seq_apply lift_apply net_os_def
      from_config_def udp_transport_new_def retransmit_interval_def dur_div_def elapsed_since_def dur_add_def
      from_secs_def saturating_sub_def less_eq_duration_def read_timeout_def MIN_READ_TIMEOUT_def from_millis_def
      max_def min_def Let_def)

lemma refused_other: "sv_addr demo_server \<noteq> refused_addr"
  by (simp add: demo_sent refused_addr_def)

lemma net_random: "env_random (net_env silent p) w = Returns (Some demo_ra) w"
  by (simp add: getrandom_16_def net_system_def seq_apply lift_apply)

lemma net_fresh: "seq (fresh_request_authenticator (env_random (net_env silent p))) f w = f (Inr demo_ra) w"
  by (simp add: fresh_request_authenticator_def seq_apply net_random del: module_env_simps)

lemma net_challenges:
  "seq (generate_challenges (env_random (net_env silent p))) f w =
     f (Inr \<lparr>authenticator_challenge = demo_ra, peer_challenge = demo_ra\<rparr>) w"
  by (simp add: generate_challenges_def seq_apply attempt_apply net_random del: module_env_simps)

lemma net_notice:
  "seq (cv_info (env_conv (net_env False p)) PUSH_NOTICE) f w =
     f (Inr ()) (w\<lparr>nt_seen := nt_seen w @ [notice_message PUSH_NOTICE]\<rparr>)"
proof -
  have "length (as_bytes PUSH_NOTICE) < 512" "0 \<notin> set PUSH_NOTICE"
    by (simp_all add: PUSH_NOTICE_def lit_def as_bytes_def utf8_char_def)
  then show ?thesis
    by (simp add: pam_conversation_def notices_whole converse_def net_system_def net_pam_def demo_pam_def seq_apply lift_apply
        replies_of_def notice_message_def secret_string_from_text_def)
qed

lemma net_exchanges:
  "seq (env_exchange (net_env silent p) refused_addr request accept) f w =
     f (Inl Unreachable) (w\<lparr>nt_clock := nt_clock w + 1250000000, nt_timeout := 2500000000, nt_peer := refused_addr\<rparr>)"
  "seq (env_exchange (net_env silent p) (sv_addr demo_server) request accept) f w =
     f (Inl Timeout) (w\<lparr>nt_clock := nt_clock w + 60 * 10 ^ 9, nt_timeout := 57500000000, nt_peer := sv_addr demo_server\<rparr>)"
  using refused_other
  by (simp_all add: seq_apply net_system_def net_config_def demo_config_def refused_exchange silent_exchange)

lemma net_packets:
  "build_mschapv2_packet K u req i ra (net_config p) secret = build_mschapv2_packet K u req i ra (demo_config p) secret"
  "build_pap_packet K u h i ra (net_config p) secret = build_pap_packet K u h i ra (demo_config p) secret"
  by (simp_all add: build_mschapv2_packet_def build_pap_packet_def add_nas_attributes_def net_config_def)

section \<open>The two attempts\<close>

lemma net_servers: "cf_servers (net_config p) = [refused_server, demo_server]" "cf_protocol (net_config p) = p"
    "sv_addr refused_server = refused_addr" "secret_of refused_server = secret_of demo_server"
  by (simp_all add: net_config_def refused_server_def demo_server_def secret_of_def demo_ctx_ok)

definition net_end :: "messages list \<Rightarrow> net" where
  "net_end ms = \<lparr>nt_clock = 61250000000, nt_timeout = 57500000000, nt_peer = sv_addr demo_server, nt_seen = ms\<rparr>"

lemma net_mschap_run:
  "authenticate_report (net_env False Mschapv2) demo_ctx (net_config Mschapv2) net_start =
     Returns (with_server (report_of PamUnavail REASON_TIMEOUT) (sv_addr demo_server)) (net_end [notice_message PUSH_NOTICE])"
proof -
  let ?ch = "\<lparr>authenticator_challenge = demo_ra, peer_challenge = demo_ra\<rparr>"
  let ?req = "build_request flat_crypto (as_bytes (ac_username demo_ctx)) (expose_secret (ac_password demo_ctx)) ?ch 7"
  obtain b where b: "build_mschapv2_packet flat_crypto (ac_username demo_ctx) ?req 7 demo_ra (demo_config Mschapv2)
      (secret_of demo_server) = Inr b" using demo_mschap_packet by blast
  have K: "env_crypto (net_env False Mschapv2) = flat_crypto" by (simp add: net_system_def)
  have "mschapv2_servers (net_env False Mschapv2) demo_ctx (net_config Mschapv2) False [refused_server, demo_server] net_start =
      Returns (with_server (report_of PamUnavail REASON_TIMEOUT) (sv_addr demo_server)) (net_end [notice_message PUSH_NOTICE])"
    unfolding mschapv2_servers.simps Let_def net_fresh sum.case net_challenges
    using b by (simp add: K net_packets net_notice net_exchanges net_fresh net_challenges net_servers net_start_def net_end_def
        del: module_env_simps)
  then show ?thesis
    unfolding authenticate_report_def mschapv2_flow_def by (simp add: demo_ctx_ok net_servers del: module_env_simps)
qed

lemma net_pap_run:
  "authenticate_report (net_env False Pap) demo_ctx (net_config Pap) net_start =
     Returns (with_server (report_of PamUnavail REASON_TIMEOUT) (sv_addr demo_server)) (net_end [])"
proof -
  obtain b where b: "build_pap_packet flat_crypto (ac_username demo_ctx) (hide_core flat_crypto [112] (secret_of demo_server) demo_ra)
      7 demo_ra (demo_config Pap) (secret_of demo_server) = Inr b" using demo_pap_packet by blast
  have K: "env_crypto (net_env False Pap) = flat_crypto" by (simp add: net_system_def)
  have "pap_servers (net_env False Pap) demo_ctx (net_config Pap) [refused_server, demo_server] net_start =
      Returns (with_server (report_of PamUnavail REASON_TIMEOUT) (sv_addr demo_server)) (net_end [])"
    unfolding pap_servers.simps Let_def net_fresh sum.case
    using b by (simp add: K demo_utf8 try_hide_password_def net_packets net_exchanges net_fresh net_servers net_start_def net_end_def
        del: module_env_simps)
  then show ?thesis
    unfolding authenticate_report_def pap_flow_def by (simp add: demo_ctx_ok net_servers del: module_env_simps)
qed

section \<open>The hypotheses it meets\<close>

lemma net_remembers: "remembers net_system nt_seen"
  by (simp add: remembers_def net_system_def net_os_def net_pam_def demo_pam_def)

lemma net_quiet: "quiet_resends (sys_os net_system) left"
  by (simp add: quiet_resends_def net_system_def net_os_def)

lemma net_punctual: "punctual (sys_os net_system) nt_clock 0"
proof -
  have "within nt_clock (send_request net_os fuel sock request) 0" for fuel sock request
    by (cases fuel) (simp_all add: within_def net_os_def seq_lift ret_apply)
  then show ?thesis by (simp add: punctual_def net_system_def) (simp add: net_os_def)
qed

lemma net_within:
  "within nt_clock (getrandom_16 (sys_getrandom net_system)) 0"
  "within nt_clock (cv_info (pam_conversation (sys_pam net_system) silent) t) 0"
  "within nt_clock (cv_prompt_echo_off (pam_conversation (sys_pam net_system) silent) t) 0"
  by (auto simp: within_def getrandom_16_def pam_conversation_def converse_def net_system_def net_pam_def demo_pam_def
      seq_apply lift_apply ret_apply split: option.splits exec.splits)

end
