(* ===== verification/Forgery.thy ===== *)
theory Forgery
  imports Radius_Binding Mschap_Flow
begin

text \<open>
  What stands between an attacker and an accepted response, without a hypothesis on the hash
  functions: two accepted responses with the same authenticator are the same response to the same
  request under the same secret, or else the two inputs exhibited here are a collision. The first
  reduction is for the Response Authenticator and MD5, whose collisions are practical; the second,
  for the Message-Authenticator and HMAC-MD5, is why \<open>verify_response\<close> requires that attribute. The
  third is for the proof of the server's knowledge of the password in an Access-Accept, and SHA-1.
\<close>

definition collision :: "('a \<Rightarrow> 'b) \<Rightarrow> 'a \<Rightarrow> 'a \<Rightarrow> bool" where
  "collision f x y \<longleftrightarrow> x \<noteq> y \<and> f x = f y"

text \<open>The octets that the Response Authenticator of a response is computed over.\<close>

definition signed_octets :: "parsed_response \<Rightarrow> bytes \<Rightarrow> bytes \<Rightarrow> bytes" where
  "signed_octets r ra secret = packet_bytes (pr_code r) (pr_id r) ra (pr_attrs r) @ secret"

lemma collision_or_same: "f x = f y \<Longrightarrow> x = y \<or> collision f x y"
  by (auto simp: collision_def)

lemma signed_octets_md5:
  "response_authenticator K (pr_code r) (pr_id r) (of_nat (20 + length (enc_attrs (pr_attrs r)))) ra
     (enc_attrs (pr_attrs r)) secret = md5 K (signed_octets r ra secret)"
  by (simp add: response_authenticator_def signed_octets_def packet_bytes_def)

lemma authentic_signed:
  "authentic_response K b secret r \<Longrightarrow> pr_authenticator r = md5 K (signed_octets r (rb_request_authenticator b) secret)"
  unfolding authentic_response_def signed_octets_md5 by blast

text \<open>The octets before the secret say where they end.\<close>

lemma u16_of_nat_inject: "m < 65536 \<Longrightarrow> n < 65536 \<Longrightarrow> (of_nat m :: u16) = of_nat n \<longleftrightarrow> m = n"
  by (simp add: word_of_nat_eq_iff take_bit_nat_eq_self)

lemma u16_to_be_inject: "u16_to_be v = u16_to_be w \<longleftrightarrow> v = w"
  using u16_roundtrip by metis

lemma packet_bytes_inject:
  assumes "length ra = 16" "length ra' = 16" and "fits as" "fits as'"
  shows "packet_bytes c i ra as @ s = packet_bytes c' i' ra' as' @ s' \<longleftrightarrow>
    c = c' \<and> i = i' \<and> ra = ra' \<and> as = as' \<and> s = s'"
proof
  assume eq: "packet_bytes c i ra as @ s = packet_bytes c' i' ra' as' @ s'"
  then have head: "c = c'" "i = i'" "(of_nat (20 + length (enc_attrs as)) :: u16) = of_nat (20 + length (enc_attrs as'))"
    and tail: "ra @ enc_attrs as @ s = ra' @ enc_attrs as' @ s'"
    by (auto simp: packet_bytes_def u16_to_be_inject)
  have "20 + length (enc_attrs as) < 65536" "20 + length (enc_attrs as') < 65536"
    using assms(3,4) by (auto simp: fits_def)
  then have "length (enc_attrs as) = length (enc_attrs as')" using head(3) u16_of_nat_inject by fastforce
  with tail assms(1,2) have "ra = ra'" "enc_attrs as = enc_attrs as'" "s = s'" by auto
  moreover have "short_attrs as" "short_attrs as'" using assms(3,4) by (simp_all add: fits_def)
  ultimately show "c = c' \<and> i = i' \<and> ra = ra' \<and> as = as' \<and> s = s'" using head(1,2) by (simp add: enc_attrs_inject)
qed simp

lemma parsed_fits: "parse_response p = Inr r \<Longrightarrow> fits (pr_attrs r)"
  by (auto simp: parse_response_Inr fits_def wf_attrs_def)

section \<open>Replays and forgeries\<close>

text \<open>Hash functions that collide everywhere, for the instances.\<close>

definition weak_crypto :: crypto where
  "weak_crypto =
     demo_crypto\<lparr>md5 := \<lambda>m. zeros 16, hmac_md5_mac := \<lambda>k m. Some (zeros 16), sha1 := \<lambda>m. zeros 20\<rparr>"

lemma weak_crypto_ok: "crypto_ok weak_crypto"
  using demo_crypto_ok by (simp add: weak_crypto_def crypto_ok_def)

lemma weak_response:
  defines "as \<equiv> [(MESSAGE_AUTHENTICATOR, zeros 16)]"
  shows "parse_response (server_response weak_crypto AccessAccept 7 ra as secret) =
      Inr \<lparr>pr_code = 2, pr_id = 7, pr_authenticator = zeros 16, pr_attrs = as\<rparr>"
    and "verify_response weak_crypto (request_binding_new 7 ra) (server_response weak_crypto AccessAccept 7 ra as secret) secret"
proof -
  have as: "wf_attrs as" "fits as" "ma_values as = [zeros 16]" "length (zeros 16) = 16"
    by (simp_all add: as_def wf_attrs_def fits_def)
  show "parse_response (server_response weak_crypto AccessAccept 7 ra as secret) =
      Inr \<lparr>pr_code = 2, pr_id = 7, pr_authenticator = zeros 16, pr_attrs = as\<rparr>"
    unfolding server_response_parsed [OF weak_crypto_ok as]
    by (simp add: message_authenticator_def hmac_md5_def response_authenticator_def weak_crypto_def as_def)
  show "verify_response weak_crypto (request_binding_new 7 ra) (server_response weak_crypto AccessAccept 7 ra as secret) secret"
    by (rule server_response_accepted [OF weak_crypto_ok as]) (simp add: weak_crypto_def)
qed

text \<open>C15: A response is bound to its request by MD5: when two datagrams with the same Response
  Authenticator are accepted, for whatever requests and under whatever secrets, they are the same
  response to the same Request Authenticator under the same secret, or the octets the two were signed
  over are an MD5 collision.\<close>

theorem replay_needs_md5_collision:
  assumes "parse_response p = Inr r" and "verify_response K b p secret" and "length (rb_request_authenticator b) = 16"
    and "parse_response p' = Inr r'" and "verify_response K b' p' secret'" and "length (rb_request_authenticator b') = 16"
    and "pr_authenticator r = pr_authenticator r'"
  shows "r = r' \<and> rb_request_authenticator b = rb_request_authenticator b' \<and> secret = secret' \<or>
    collision (md5 K) (signed_octets r (rb_request_authenticator b) secret)
      (signed_octets r' (rb_request_authenticator b') secret')"
proof -
  have "md5 K (signed_octets r (rb_request_authenticator b) secret) =
      md5 K (signed_octets r' (rb_request_authenticator b') secret')"
    using assms(2,5,7) unfolding verify_response_parsed [OF assms(1)] verify_response_parsed [OF assms(4)]
    by (metis authentic_signed)
  from collision_or_same [where f = "md5 K", OF this] show ?thesis
    unfolding signed_octets_def packet_bytes_inject [OF assms(3,6) parsed_fits [OF assms(1)] parsed_fits [OF assms(4)]]
    using assms(7) by (auto intro: parsed_response.equality)
qed

text \<open>An Access-Accept to one request that is as good for another one.\<close>

theorem replay_needs_md5_collision_witness:
  "\<exists>r. collision (md5 weak_crypto) (signed_octets r (zeros 16) [1]) (signed_octets r (replicate 16 1) [2])"
proof -
  have "zeros 16 \<noteq> (replicate 16 1 :: bytes)" by (simp add: zeros_def)
  then show ?thesis
    using replay_needs_md5_collision [OF weak_response [of "zeros 16" "[1]"] _ weak_response [of "replicate 16 1" "[2]"]]
    by (auto simp: request_binding_new_def)
qed

text \<open>C16: A response with a Message-Authenticator is bound to its request by HMAC-MD5 as well, so that an
  MD5 collision is not enough: when two datagrams with the same Message-Authenticator are accepted under
  one secret, they are the same response to the same Request Authenticator, or the octets the two
  Message-Authenticators were computed over are a collision of HMAC-MD5 under that secret.\<close>

theorem replay_needs_hmac_collision:
  assumes "parse_response p = Inr r" and "verify_response K b p secret" and "length (rb_request_authenticator b) = 16"
    and "parse_response p' = Inr r'" and "verify_response K b' p' secret" and "length (rb_request_authenticator b') = 16"
    and "ma_values (pr_attrs r) = [ma]" and "ma_values (pr_attrs r') = [ma]"
  shows "r = r' \<and> rb_request_authenticator b = rb_request_authenticator b' \<or>
    collision (hmac_md5_mac K secret) (response_ma_input r (rb_request_authenticator b))
      (response_ma_input r' (rb_request_authenticator b'))"
proof -
  note A = assms(2,5) [unfolded verify_response_parsed [OF assms(1)] verify_response_parsed [OF assms(4)]
      authentic_response_def]
  have len: "length ma = 16" using A(1) assms(7) by simp
  have "fits (set_ma (zeros 16) as)" if "fits as" "ma_values as = [ma]" for as
    using fits_set_ma [of "zeros 16" as] that len by simp
  then have f: "fits (set_ma (zeros 16) (pr_attrs r))" "fits (set_ma (zeros 16) (pr_attrs r'))"
    using parsed_fits [OF assms(1)] parsed_fits [OF assms(4)] assms(7,8) by blast+
  have "as = set_ma ma (set_ma (zeros 16) as)" if "ma_values as = [ma]" for as
    using that by (simp add: set_ma_same)
  then have attrs: "set_ma (zeros 16) (pr_attrs r) = set_ma (zeros 16) (pr_attrs r') \<Longrightarrow> pr_attrs r = pr_attrs r'"
    using assms(7,8) by metis
  have "hmac_md5_mac K secret (response_ma_input r (rb_request_authenticator b)) =
      hmac_md5_mac K secret (response_ma_input r' (rb_request_authenticator b'))"
    using A assms(7,8) by simp
  from collision_or_same [where f = "hmac_md5_mac K secret", OF this]
  have "pr_code r = pr_code r' \<and> pr_id r = pr_id r' \<and> pr_attrs r = pr_attrs r' \<and>
      rb_request_authenticator b = rb_request_authenticator b' \<or>
    collision (hmac_md5_mac K secret) (response_ma_input r (rb_request_authenticator b))
      (response_ma_input r' (rb_request_authenticator b'))"
    using packet_bytes_inject [OF assms(3,6) f, of "pr_code r" "pr_id r" "[]" "pr_code r'" "pr_id r'" "[]"] attrs
    by (auto simp: response_ma_input_def)
  moreover have "r = r'" if "pr_code r = pr_code r'" "pr_id r = pr_id r'" "pr_attrs r = pr_attrs r'"
      "rb_request_authenticator b = rb_request_authenticator b'"
    using A that by (auto intro: parsed_response.equality)
  ultimately show ?thesis by blast
qed

theorem replay_needs_hmac_collision_witness:
  "\<exists>r. collision (hmac_md5_mac weak_crypto [1]) (response_ma_input r (zeros 16)) (response_ma_input r (replicate 16 1))"
proof -
  have "zeros 16 \<noteq> (replicate 16 1 :: bytes)" by (simp add: zeros_def)
  then show ?thesis
    using replay_needs_hmac_collision [OF weak_response [of "zeros 16" "[1]"] _ weak_response [of "replicate 16 1" "[1]"]]
    by (auto simp: request_binding_new_def)
qed

section \<open>The proof of the server\<close>

text \<open>The inputs of the two SHA-1 of the authenticator response.\<close>

definition proof_inner :: "crypto \<Rightarrow> rstr \<Rightarrow> bytes \<Rightarrow> bytes" where
  "proof_inner K pw nt = md4 K (nt_password_hash K pw) @ nt @ MAGIC1"

definition proof_outer :: "crypto \<Rightarrow> rstr \<Rightarrow> bytes \<Rightarrow> bytes \<Rightarrow> bytes \<Rightarrow> bytes \<Rightarrow> bytes" where
  "proof_outer K pw nt peer auth user = sha1 K (proof_inner K pw nt) @ challenge_hash K peer auth user @ MAGIC2"

lemma verified_digest_unique:
  assumes "crypto_ok K" and "verify_access_accept r (generate_authenticator_response K pw nt peer auth user)"
    and "verify_access_accept r (generate_authenticator_response K pw' nt' peer' auth' user')"
  shows "authenticator_digest K pw nt peer auth user = authenticator_digest K pw' nt' peer' auth' user'"
  using assms(2,3) unfolding verify_access_accept_iff [OF assms(1)] by (auto simp: success_data_def)

text \<open>C24: The server's proof in an Access-Accept is bound by SHA-1: when one response is verified against
  two expectations, they agree on the hash of the NT hash of the password, on the NT-Response and on
  the eight octets of the challenge hash, or the inputs of one of the two SHA-1 are a collision.\<close>

theorem server_proof_needs_sha1_collision:
  assumes "crypto_ok K" and "length nt = 24" "length nt' = 24"
    and "verify_access_accept r (generate_authenticator_response K pw nt peer auth user)"
    and "verify_access_accept r (generate_authenticator_response K pw' nt' peer' auth' user')"
  shows "md4 K (nt_password_hash K pw) = md4 K (nt_password_hash K pw') \<and> nt = nt' \<and>
      challenge_hash K peer auth user = challenge_hash K peer' auth' user' \<or>
    collision (sha1 K) (proof_inner K pw nt) (proof_inner K pw' nt') \<or>
    collision (sha1 K) (proof_outer K pw nt peer auth user) (proof_outer K pw' nt' peer' auth' user')"
proof -
  note len = crypto_ok_lengths [OF assms(1)]
  have "sha1 K (proof_outer K pw nt peer auth user) = sha1 K (proof_outer K pw' nt' peer' auth' user')"
    using verified_digest_unique [OF assms(1,4,5)] by (simp add: authenticator_digest_def proof_outer_def proof_inner_def)
  from collision_or_same [where f = "sha1 K", OF this] show ?thesis
  proof
    assume "proof_outer K pw nt peer auth user = proof_outer K pw' nt' peer' auth' user'"
    then have "sha1 K (proof_inner K pw nt) = sha1 K (proof_inner K pw' nt')"
        "challenge_hash K peer auth user = challenge_hash K peer' auth' user'"
      by (simp_all add: proof_outer_def len)
    moreover from collision_or_same [where f = "sha1 K", OF this(1)]
    have "md4 K (nt_password_hash K pw) = md4 K (nt_password_hash K pw') \<and> nt = nt' \<or>
        collision (sha1 K) (proof_inner K pw nt) (proof_inner K pw' nt')"
      using assms(2,3) by (auto simp: proof_inner_def len)
    ultimately show ?thesis by blast
  qed blast
qed

text \<open>One Success for two NT-Responses.\<close>

theorem server_proof_needs_sha1_collision_witness:
  "collision (sha1 weak_crypto) (proof_inner weak_crypto [112] (zeros 24)) (proof_inner weak_crypto [112] (replicate 24 1))"
proof -
  let ?r = "\<lparr>pr_code = 2, pr_id = 7, pr_authenticator = zeros 16,
    pr_attrs = [(VENDOR_SPECIFIC, server_success 7 (zeros 20))]\<rparr>"
  have "authenticator_digest weak_crypto [112] nt peer auth user = zeros 20" for nt peer auth user
    by (simp add: authenticator_digest_def weak_crypto_def)
  then have v: "verify_access_accept ?r (generate_authenticator_response weak_crypto [112] nt (zeros 16) (zeros 16) [117])" for nt
    by (intro server_success_verified [OF weak_crypto_ok]) (simp add: attr_values_def)
  have "zeros 24 \<noteq> (replicate 24 1 :: bytes)" by (simp add: zeros_def)
  moreover have "proof_outer weak_crypto [112] nt (zeros 16) (zeros 16) [117] = zeros 20 @ zeros 8 @ MAGIC2" for nt
    by (simp add: proof_outer_def challenge_hash_def weak_crypto_def zeros_def)
  ultimately show ?thesis
    using server_proof_needs_sha1_collision [OF weak_crypto_ok _ _ v [of "zeros 24"] v [of "replicate 24 1"]]
    by (simp add: collision_def)
qed

end
