(* ===== verification/Config_Print.thy ===== *)
theory Config_Print
  imports Config_Spec
begin

text \<open>
  A writer for configurations, the inverse of \<open>parse\<close>: every configuration the program can hold has
  a text, and that text is read back as it is. The writer is not part of the program; it shows that
  the grammar reaches all values of all keys, and that two configurations never share a text.
\<close>

section \<open>Lines of tokens\<close>

text \<open>A token is not empty and holds neither white space nor the comment character.\<close>

definition token :: "rstr \<Rightarrow> bool" where
  "token t \<longleftrightarrow> t \<noteq> [] \<and> list_all (\<lambda>c. \<not> is_whitespace c \<and> c \<noteq> 35) t"

fun spaced :: "rstr list \<Rightarrow> rstr" where
  "spaced [] = []"
| "spaced [t] = t"
| "spaced (t # ts) = t @ [32] @ spaced ts"

definition unlines :: "rstr list \<Rightarrow> rstr" where
  "unlines ls = concat (map (\<lambda>l. l @ [10]) ls)"

lemma space_is_whitespace [simp]: "is_whitespace 32" "is_whitespace 10" "is_whitespace 13"
  by (simp_all add: is_whitespace_def)

lemma lines_unlines: "list_all (\<lambda>l. 10 \<notin> set l \<and> (l = [] \<or> last l \<noteq> 13)) ls \<Longrightarrow> lines (unlines ls) = ls"
proof (induction ls)
  case Nil
  show ?case by (simp add: unlines_def lines.simps)
next
  case (Cons l ls)
  then have "\<forall>c\<in>set l. c \<noteq> 10" by auto
  then have "takeWhile (\<lambda>c. c \<noteq> 10) (l @ 10 # unlines ls) = l" "dropWhile (\<lambda>c. c \<noteq> 10) (l @ 10 # unlines ls) = 10 # unlines ls"
    by (simp_all add: takeWhile_append2 dropWhile_append2)
  then show ?case using Cons
    by (subst lines.simps) (auto simp: unlines_def strip_cr_def)
qed

lemma split_whitespace_spaced: "list_all token ts \<Longrightarrow> split_whitespace (spaced ts) = ts"
proof (induction ts rule: spaced.induct)
  case (2 t)
  then show ?case by (simp add: split_whitespace_word token_def list_all_iff)
next
  case (3 t t' ts)
  then show ?case by (simp add: split_whitespace_word token_def list_all_iff)
qed (simp add: split_whitespace.simps)

lemma spaced_clean:
  assumes "list_all token ts" and "ts \<noteq> []"
  shows "spaced ts \<noteq> [] \<and> \<not> is_whitespace (hd (spaced ts)) \<and> \<not> is_whitespace (last (spaced ts)) \<and>
    (\<forall>c\<in>set (spaced ts). c \<noteq> 35 \<and> c \<noteq> 10)"
  using assms
proof (induction ts rule: spaced.induct)
  case (2 t)
  then show ?case by (auto simp: token_def list_all_iff hd_in_set)
next
  case (3 t t' ts)
  then show ?case by (auto simp: token_def list_all_iff hd_append)
qed simp

lemma trim_id: "s \<noteq> [] \<Longrightarrow> \<not> is_whitespace (hd s) \<Longrightarrow> \<not> is_whitespace (last s) \<Longrightarrow> trim s = s"
proof -
  have "dropWhile P s = s" if "s \<noteq> []" "\<not> P (hd s)" for P and s :: rstr
    using that by (cases s) simp_all
  then show "s \<noteq> [] \<Longrightarrow> \<not> is_whitespace (hd s) \<Longrightarrow> \<not> is_whitespace (last s) \<Longrightarrow> trim s = s"
    by (simp add: trim_def hd_rev)
qed

lemma entry_of_spaced:
  assumes "list_all token (k # rest)"
  shows "entry_of n (spaced (k # rest)) = Some (n, k, rest)"
proof -
  note c = spaced_clean [OF assms]
  have "trim (takeWhile (\<lambda>c. c \<noteq> 35) s) = s"
    if "s \<noteq> []" "\<not> is_whitespace (hd s)" "\<not> is_whitespace (last s)" "\<forall>c\<in>set s. c \<noteq> 35" for s
    using trim_id [OF that(1-3)] takeWhile_eq_all_conv [of "\<lambda>c. c \<noteq> 35" s] that(4) by metis
  with c have "trim (takeWhile (\<lambda>c. c \<noteq> 35) (spaced (k # rest))) = spaced (k # rest)" by blast
  then show ?thesis using c split_whitespace_spaced [OF assms] by (simp add: entry_of_def Let_def del: spaced.simps)
qed

text \<open>The entries of a text that is written token by token.\<close>

definition write_entries :: "(rstr \<times> rstr list) list \<Rightarrow> rstr" where
  "write_entries es = unlines (map (\<lambda>(k, rest). spaced (k # rest)) es)"

lemma entries_from_written:
  "list_all (\<lambda>(k, rest). list_all token (k # rest)) es \<Longrightarrow>
     map snd (entries_from n (map (\<lambda>(k, rest). spaced (k # rest)) es)) = es"
proof (induction es arbitrary: n)
  case (Cons e es)
  obtain k rest where e: "e = (k, rest)" by force
  with Cons show ?case using entry_of_spaced [of k rest] by (simp del: spaced.simps)
qed simp

lemma entries_written:
  assumes "list_all (\<lambda>(k, rest). list_all token (k # rest)) es"
  shows "map snd (entries (write_entries es)) = es"
proof -
  have "list_all (\<lambda>l. 10 \<notin> set l \<and> (l = [] \<or> last l \<noteq> 13)) (map (\<lambda>(k, rest). spaced (k # rest)) es)"
    unfolding list_all_iff
  proof
    fix l
    assume "l \<in> set (map (\<lambda>(k, rest). spaced (k # rest)) es)"
    then obtain k rest where l: "l = spaced (k # rest)" "list_all token (k # rest)"
      using assms by (auto simp: list_all_iff)
    from spaced_clean [OF l(2)] show "10 \<notin> set l \<and> (l = [] \<or> last l \<noteq> 13)" unfolding l(1) by auto
  qed
  then show ?thesis unfolding entries_def write_entries_def
    by (simp only: lines_unlines entries_from_written [OF assms])
qed

section \<open>Values\<close>

lemma dec_chars: "\<forall>c\<in>set (dec n). 48 \<le> c \<and> c \<le> 57"
proof (induction n rule: less_induct)
  case (less n)
  show ?case
  proof (cases "n < 10")
    case True
    then show ?thesis by (subst dec_unfold) simp
  next
    case False
    moreover have "n mod 10 < 10" by simp
    ultimately show ?thesis using less [of "n div 10"] by (subst dec_unfold) simp
  qed
qed

text \<open>Digits, points and colons make a token.\<close>

lemma numeric_token: "s \<noteq> [] \<Longrightarrow> \<forall>c\<in>set s. 46 \<le> c \<and> c \<le> 58 \<Longrightarrow> token s"
proof -
  have "\<not> is_whitespace c \<and> c \<noteq> 35" if "46 \<le> c" "c \<le> 58" for c using that by (simp add: is_whitespace_def)
  then show "s \<noteq> [] \<Longrightarrow> \<forall>c\<in>set s. 46 \<le> c \<and> c \<le> 58 \<Longrightarrow> token s" unfolding token_def list_all_iff by blast
qed

lemma dec_digits_append:
  "dec_digits acc (xs @ ys) = (case dec_digits acc xs of None \<Rightarrow> None | Some v \<Rightarrow> dec_digits v ys)"
  by (induction acc xs rule: dec_digits.induct) (auto split: option.splits)

lemma dec_digits_dec: "n < 2 ^ 32 \<Longrightarrow> dec_digits 0 (dec n) = Some n"
proof (induction n rule: less_induct)
  case (less n)
  show ?case
  proof (cases "n < 10")
    case True
    then show ?thesis by (subst dec_unfold) (simp add: dec_digit_def)
  next
    case False
    have "n div 10 \<le> n" by simp
    then have "dec_digits 0 (dec (n div 10)) = Some (n div 10)" using less False by simp
    moreover have "dec n = dec (n div 10) @ [48 + n mod 10]" using False by (subst dec_unfold) simp
    ultimately show ?thesis using less.prems by (simp add: dec_digits_append dec_digit_def)
  qed
qed

lemma u32_from_dec: "u32_from_str (dec (unat n)) = Some n"
proof -
  have "unat n < 2 ^ 32" using unsigned_less [of n] by simp
  from dec_digits_dec [OF this] have d: "dec_digits 0 (dec (unat n)) = Some (unat n)" .
  have "dec (unat n) \<noteq> [] \<and> hd (dec (unat n)) \<noteq> 43"
    using hd_dec [of "unat n"] dec_chars [of "unat n"] hd_in_set [of "dec (unat n)"] by fastforce
  with d show ?thesis by (cases "dec (unat n)") (simp_all add: u32_from_str_def)
qed

lemma dec_token: "token (dec n)"
  using dec_chars [of n] hd_dec [of n] by (intro numeric_token) fastforce+

lemma ascii_octets: "\<forall>c\<in>set s. c < 128 \<Longrightarrow> length (as_bytes s) = length s"
  by (induction s) (simp_all add: as_bytes_Cons utf8_char_def)

lemma ipv4_chars: "\<forall>c\<in>set (ipv4_to_string ip). 46 \<le> c \<and> c \<le> 57"
  using dec_chars by (cases ip) fastforce

lemma ipv4_roundtrip: "ipv4_from_str (ipv4_to_string ip) = Some ip"
proof -
  have "length (as_bytes (ipv4_to_string ip)) \<le> 15"
    using ipv4_chars [of ip] length_ipv4_to_string [of ip] by (subst ascii_octets) fastforce+
  then show ?thesis
    using read_ipv4_to_string [of "[]" ip] by (simp add: ipv4_from_str_def parse_with_def)
qed

lemma ipv4_token: "token (ipv4_to_string ip)"
proof (rule numeric_token)
  show "ipv4_to_string ip \<noteq> []" by (cases ip) simp
  show "\<forall>c\<in>set (ipv4_to_string ip). 46 \<le> c \<and> c \<le> 58" using ipv4_chars [of ip] by fastforce
qed

lemma socket_v4_token: "token (socket_addr_to_string (SocketV4 ip port))"
proof (rule numeric_token)
  show "\<forall>c\<in>set (socket_addr_to_string (SocketV4 ip port)). 46 \<le> c \<and> c \<le> 58"
    using ipv4_chars [of ip] dec_chars [of "unat port"] by fastforce
qed simp

section \<open>The writer\<close>

definition protocol_word :: "protocol \<Rightarrow> rstr" where
  "protocol_word p = (case p of Mschapv2 \<Rightarrow> lit ''mschapv2'' | Pap \<Rightarrow> lit ''pap'')"

definition audit_word :: "audit_backend \<Rightarrow> rstr" where
  "audit_word a = (case a of AuditAuditd \<Rightarrow> lit ''auditd'' | AuditSyslog \<Rightarrow> lit ''syslog'' | AuditBoth \<Rightarrow> lit ''both'')"

definition bool_word :: "bool \<Rightarrow> rstr" where
  "bool_word b = (if b then lit ''true'' else lit ''false'')"

definition optional :: "string \<Rightarrow> rstr option \<Rightarrow> (rstr \<times> rstr list) list" where
  "optional k v = (case v of None \<Rightarrow> [] | Some x \<Rightarrow> [(lit k, [x])])"

definition config_entries :: "parsed_config \<Rightarrow> (rstr \<times> rstr list) list" where
  "config_entries c =
     map (\<lambda>s. (lit ''server'', [socket_addr_to_string (ps_addr s), ps_secret_path s])) (pc_servers c) @
     [(lit ''protocol'', [protocol_word (pc_protocol c)]),
      (lit ''timeout'', [dec (unat (pc_timeout c))]),
      (lit ''probe_timeout'', [dec (unat (pc_probe_timeout c))]),
      (lit ''retries'', [dec (unat (pc_retries c))])] @
     optional ''nas_identifier'' (pc_nas_identifier c) @
     optional ''nas_ip'' (map_option ipv4_to_string (pc_nas_ip c)) @
     optional ''source_ip'' (map_option ipv4_to_string (pc_source_ip c)) @
     [(lit ''require_message_authenticator'', [bool_word (pc_require_message_authenticator c)]),
      (lit ''audit'', [audit_word (pc_audit c)]),
      (lit ''debug'', [bool_word (pc_debug c)])]"

definition write_config :: "parsed_config \<Rightarrow> rstr" where
  "write_config c = write_entries (config_entries c)"

text \<open>
  What a text can hold: at least one server, and no white space or comment character in a path or
  an identifier. The servers' addresses are IPv4.
\<close>

definition writable :: "parsed_config \<Rightarrow> bool" where
  "writable c \<longleftrightarrow>
     pc_servers c \<noteq> [] \<and>
     list_all (\<lambda>s. (\<exists>ip port. ps_addr s = SocketV4 ip port) \<and> token (ps_secret_path s)) (pc_servers c) \<and>
     pred_option token (pc_nas_identifier c)"

lemma key_tokens:
  "token (lit ''server'')" "token (lit ''protocol'')" "token (lit ''timeout'')" "token (lit ''probe_timeout'')"
  "token (lit ''retries'')" "token (lit ''nas_identifier'')" "token (lit ''nas_ip'')" "token (lit ''source_ip'')"
  "token (lit ''require_message_authenticator'')" "token (lit ''audit'')" "token (lit ''debug'')"
  by (simp_all add: token_def lit_def is_whitespace_def)

lemma word_tokens: "token (protocol_word p)" "token (audit_word a)" "token (bool_word b)"
  by (cases p, simp_all add: protocol_word_def token_def lit_def is_whitespace_def)
    (cases a, simp_all add: audit_word_def bool_word_def token_def lit_def is_whitespace_def)

lemma words_read:
  "conv_protocol (protocol_word p) = Some p" "conv_audit (audit_word a) = Some a" "conv_bool (bool_word b) = Some b"
  by (cases p, simp_all add: conv_protocol_def protocol_word_def)
    (cases a, simp_all add: conv_audit_def audit_word_def conv_bool_def bool_word_def)

lemma config_entries_tokens:
  assumes "writable c"
  shows "list_all (\<lambda>(k, rest). list_all token (k # rest)) (config_entries c)"
proof -
  have "list_all (\<lambda>s. token (socket_addr_to_string (ps_addr s)) \<and> token (ps_secret_path s)) (pc_servers c)"
    using assms socket_v4_token unfolding writable_def list_all_iff by metis
  then show ?thesis
    using assms unfolding config_entries_def optional_def
    by (cases "pc_nas_identifier c") (auto simp: key_tokens word_tokens dec_token ipv4_token list_all_iff writable_def split: option.splits)
qed

section \<open>What is written is read\<close>

definition values_in :: "string \<Rightarrow> (rstr \<times> rstr list) list \<Rightarrow> rstr list list" where
  "values_in k kvs = map snd (filter (\<lambda>e. fst e = lit k) kvs)"

lemma values_of_written:
  assumes "list_all (\<lambda>(k, rest). list_all token (k # rest)) kvs"
  shows "values_of k (entries (write_entries kvs)) = values_in k kvs"
proof -
  have "values_of k es = values_in k (map snd es)" for es
    by (simp add: values_of_def values_in_def filter_map comp_def)
  then show ?thesis by (simp add: entries_written [OF assms])
qed

lemma values_in_append [simp]: "values_in k (xs @ ys) = values_in k xs @ values_in k ys" "values_in k [] = []"
  "values_in k (e # xs) = (if fst e = lit k then [snd e] else []) @ values_in k xs"
  by (simp_all add: values_in_def)

lemma values_in_servers:
  "values_in k (map (\<lambda>s. (lit ''server'', f s)) ss) = (if k = ''server'' then map f ss else [])"
  by (induction ss) (auto simp: lit_inject)

lemma values_in_optional: "values_in k (optional k' v) = (if k = k' then (case v of None \<Rightarrow> [] | Some x \<Rightarrow> [[x]]) else [])"
  by (auto simp: optional_def lit_inject split: option.split)

lemma config_values:
  "values_in ''server'' (config_entries c) =
     map (\<lambda>s. [socket_addr_to_string (ps_addr s), ps_secret_path s]) (pc_servers c)"
  "values_in ''protocol'' (config_entries c) = [[protocol_word (pc_protocol c)]]"
  "values_in ''timeout'' (config_entries c) = [[dec (unat (pc_timeout c))]]"
  "values_in ''probe_timeout'' (config_entries c) = [[dec (unat (pc_probe_timeout c))]]"
  "values_in ''retries'' (config_entries c) = [[dec (unat (pc_retries c))]]"
  "values_in ''nas_identifier'' (config_entries c) = (case pc_nas_identifier c of None \<Rightarrow> [] | Some x \<Rightarrow> [[x]])"
  "values_in ''nas_ip'' (config_entries c) = (case pc_nas_ip c of None \<Rightarrow> [] | Some x \<Rightarrow> [[ipv4_to_string x]])"
  "values_in ''source_ip'' (config_entries c) = (case pc_source_ip c of None \<Rightarrow> [] | Some x \<Rightarrow> [[ipv4_to_string x]])"
  "values_in ''require_message_authenticator'' (config_entries c) = [[bool_word (pc_require_message_authenticator c)]]"
  "values_in ''audit'' (config_entries c) = [[audit_word (pc_audit c)]]"
  "values_in ''debug'' (config_entries c) = [[bool_word (pc_debug c)]]"
  by (simp_all add: config_entries_def values_in_servers values_in_optional lit_inject split: option.split)

text \<open>C30: A configuration round trip: every configuration with at least one server, IPv4 servers, and no
  white space or comment character in its paths and its NAS identifier can be written as a text that
  parses to it; so no two of them share a text.\<close>

theorem config_roundtrip:
  assumes "writable c"
  shows "parse (write_config c) = Inr c"
proof -
  let ?es = "entries (write_config c)"
  have v: "values_of k ?es = values_in k (config_entries c)" for k
    unfolding write_config_def by (rule values_of_written [OF config_entries_tokens [OF assms]])
  have keys: "list_all (\<lambda>e. fst (snd e) \<in> set (map lit schema)) ?es"
  proof -
    have "list_all (\<lambda>e. fst e \<in> set (map lit schema)) (map snd ?es)"
      unfolding write_config_def entries_written [OF config_entries_tokens [OF assms]]
      by (auto simp: config_entries_def optional_def schema_def list_all_iff split: option.splits)
    then show ?thesis by (simp add: list_all_iff)
  qed
  have servers: "conv_server [socket_addr_to_string (ps_addr s), ps_secret_path s] = Some s" if "s \<in> set (pc_servers c)" for s
    using assms that by (auto simp: writable_def list_all_iff conv_server_def socket_v4_roundtrip simp del: socket_addr_to_string.simps)
  note slots = slot_ok_def slot_def v config_values words_read u32_from_dec
  have "entries_ok ?es"
    using keys servers by (auto simp: entries_ok_def slots list_all_iff ipv4_roundtrip split: option.split)
  moreover have "map (the \<circ> conv_server) (map (\<lambda>s. [socket_addr_to_string (ps_addr s), ps_secret_path s]) (pc_servers c)) = pc_servers c"
    using servers by (simp add: map_idI)
  then have "config_of ?es = c"
    by (auto simp: config_of_def slots unwrap_or_def ipv4_roundtrip intro!: parsed_config.equality split: option.split)
  ultimately show ?thesis
    using assms unfolding parse_spec by (simp add: v config_values writable_def)
qed

text \<open>Two servers, each key with a value of its own.\<close>

theorem config_roundtrip_witness:
  "parse (write_config \<lparr>pc_servers = [\<lparr>ps_addr = SocketV4 (Ipv4 10 0 0 1) 1812, ps_secret_path = lit ''/etc/s1''\<rparr>,
        \<lparr>ps_addr = SocketV4 (Ipv4 10 0 0 2) 1645, ps_secret_path = lit ''/etc/s2''\<rparr>],
      pc_protocol = Mschapv2, pc_timeout = 4294967295, pc_probe_timeout = 0, pc_retries = 3,
      pc_nas_identifier = Some (lit ''host''), pc_nas_ip = Some (Ipv4 192 0 2 1), pc_source_ip = None,
      pc_require_message_authenticator = False, pc_audit = AuditSyslog, pc_debug = True\<rparr>) =
   Inr \<lparr>pc_servers = [\<lparr>ps_addr = SocketV4 (Ipv4 10 0 0 1) 1812, ps_secret_path = lit ''/etc/s1''\<rparr>,
        \<lparr>ps_addr = SocketV4 (Ipv4 10 0 0 2) 1645, ps_secret_path = lit ''/etc/s2''\<rparr>],
      pc_protocol = Mschapv2, pc_timeout = 4294967295, pc_probe_timeout = 0, pc_retries = 3,
      pc_nas_identifier = Some (lit ''host''), pc_nas_ip = Some (Ipv4 192 0 2 1), pc_source_ip = None,
      pc_require_message_authenticator = False, pc_audit = AuditSyslog, pc_debug = True\<rparr>"
  by (rule config_roundtrip) (simp add: writable_def token_def lit_def is_whitespace_def)

end
