(* ===== verification/Spec2Isabelle.thy ===== *)
theory Spec2Isabelle
  imports Radius_Properties Protocol_Properties Service_Properties Liveness Completeness Displays Reply_Memory
    Checked_Protocols Secret_Memory Demo_Clock Forgery Config_Print
begin

text \<open>
  \<^bold>\<open>The program.\<close> \<open>pam_nps_mfa\<close> is a PAM module that authenticates a login against a list of RADIUS
  servers, with MSCHAPv2 (a push confirmed on a phone while the server waits) or with PAP (one-time
  passwords asked for in challenge rounds). A call of \<open>pam_sm_authenticate\<close> hardens the process,
  draws a correlation identifier, asks libpam for the user name and the password, reads the
  configuration and the secret files it names, contacts the servers in order over connected UDP,
  checks every datagram against the request it answers, talks to the user through the
  application's conversation function, and emits one audit record before it returns a code.

  \<^bold>\<open>Outside the program.\<close> The kernel, libpam, libc and the audit and syslog libraries are records of
  functions on a state \<open>'w\<close>: \<open>os\<close> (Radius_Udp), \<open>pam\<close> (Pam_Ffi), \<open>fs\<close> (Config), \<open>audit_os\<close>
  (Audit_Log), the random source, all gathered in \<open>system\<close> (Pam_Module). The functions of the
  \<open>md-5\<close>, \<open>hmac\<close>, \<open>md4\<close>, \<open>sha1\<close> and \<open>des\<close> crates are the record \<open>crypto\<close> (Radius_Types); theorems
  that need their documented output lengths assume \<open>crypto_ok\<close>. The parts of Rust's standard
  library the program uses are modelled in Prelude, Rust_Std and Net_Addr: strings as lists of
  scalar values with their UTF-8 octets, \<open>str::from_utf8\<close>, integer and address parsing,
  \<open>Duration\<close> and \<open>Instant\<close>. Effects holds the computations: a computation returns, panics or does
  not return within its fuel.

  \<^bold>\<open>The model\<close>, bottom up (files under \<open>src/crates/\<close>):
  \<^item> Radius_Types, Radius_Parse, Radius_Auth, Radius_Packet, Radius_Binding: \<open>radius/src/lib.rs\<close>,
    \<open>parse.rs\<close>, \<open>auth.rs\<close>, \<open>packet.rs\<close>, \<open>binding.rs\<close>. The wire format on octets, the two
    authenticators, the builder of an Access-Request, and what \<open>verify_response\<close> accepts.
  \<^item> Radius_Transport, Radius_Udp, Udp_Trace: \<open>transport.rs\<close>, \<open>test_support.rs\<close>, \<open>udp.rs\<close>. The
    transport interface, the scripted transport, and the UDP exchange with its probe window, its
    interrupted sends, its retransmissions and its overall timeout; then the log of its calls.
  \<^item> Mschap_Crypto, Mschap_Vsa, Mschap_Flow: \<open>mschapv2/src/crypto.rs\<close>, \<open>vsa.rs\<close>, \<open>flow.rs\<close>.
  \<^item> Pap: \<open>pap/src/lib.rs\<close>. Secrets, Secret_Memory: \<open>secrets/src/lib.rs\<close>, as values and as buffers over
    an allocator, with the scratch buffer of \<open>read_secret\<close> and the UTF-16 buffer of
    \<open>nt_password_hash\<close>.
  \<^item> Config, Config_Spec, Config_Print: \<open>config/src/lib.rs\<close>, a declarative reading of a configuration
    text, and a writer of configurations.
  \<^item> Audit_Log: \<open>audit/src/record.rs\<close>, \<open>ffi.rs\<close>, \<open>lib.rs\<close>.
  \<^item> Pam_Ffi, Reply_Memory, Conversation, Options: \<open>pam-ffi/src/ffi.rs\<close>, \<open>conversation.rs\<close>,
    \<open>options.rs\<close>. Reply_Memory holds the C memory of the responses: a partial heap in which every
    undefined access is \<open>None\<close>.
  \<^item> Auth_Flow: \<open>pam-ffi/src/flow.rs\<close>; Audit_Emit: \<open>audit_emit.rs\<close>; Pam_Module: \<open>lib.rs\<close> and the
    three entry points of \<open>ffi.rs\<close>. Displays: the error texts of all crates.
  \<^item> Checked, Checked_Radius, Checked_Protocols: the functions that index, slice, copy or count, once
    more, in the option monad of panics: the codec, the verifiers, the vendor attributes, the
    MSCHAPv2 and PAP arithmetic, \<open>clamp\<close>, and \<open>fuzz/fuzz_targets/radius_response.rs\<close>. A theorem
    equates each with the total function that the rest of the development uses.
  \<^item> Wall_Clock: a calculus of time bounds on computations, and what exchanges and attempts take.
  A Rust \<open>Result\<close> is a sum with the error on the left, an enum a \<open>datatype\<close>, a struct a \<open>record\<close>
  (with one field, a \<open>datatype\<close>), a machine integer a word. A loop over a list is structural
  recursion; a loop that waits for the outside world has fuel and ends in \<open>Diverges\<close> without it.
\<close>

text \<open>
  \<^bold>\<open>The interfaces.\<close> \<open>attribute_walk\<close> (Radius_Parse) is what the parser, the verifiers and the
  builder share: one walk over well-formed attributes, interpreted by \<open>for_each_attribute\<close>.
  \<open>radius_transport\<close> (Radius_Transport) is the contract of a transport, that it returns only what
  its caller accepts, interpreted by the scripted and by the UDP transport. \<open>auth_env\<close>
  (Auth_Trace) extends it with the random source and carries the proof that an attempt follows
  \<open>mschap_run\<close> or \<open>pap_run\<close>; Pam_Module interprets it on the module's own environment. \<open>observed\<close>
  (Screen) relates the worlds of an attempt to its log by any relation that composes and that every
  single call satisfies; it is interpreted on the module's environment with the messages that the
  application's conversation function is handed.
  \<open>audit_sink\<close> and \<open>sink_pair\<close> (Audit_Log) say that a sink always returns, interpreted by auditd,
  syslog, their pair, the recording sink and every configured backend. \<open>checked_closure\<close>
  (Checked_Radius) says when a checked closure keeps the attribute walk free of panics, interpreted
  on the closures of the parser, the verifier and the builder.

  \<^bold>\<open>What is proved.\<close>
  \<^item> Runs (Auth_Trace, Auth_Runs, Auth_Safety, Auth_Conduct): an attempt is logged call by call; the
    inductive relations \<open>mschap_run\<close> and \<open>pap_run\<close> say which reports and logs are possible, and
    rule induction gives what all of them guarantee. The theorems of this file carry this to the
    entry point: a success is backed by an authentic Accept for the very request it answers,
    failover follows explicit errors only, every request is well formed, PAP is bounded and drops
    the response to its eighth answer.
  \<^item> The user (Screen): the push notice reaches the application's conversation function before the
    first request and once, unless \<open>PAM_SILENT\<close> drops it, and nothing else does but the notice of an
    expired password.
  \<^item> The whole module (Module_Spec, Liveness): one decision for every audit backend, then exactly one
    record that agrees with the returned code, for every call; the only panic is a division, with
    one value of \<open>retries\<close> (\<open>every_call_recorded\<close>).
  \<^item> Time: an attempt over \<open>n\<close> servers takes at most \<open>n - 1\<close> times the cost of an unreachable server and
    one overall timeout (\<open>attempt_wall_clock\<close>). When no retransmission can fail, an unreachable
    server costs its probe window and this is the bound that \<open>udp.rs\<close> documents.
  \<^item> No panics: the receive path, the use of a response and the building of a request never index,
    slice, copy or compute out of bounds, for any datagram (Checked_Radius, Checked_Protocols).
  \<^item> Forgery: a replayed, altered or misdirected response that is accepted exhibits a collision of MD5
    and, with a Message-Authenticator, of HMAC-MD5; a reused proof of the server one of SHA-1.
  \<^item> Completeness: servers that follow the protocols, over the request octets, make an attempt with
    the right password succeed.
  \<^item> The codec and the transport (Radius_Properties), the protocols and the conversation
    (Protocol_Properties), the configuration and the audit trail (Service_Properties), the memory
    of the responses (Reply_Memory) and of the secrets (Secret_Memory): equivalence with a
    specification, round trips, bounds.
  \<^item> Demo, Demo_Clock: concrete systems on which the hypotheses are met and runs are evaluated.

  \<^bold>\<open>Bounds and fuel.\<close> The fuel of \<open>udp_exchange\<close> bounds its receive loop and its loop over
  interrupted sends. The clock advances with every receive and the overall timeout is a \<open>u32\<close> of
  seconds, so \<open>MAX_WAIT\<close> (\<open>2 ^ 32 * 10 ^ 9\<close> nanoseconds) is enough for every configuration
  (\<open>every_call_recorded\<close>); for one transport its own timeout is enough (\<open>exchange_terminates\<close>). The
  theorems on safety hold for every fuel. A PAP attempt answers at most eight challenges, a
  datagram holds at most 4096 octets, an attribute value at most 253.

  \<^bold>\<open>Not modelled.\<close>
  \<^item> The cryptographic primitives, which are third-party crates, and the constant running time of
    comparisons; a comparison is its result.
  \<^item> Copies of secrets on the stack and in registers. On the heap, the allocator and the \<open>zeroize\<close>
    crate are parameters of Secret_Memory, as is the first capacity of a collected vector, which the
    standard library does not document; it covers the two buffers that are filled in place.
  \<^item> Index panics outside the checked functions: the configuration parser and the audit renderer
    index nothing. The division in \<open>retransmit_interval\<close> is a panic of the model itself.
  \<^item> Tests, build scripts, packaging and documents.
\<close>

section \<open>Runs of the module\<close>

text \<open>The run of an attempt in the module's environment, with its log.\<close>

lemma module_attempt_explained:
  assumes "authenticate_report (module_env S fuel silent cf) ctx cf w = Returns rep w'"
  shows "\<exists>tr. authenticate_report (traced_env (module_env S fuel silent cf)) ctx cf (w, []) = Returns rep (w', tr) \<and>
    attempt_run (sys_crypto S) ctx cf rep tr"
  using pam.attempt_explained [OF assms] unfolding module_env_simps by metis

lemma traced_attempt_run:
  assumes "authenticate_report (traced_env (module_env S fuel silent cf)) ctx cf (w, []) = Returns rep (w', tr)"
  shows "attempt_run (sys_crypto S) ctx cf rep tr"
  using emitsD [OF pam.authenticate_report_run assms] unfolding module_env_simps by simp

lemma attempt_run_mschap:
  assumes "attempt_run K ctx cf rep tr" and "cf_protocol cf = Mschapv2"
  shows "mschap_run K ctx cf False (cf_servers cf) rep tr \<or> tr = [] \<and> rp_server rep = None \<and> rp_outcome rep \<noteq> PamSuccess"
  using assms by (auto simp: attempt_run_def split: if_splits)

lemma attempt_run_pap:
  assumes "attempt_run K ctx cf rep tr" and "cf_protocol cf = Pap"
  shows "pap_run K ctx cf (cf_servers cf) rep tr \<or> tr = [] \<and> rp_server rep = None \<and> rp_outcome rep \<noteq> PamSuccess"
  using assms by (auto simp: attempt_run_def split: if_splits)

text \<open>C1: A returned \<open>PAM_SUCCESS\<close> is always backed by the run that returned it: the user name is
  libpam's and not empty, the password is not empty, the configuration was loaded from the configured
  path, and the last event of the attempt's log is an Access-Accept from a configured server, authentic
  for the identifier and the fresh authenticator that the request just sent to it carries. That request
  is the one of the configured protocol for this user: with PAP it hides the password, or a code typed
  at a prompt, under its own authenticator; with MSCHAPv2 the server has also proved knowledge of the
  password for the two challenges drawn for it.\<close>

theorem success_backed:
  assumes "crypto_ok (sys_crypto S)" and "pam_sm_authenticate S fuel flags argv w = Returns PAM_SUCCESS w'"
  shows "\<exists>ctx cf rep tr. succeeded S fuel flags (module_args argv) w w' ctx cf rep tr \<and>
    ac_username ctx \<noteq> [] \<and> \<not> secret_string_is_empty (ac_password ctx) \<and> backed (sys_crypto S) ctx cf rep tr"
proof -
  obtain ctx cf rep tr where s: "succeeded S fuel flags (module_args argv) w w' ctx cf rep tr"
    using pam_sm_authenticate_success [OF assms(2)] by blast
  then obtain v v' where "authenticate_report (traced_env (module_env S fuel (flags AND PAM_SILENT \<noteq> 0) cf)) ctx cf (v, []) =
      Returns rep (v', tr)" "rp_outcome rep = PamSuccess"
    unfolding succeeded_def by blast
  from attempt_success [OF assms(1) traced_attempt_run [OF this(1)] this(2)] s show ?thesis by blast
qed

theorem success_backed_witness:
  "\<exists>ctx cf rep tr w'. succeeded demo_system (Suc (Suc 0)) PAM_SILENT [] [demo_pap_challenge, demo_pap_accept] w' ctx cf rep tr \<and>
     ac_username ctx \<noteq> [] \<and> backed flat_crypto ctx cf rep tr"
proof -
  have c: "sys_crypto demo_system = flat_crypto" by (simp add: demo_system_def)
  have K: "crypto_ok (sys_crypto demo_system)" using flat_crypto_ok c by simp
  obtain w' where "pam_sm_authenticate demo_system (Suc (Suc 0)) PAM_SILENT [] [demo_pap_challenge, demo_pap_accept] = Returns 0 w'"
    using demo_module_run by blast
  from success_backed [OF K this] show ?thesis unfolding c module_args.simps by blast
qed

text \<open>C2: The module refines its specification: there is one computation that decides and does not depend
  on the audit backend, its decisions always pair a code with a record that agrees with it, and with any
  audit backend the module is this computation followed by the emission of that one record.\<close>

theorem module_is_decision_then_record:
  "\<exists>D. gives D decision_ok \<and>
     (\<forall>A. sm_authenticate (S\<lparr>sys_audit := A\<rparr>) fuel flags args = seq D (emit_decision (S\<lparr>sys_audit := A\<rparr>)))"
proof (intro exI conjI allI)
  show "gives (sm_decide S fuel flags args) decision_ok" by (rule sm_decide_ok)
  show "sm_authenticate (S\<lparr>sys_audit := A\<rparr>) fuel flags args = seq (sm_decide S fuel flags args) (emit_decision (S\<lparr>sys_audit := A\<rparr>))" for A
    unfolding sm_authenticate_decides sm_decide_audit ..
qed

lemma sink_of_returns: "\<exists>w'. sink_of S b r w = Returns () w'"
  using syslog.emit_returns backend.emit_returns by (cases b) (simp_all add: sink_of_def)

lemma emit_decision_sink: "emit_decision S d = seq (sink_of S (de_backend d) (de_record d)) (\<lambda>_. ret (de_code d))"
  by (cases "de_backend d") (simp_all add: emit_decision_def sink_of_def syslog.emit_once_emits backend.emit_once_emits)

lemma emit_decision_returns:
  "emit_decision S d w = Returns code w' \<longleftrightarrow> code = de_code d \<and> sink_of S (de_backend d) (de_record d) w = Returns () w'"
  "\<exists>w'. emit_decision S d w = Returns (de_code d) w'"
  using sink_of_returns [of S "de_backend d" "de_record d" w] by (auto simp: emit_decision_sink seq_apply)

text \<open>A call that decides: its record is written, then its code is returned.\<close>

lemma decided_call:
  assumes "sm_decide S fuel flags (module_args argv) w = Returns d w1"
  shows "decision_ok d \<and> (\<exists>w2. sink_of S (de_backend d) (de_record d) w1 = Returns () w2 \<and>
    pam_sm_authenticate S fuel flags argv w = Returns (de_code d) w2)"
proof -
  obtain w2 where e: "emit_decision S d w1 = Returns (de_code d) w2" using emit_decision_returns(2) [of S d w1] by blast
  then have "sink_of S (de_backend d) (de_record d) w1 = Returns () w2" unfolding emit_decision_returns(1) by blast
  moreover have "pam_sm_authenticate S fuel flags argv w = Returns (de_code d) w2"
    using assms e by (simp add: pam_sm_authenticate_def sm_authenticate_decides catch_unwind_def seq_apply)
  ultimately show ?thesis using givesD [OF sm_decide_ok assms] by blast
qed

lemma panicked_call:
  "sm_decide S fuel flags (module_args argv) w = Panics w' \<Longrightarrow>
     pam_sm_authenticate S fuel flags argv w = Returns AUTHINFO_UNAVAIL w'"
  by (simp add: pam_sm_authenticate_def sm_authenticate_decides catch_unwind_def seq_apply)

lemma diverged_call:
  "sm_decide S fuel flags (module_args argv) w = Diverges \<Longrightarrow> pam_sm_authenticate S fuel flags argv w = Diverges"
  by (simp add: pam_sm_authenticate_def sm_authenticate_decides catch_unwind_def seq_apply)

text \<open>C3: Exactly one audit record for each returned code, and it agrees with it: whenever the entry
  point returns without a panic inside, its sink is given one record, after the decision, whose result
  is the class of the returned code and whose reason is \<open>success\<close> only for a success; after a panic the
  code is \<open>PAM_AUTHINFO_UNAVAIL\<close>.\<close>

theorem one_record_per_call:
  assumes "pam_sm_authenticate S fuel flags argv w = Returns code w'"
  shows "(\<exists>d w1. sm_decide S fuel flags (module_args argv) w = Returns d w1 \<and> decision_ok d \<and> code = de_code d \<and>
      sink_of S (de_backend d) (de_record d) w1 = Returns () w') \<or>
    sm_decide S fuel flags (module_args argv) w = Panics w' \<and> code = AUTHINFO_UNAVAIL"
proof (cases "sm_decide S fuel flags (module_args argv) w")
  case (Returns d w1)
  from decided_call [OF this] Returns assms show ?thesis by auto
next
  case (Panics w1)
  from panicked_call [OF this] Panics assms show ?thesis by simp
next
  case Diverges
  from diverged_call [OF this] assms show ?thesis by simp
qed

theorem one_record_per_call_witness:
  "(\<exists>d w1. sm_decide demo_system (Suc (Suc 0)) PAM_SILENT [] [demo_pap_challenge, demo_pap_accept] = Returns d w1 \<and>
      decision_ok d \<and> de_code d = 0)"
proof -
  obtain w' where "pam_sm_authenticate demo_system (Suc (Suc 0)) PAM_SILENT [] [demo_pap_challenge, demo_pap_accept] = Returns 0 w'"
    using demo_module_run by blast
  from one_record_per_call [OF this] show ?thesis by auto
qed

text \<open>C10: The audit backend never changes a decision: with another one, whatever it does, the entry
  point returns the same code on the same inputs.\<close>

theorem audit_never_decides:
  "(\<exists>w'. pam_sm_authenticate (S\<lparr>sys_audit := A\<rparr>) fuel flags argv w = Returns code w') \<longleftrightarrow>
   (\<exists>w'. pam_sm_authenticate S fuel flags argv w = Returns code w')"
proof -
  have r: "(\<exists>w'. pam_sm_authenticate S fuel flags argv w = Returns code w') \<longleftrightarrow>
      (\<exists>d w1. sm_decide S fuel flags (module_args argv) w = Returns d w1 \<and> code = de_code d) \<or>
      (\<exists>w1. sm_decide S fuel flags (module_args argv) w = Panics w1 \<and> code = AUTHINFO_UNAVAIL)" for S
  proof (cases "sm_decide S fuel flags (module_args argv) w")
    case (Returns d w1)
    obtain w2 where "emit_decision S d w1 = Returns (de_code d) w2" using emit_decision_returns(2) [of S d w1] by blast
    with Returns show ?thesis
      by (auto simp: pam_sm_authenticate_def sm_authenticate_decides catch_unwind_def seq_apply)
  qed (auto simp: pam_sm_authenticate_def sm_authenticate_decides catch_unwind_def seq_apply)
  show ?thesis unfolding r sm_decide_audit ..
qed

text \<open>C4: Every call is answered and recorded: for every behaviour of libpam, the file system, the audit
  backend and the servers, when the clock advances and a send is not interrupted for ever, the entry
  point returns a code after its sink was given one record that agrees with it. The only exception is
  a configuration with \<open>retries\<close> 4294967295, where it may return \<open>PAM_AUTHINFO_UNAVAIL\<close> without a record.\<close>

theorem every_call_recorded:
  assumes "clock_advances (sys_os S) clock" and "sends_return (sys_os S) fuel" and "2 ^ 32 * 10 ^ 9 \<le> fuel"
  shows "(\<exists>d w1 w'. sm_decide S fuel flags (module_args argv) w = Returns d w1 \<and> decision_ok d \<and>
      sink_of S (de_backend d) (de_record d) w1 = Returns () w' \<and>
      pam_sm_authenticate S fuel flags argv w = Returns (de_code d) w') \<or>
    (\<exists>cf v v' w'. load (sys_fs S) (op_config_path (parse_options (module_args argv))) v = Returns (Inr cf) v' \<and>
      cf_retries cf = 4294967295 \<and> pam_sm_authenticate S fuel flags argv w = Returns AUTHINFO_UNAVAIL w')"
proof (cases "sm_decide S fuel flags (module_args argv) w")
  case (Returns d w1)
  from decided_call [OF this] Returns show ?thesis by blast
next
  case (Panics w1)
  from sm_decide_panics [OF this] obtain cf v v' where
    "load (sys_fs S) (op_config_path (parse_options (module_args argv))) v = Returns (Inr cf) v'" "cf_retries cf = - 1"
    by (auto simp: add_eq_0_iff2)
  moreover have "(- 1 :: u32) = 4294967295" by simp
  ultimately show ?thesis using panicked_call [OF Panics] by metis
next
  case Diverges
  have "never Diverged (sm_decide S fuel flags (module_args argv))"
    by (intro sm_decide_never module_env_halts [OF assms])
  with Diverges show ?thesis by (simp add: never_iff)
qed

text \<open>A system on a network that never answers, whose only state is the clock.\<close>

definition tick_system :: "nat system" where
  "tick_system =
     \<lparr>sys_crypto = flat_crypto, sys_getrandom = (\<lambda>w. (Some (replicate 16 7), w)), sys_pam = demo_pam,
      sys_fs = demo_fs, sys_os = tick_os, sys_audit = demo_audit\<rparr>"

theorem every_call_recorded_witness:
  "\<exists>d w1 w'. sm_decide tick_system (2 ^ 32 * 10 ^ 9) 0 [] 0 = Returns d w1 \<and> decision_ok d \<and>
     pam_sm_authenticate tick_system (2 ^ 32 * 10 ^ 9) 0 [] 0 = Returns (de_code d) w'"
proof -
  have "clock_advances (sys_os tick_system) (\<lambda>w. w)" using tick_os_clock by (simp add: tick_system_def)
  moreover have "sends_return (sys_os tick_system) (2 ^ 32 * 10 ^ 9)" using tick_os_sends by (simp add: tick_system_def)
  moreover have "cf_retries cf \<noteq> 4294967295"
    if "load (sys_fs tick_system) (op_config_path (parse_options [])) v = Returns (Inr cf) v'" for cf v v'
    using that demo_load [OF demo_path, of v] by (auto simp: tick_system_def demo_config_def)
  ultimately show ?thesis
    using every_call_recorded [of tick_system "\<lambda>w. w" "2 ^ 32 * 10 ^ 9" 0 "[]" 0] by auto
qed

section \<open>The conduct of an attempt\<close>

text \<open>C6: MSCHAPv2 failover: the servers are contacted in the configured order, each at most once, and the
  next one only after the previous one was unreachable; the report names the server that gave the last
  other answer, and names none only when every server was unreachable or none was contacted.\<close>

theorem mschap_failover:
  assumes "authenticate_report (module_env S fuel silent cf) ctx cf w = Returns rep w'" and "cf_protocol cf = Mschapv2"
  shows "\<exists>tr. authenticate_report (traced_env (module_env S fuel silent cf)) ctx cf (w, []) = Returns rep (w', tr) \<and>
    failover_order (map sv_addr (cf_servers cf)) (exchanged tr) \<and>
    (exchanged tr \<noteq> [] \<and> snd (snd (last (exchanged tr))) \<noteq> Inl Unreachable \<longrightarrow>
       rp_server rep = Some (fst (last (exchanged tr)))) \<and>
    (rp_server rep = None \<longrightarrow>
       rep = report_of PamUnavail REASON_ALL_UNREACHABLE \<and> all_unreachable (map sv_addr (cf_servers cf)) (exchanged tr) \<or>
       exchanged tr = [] \<and> rp_outcome rep \<noteq> PamSuccess)"
proof -
  obtain tr where tr: "authenticate_report (traced_env (module_env S fuel silent cf)) ctx cf (w, []) = Returns rep (w', tr)"
    and run: "attempt_run (sys_crypto S) ctx cf rep tr"
    using module_attempt_explained [OF assms(1)] by blast
  from attempt_run_mschap [OF run assms(2)] show ?thesis
  proof (elim disjE)
    assume "mschap_run (sys_crypto S) ctx cf False (cf_servers cf) rep tr"
    from mschap_run_order [OF this] tr show ?thesis by (intro exI [of _ tr] conjI) simp_all
  qed (use tr in \<open>intro exI [of _ tr], simp\<close>)
qed

theorem mschap_failover_witness:
  "\<exists>tr. failover_order [sv_addr demo_server] (exchanged tr) \<and>
     authenticate_report (traced_env (demo_env Mschapv2)) demo_ctx (demo_config Mschapv2) ([demo_mschap_accept], []) =
       Returns (with_server (report_of PamSuccess REASON_SUCCESS) (sv_addr demo_server)) ([], tr)"
  using mschap_failover [OF demo_mschap_run demo_ctx_ok(4)] by (auto simp: demo_ctx_ok)

text \<open>C7: Before the first MSCHAPv2 request is sent the conversation has taken the notice to expect a push,
  and it is given it at most once in an attempt, whatever the failover; nothing is ever asked, and the
  only other text is the notice of an expired password. Without \<open>PAM_SILENT\<close> the application's
  conversation function is handed exactly these notices, whole, as \<open>PAM_TEXT_INFO\<close> and in the order of
  the log: the push notice before the first request and at most once. With \<open>PAM_SILENT\<close> it is handed
  nothing. \<open>seen\<close> is what the application remembers of the messages it was handed.\<close>

theorem mschap_notice:
  assumes "authenticate_report (module_env S fuel silent cf) ctx cf w = Returns rep w'" and "cf_protocol cf = Mschapv2"
    and "remembers S seen"
  shows "\<exists>tr ms. authenticate_report (traced_env (module_env S fuel silent cf)) ctx cf (w, []) = Returns rep (w', tr) \<and>
    told_first tr \<and> length (filter ((=) PUSH_NOTICE) (informed tr)) \<le> 1 \<and>
    set (informed tr) \<subseteq> {PUSH_NOTICE, PASSWORD_EXPIRED_NOTICE} \<and> prompted tr = [] \<and>
    seen w' = seen w @ ms \<and> handed silent tr ms \<and> (silent \<longrightarrow> ms = []) \<and>
    (\<not> silent \<and> exchanged tr \<noteq> [] \<longrightarrow> notice_message PUSH_NOTICE \<in> set ms) \<and>
    length (filter ((=) (notice_message PUSH_NOTICE)) ms) \<le> 1 \<and>
    set ms \<subseteq> {notice_message PUSH_NOTICE, notice_message PASSWORD_EXPIRED_NOTICE}"
proof -
  obtain tr where tr: "authenticate_report (traced_env (module_env S fuel silent cf)) ctx cf (w, []) = Returns rep (w', tr)"
    and run: "attempt_run (sys_crypto S) ctx cf rep tr"
    using module_attempt_explained [OF assms(1)] by blast
  have log: "told_first tr \<and> length (filter ((=) PUSH_NOTICE) (informed tr)) \<le> 1 \<and>
      set (informed tr) \<subseteq> {PUSH_NOTICE, PASSWORD_EXPIRED_NOTICE} \<and> prompted tr = []"
    using attempt_run_mschap [OF run assms(2)]
  proof (elim disjE)
    assume "mschap_run (sys_crypto S) ctx cf False (cf_servers cf) rep tr"
    from mschap_run_notice [OF this] show ?thesis by auto
  qed simp
  obtain ms where ms: "seen w' = seen w @ ms" "handed silent tr ms"
    using screen.attempt_observed [OF tr, of seen] assms(3) by (auto simp: on_screen_def)
  show ?thesis using tr log ms notice_messages [of silent tr ms] by blast
qed

text \<open>Two servers are tried, one notice is shown.\<close>

theorem mschap_notice_witness:
  "\<exists>tr. told_first tr \<and> handed False tr [notice_message PUSH_NOTICE] \<and>
     authenticate_report (traced_env (net_env False Mschapv2)) demo_ctx (net_config Mschapv2) (net_start, []) =
       Returns (with_server (report_of PamUnavail REASON_TIMEOUT) (sv_addr demo_server)) (net_end [notice_message PUSH_NOTICE], tr)"
  using mschap_notice [OF net_mschap_run net_servers(2) net_remembers] by (auto simp: net_start_def net_end_def)

text \<open>C8: Every request sent is a well-formed Access-Request of at most 4096 octets to a configured server,
  with a Message-Authenticator that is valid under the secret of that server and the attributes of the
  configured protocol only: with MSCHAPv2 the password never travels in a User-Password. Every request
  has its own Request Authenticator, fresh from the random source.\<close>

theorem requests_well_formed:
  assumes "crypto_ok (sys_crypto S)" and "authenticate_report (module_env S fuel silent cf) ctx cf w = Returns rep w'"
  shows "\<exists>tr. authenticate_report (traced_env (module_env S fuel silent cf)) ctx cf (w, []) = Returns rep (w', tr) \<and>
    list_all (\<lambda>(s, b, r). list_ex (\<lambda>sv. s = sv_addr sv \<and>
      request_ok (sys_crypto S) (secret_of sv) (case cf_protocol cf of Mschapv2 \<Rightarrow> MSCHAP_TYPES | Pap \<Rightarrow> PAP_TYPES) b)
      (cf_servers cf)) (exchanged tr) \<and>
    fresh_requests tr"
proof -
  obtain tr where tr: "authenticate_report (traced_env (module_env S fuel silent cf)) ctx cf (w, []) = Returns rep (w', tr)"
    and run: "attempt_run (sys_crypto S) ctx cf rep tr"
    using module_attempt_explained [OF assms(2)] by blast
  show ?thesis
  proof (cases "cf_protocol cf")
    case Mschapv2
    from attempt_run_mschap [OF run this] mschap_run_requests [OF assms(1)] mschap_run_fresh [OF assms(1)]
    show ?thesis using tr unfolding Mschapv2 by (intro exI [of _ tr]) (auto simp: fresh_requests_quiet)
  next
    case Pap
    from attempt_run_pap [OF run this] pap_run_conversation [OF assms(1)] pap_run_fresh [OF assms(1)]
    show ?thesis using tr unfolding Pap by (intro exI [of _ tr]) (auto simp: fresh_requests_quiet)
  qed
qed

theorem requests_well_formed_witness:
  "\<exists>tr. fresh_requests tr \<and> authenticate_report (traced_env (demo_env Mschapv2)) demo_ctx (demo_config Mschapv2)
     ([demo_mschap_accept], []) = Returns (with_server (report_of PamSuccess REASON_SUCCESS) (sv_addr demo_server)) ([], tr)"
proof -
  have K: "crypto_ok (sys_crypto demo_system)" using flat_crypto_ok by (simp add: demo_system_def)
  show ?thesis using requests_well_formed [OF K demo_mschap_run] by blast
qed

text \<open>C9: A PAP attempt fails over like an MSCHAPv2 one until a server answers; after that it stays with
  that server: each further request echoes the State of the Access-Challenge before it, at most eight
  codes are asked for, each with a printable prompt that is not empty, and no notice is shown.\<close>

theorem pap_conversation_bound:
  assumes "crypto_ok (sys_crypto S)" and "authenticate_report (module_env S fuel silent cf) ctx cf w = Returns rep w'"
    and "cf_protocol cf = Pap"
  shows "\<exists>tr. authenticate_report (traced_env (module_env S fuel silent cf)) ctx cf (w, []) = Returns rep (w', tr) \<and>
    pap_conversation (map sv_addr (cf_servers cf)) (exchanged tr) \<and> length (prompted tr) \<le> 8 \<and>
    list_all (\<lambda>p. printable p \<and> p \<noteq> []) (prompted tr) \<and> informed tr = []"
proof -
  obtain tr where tr: "authenticate_report (traced_env (module_env S fuel silent cf)) ctx cf (w, []) = Returns rep (w', tr)"
    and run: "attempt_run (sys_crypto S) ctx cf rep tr"
    using module_attempt_explained [OF assms(2)] by blast
  from attempt_run_pap [OF run assms(3)] show ?thesis
  proof (elim disjE)
    assume "pap_run (sys_crypto S) ctx cf (cf_servers cf) rep tr"
    from pap_run_conversation [OF assms(1) this] tr show ?thesis by blast
  qed (use tr in \<open>intro exI [of _ tr], simp add: pap_conversation_first\<close>)
qed

theorem pap_conversation_bound_witness:
  "\<exists>tr. length (prompted tr) \<le> 8 \<and> authenticate_report (traced_env (demo_env Pap)) demo_ctx (demo_config Pap)
     ([demo_pap_challenge, demo_pap_accept], []) =
       Returns (with_server (report_of PamSuccess REASON_SUCCESS) (sv_addr demo_server)) ([], tr)"
proof -
  have K: "crypto_ok (sys_crypto demo_system)" using flat_crypto_ok by (simp add: demo_system_def)
  show ?thesis using pap_conversation_bound [OF K demo_pap_run demo_ctx_ok(4)] by blast
qed

text \<open>C40: The response to the eighth answer is received and accepted but never examined: a PAP attempt is
  denied with \<open>max_rounds\<close> exactly when eight codes were asked for and its last event is an exchange that
  returned an accepted response, whatever that response says, an Access-Accept included.\<close>

theorem eighth_answer_lost:
  assumes "authenticate_report (module_env S fuel silent cf) ctx cf w = Returns rep w'" and "cf_protocol cf = Pap"
  shows "\<exists>tr. authenticate_report (traced_env (module_env S fuel silent cf)) ctx cf (w, []) = Returns rep (w', tr) \<and>
    (rp_reason rep = REASON_MAX_ROUNDS \<longleftrightarrow> length (prompted tr) = 8 \<and> answered_last tr) \<and>
    (rp_reason rep = REASON_MAX_ROUNDS \<longrightarrow> rp_outcome rep = PamAuthErr)"
proof -
  obtain tr where tr: "authenticate_report (traced_env (module_env S fuel silent cf)) ctx cf (w, []) = Returns rep (w', tr)"
    and run: "attempt_run (sys_crypto S) ctx cf rep tr"
    using module_attempt_explained [OF assms(1)] by blast
  show ?thesis
  proof (cases "pap_run (sys_crypto S) ctx cf (cf_servers cf) rep tr")
    case True
    from pap_run_exhausted [OF this] tr show ?thesis by blast
  next
    case False
    then have "tr = []" "rp_reason rep \<noteq> REASON_MAX_ROUNDS"
      using run assms(2) by (auto simp: attempt_run_def report_of_def split: if_splits)
    with tr show ?thesis by (intro exI [of _ tr]) (simp add: answered_last_def)
  qed
qed

text \<open>A server that challenges eight times and then accepts: the Accept is the last event, and the login is denied.\<close>

theorem eighth_answer_lost_witness:
  "\<exists>pre b tr rep. authenticate_report (traced_env (demo_env Pap)) demo_ctx (demo_config Pap)
     (replicate 8 demo_pap_challenge @ [demo_pap_accept], []) = Returns rep ([], tr) \<and>
     tr = pre @ [EvExchange (sv_addr demo_server) b (Inr demo_pap_accept)] \<and>
     rp_reason rep = REASON_MAX_ROUNDS \<and> rp_outcome rep = PamAuthErr"
proof -
  obtain pre b tr rep where run: "authenticate_report (traced_env (demo_env Pap)) demo_ctx (demo_config Pap)
       (replicate 8 demo_pap_challenge @ [demo_pap_accept], []) = Returns rep ([], tr)"
      "length (prompted tr) = 8" "tr = pre @ [EvExchange (sv_addr demo_server) b (Inr demo_pap_accept)]"
    using demo_logged_eight by blast
  then have "answered_last tr" by (auto simp: answered_last_def)
  have "authenticate_report (demo_env Pap) demo_ctx (demo_config Pap) (replicate 8 demo_pap_challenge @ [demo_pap_accept]) =
      Returns rep []"
    using simulates_authenticate_report [of "demo_env Pap" demo_ctx "demo_config Pap"] run(1)
    unfolding simulates_def by (metis erase.simps(1) fst_conv)
  from eighth_answer_lost [OF this demo_ctx_ok(4)] run \<open>answered_last tr\<close> show ?thesis by auto
qed

section \<open>How long an attempt takes\<close>

text \<open>
  What the module's environment may take, in nanoseconds: a draw \<open>rnd\<close>, a notice \<open>info\<close>, a prompt
  \<open>ask\<close> with the user's typing, and each exchange what its configuration gives.
\<close>

definition module_costs :: "'w system \<Rightarrow> config \<Rightarrow> nat \<Rightarrow> nat \<Rightarrow> nat \<Rightarrow> nat \<Rightarrow> costs" where
  "module_costs S cf rnd info ask eps =
     (let wait = unat (cf_timeout cf) * 10 ^ 9 + 10 ^ 6 + 8 * eps;
          probe = unat (cf_probe_timeout cf) * 10 ^ 9 + 4 * eps
      in \<lparr>co_random = rnd, co_info = info, co_ask = ask,
          co_probe = (if quiet_resends (sys_os S) (cf_retries cf) then min probe wait else wait),
          co_wait = wait\<rparr>)"

lemma module_env_takes:
  assumes "punctual (sys_os S) clock eps" and "within clock (getrandom_16 (sys_getrandom S)) rnd"
    and "\<And>t. within clock (cv_info (pam_conversation (sys_pam S) silent) t) info"
    and "\<And>t. within clock (cv_prompt_echo_off (pam_conversation (sys_pam S) silent) t) ask"
  shows "env_takes clock (module_env S fuel silent cf) (module_costs S cf rnd info ask eps)"
proof -
  let ?t = "from_config (cf_probe_timeout cf) (cf_timeout cf) (cf_retries cf) (cf_source_ip cf)"
  let ?c = "module_costs S cf rnd info ask eps"
  have cost: "exchange_cost (sys_os S) ?t eps r \<le> (if r = Inl Unreachable then co_probe ?c else co_wait ?c)" for r
    by (simp add: exchange_cost_def probe_cost_def wait_cost_def module_costs_def from_config_def udp_transport_new_def
        from_secs_def MIN_READ_TIMEOUT_def from_millis_def Let_def)
  have "clock w' \<le> clock w + (if r = Inl Unreachable then co_probe ?c else co_wait ?c)"
    if "udp_exchange (sys_os S) fuel ?t s b a w = Returns r w'" for s b a w r w'
    using udp_exchange_punctual [OF assms(1) that] cost [of r] by linarith
  moreover have "co_random ?c = rnd" "co_info ?c = info" "co_ask ?c = ask" "co_probe ?c \<le> co_wait ?c"
    by (simp_all add: module_costs_def Let_def)
  ultimately show ?thesis
    using assms(2-) by (simp add: env_takes_def)
qed

text \<open>C5: The wall clock of an attempt: over \<open>n\<close> servers, an MSCHAPv2 attempt takes at most \<open>n - 1\<close> times
  the cost of an unreachable server, once the overall timeout, and the draws and notices between
  them; a PAP attempt in addition at most eight answers with their exchanges. An unreachable server
  costs the probe window only when no retransmission can fail explicitly (\<open>quiet_resends\<close>), and
  otherwise as much as the overall timeout. Each cost includes the latency of the system calls.\<close>

theorem attempt_wall_clock:
  assumes "punctual (sys_os S) clock eps" and "within clock (getrandom_16 (sys_getrandom S)) rnd"
    and "\<And>t. within clock (cv_info (pam_conversation (sys_pam S) silent) t) info"
    and "\<And>t. within clock (cv_prompt_echo_off (pam_conversation (sys_pam S) silent) t) ask"
    and "authenticate_report (module_env S fuel silent cf) ctx cf w = Returns rep w'"
  shows "let c = module_costs S cf rnd info ask eps; n = length (cf_servers cf) in
    clock w' \<le> clock w + (n - 1) * co_probe c + co_wait c +
      (case cf_protocol cf of
         Mschapv2 \<Rightarrow> n * (3 * rnd + info) + info
       | Pap \<Rightarrow> n * rnd + 8 * (ask + rnd + co_wait c))"
proof -
  have "co_random c = rnd \<and> co_info c = info \<and> co_ask c = ask" if "c = module_costs S cf rnd info ask eps" for c
    using that by (simp add: module_costs_def Let_def)
  with withinD [OF authenticate_report_takes [OF module_env_takes [OF assms(1-4)]] assms(5)]
  show ?thesis
    by (simp add: Let_def mschap_cost_def pap_cost_def pap_round_cost_def split: protocol.splits)
qed

text \<open>
  Two servers, of which the first refuses within its probe window of 5 s and the second is silent
  through its 60 s, with both protocols: the attempts end 61.25 s after they began.
\<close>

theorem attempt_wall_clock_witness:
  "(\<exists>rep ms. authenticate_report (net_env False Mschapv2) demo_ctx (net_config Mschapv2) net_start = Returns rep (net_end ms) \<and>
      nt_clock (net_end ms) \<le> 5 * 10 ^ 9 + (60 * 10 ^ 9 + 10 ^ 6)) \<and>
   (\<exists>rep ms. authenticate_report (net_env False Pap) demo_ctx (net_config Pap) net_start = Returns rep (net_end ms) \<and>
      nt_clock (net_end ms) \<le> 5 * 10 ^ 9 + 9 * (60 * 10 ^ 9 + 10 ^ 6))"
proof -
  have c: "cf_timeout (net_config p) = 60" "cf_probe_timeout (net_config p) = 5" "length (cf_servers (net_config p)) = 2"
      "nt_clock net_start = 0" for p
    by (simp_all add: net_config_def demo_config_def net_start_def)
  note bound = attempt_wall_clock [OF net_punctual net_within]
  show ?thesis
    using bound [OF net_mschap_run] net_mschap_run bound [OF net_pap_run] net_pap_run
    by (simp add: module_costs_def net_quiet c net_servers(2) Let_def) blast
qed

section \<open>Success with an honest server\<close>

lemma honest_env_crypto [simp]: "env_crypto (honest_env K reply) = K"
  by (simp add: honest_env_def)

text \<open>C11: MSCHAPv2 is complete: when the random source works, the notice can be shown and the first server
  follows the protocol and knows the same password, the attempt succeeds with that server.\<close>

theorem mschap_succeeds:
  assumes "crypto_ok (env_crypto E)" and "hmac_total (env_crypto E)"
    and "cf_protocol cf = Mschapv2" and "cf_servers cf = sv # svs"
    and "ac_username ctx \<noteq> []" and "expose_secret (ac_password ctx) \<noteq> []"
    and "\<And>a b. length a = 22 \<Longrightarrow> length b = 56 \<Longrightarrow>
      request_fits ([(USER_NAME, as_bytes (ac_username ctx)), (VENDOR_SPECIFIC, a), (VENDOR_SPECIFIC, b)] @ nas_attrs cf)"
    and "helpful E (sv_addr sv) (mschap_server (env_crypto E) (secret_of sv) (expose_secret (ac_password ctx)))"
  shows "\<exists>w'. authenticate_report E ctx cf w = Returns (with_server (report_of PamSuccess REASON_SUCCESS) (sv_addr sv)) w'"
  using assms by (rule mschap_complete)

theorem mschap_succeeds_witness:
  "\<exists>w'. authenticate_report (honest_env demo_crypto (mschap_server demo_crypto (secret_of demo_server) (lit ''p'')))
     demo_ctx (demo_config Mschapv2) 0 = Returns (with_server (report_of PamSuccess REASON_SUCCESS) (sv_addr demo_server)) w'"
proof (rule mschap_succeeds)
  show "request_fits ([(USER_NAME, as_bytes (ac_username demo_ctx)), (VENDOR_SPECIFIC, a), (VENDOR_SPECIFIC, b)] @
      nas_attrs (demo_config Mschapv2))" if "length a = 22" "length b = 56" for a b
    using that by (simp add: demo_utf8 demo_nas request_fits_def fits_def)
next
  show "helpful (honest_env demo_crypto (mschap_server demo_crypto (secret_of demo_server) (lit ''p''))) (sv_addr demo_server)
      (mschap_server (env_crypto (honest_env demo_crypto (mschap_server demo_crypto (secret_of demo_server) (lit ''p''))))
        (secret_of demo_server) (expose_secret (ac_password demo_ctx)))"
    using honest_env_helpful by (simp add: demo_ctx_def expose_secret_def)
qed (simp_all add: demo_ctx_ok demo_crypto_ok demo_hmac_total demo_ctx_def [unfolded lit_def] expose_secret_def)

text \<open>C12: PAP is exact: with a first server that follows the protocol the attempt succeeds if the
  padded passwords are equal, and is denied with \<open>reject\<close> otherwise.\<close>

theorem pap_decides:
  assumes "crypto_ok (env_crypto E)" and "hmac_total (env_crypto E)"
    and "cf_protocol cf = Pap" and "cf_servers cf = sv # svs"
    and "ac_username ctx \<noteq> []" and "expose_secret (ac_password ctx) \<noteq> []"
    and "length (as_bytes (expose_secret (ac_password ctx))) \<le> 128"
    and "\<And>h. length h \<le> 128 \<Longrightarrow> request_fits (pap_attrs (ac_username ctx) h cf)"
    and "helpful E (sv_addr sv) (pap_server (env_crypto E) (secret_of sv) pw)"
  shows "\<exists>w'. authenticate_report E ctx cf w =
    Returns (with_server
      (if pad_password (as_bytes (expose_secret (ac_password ctx))) = pad_password (as_bytes pw)
       then report_of PamSuccess REASON_SUCCESS else report_of PamAuthErr REASON_REJECT) (sv_addr sv)) w'"
  using assms by (rule pap_complete)

theorem pap_decides_witness:
  "\<exists>w'. authenticate_report (honest_env demo_crypto (pap_server demo_crypto (secret_of demo_server) (lit ''q'')))
     demo_ctx (demo_config Pap) 0 = Returns (with_server (report_of PamAuthErr REASON_REJECT) (sv_addr demo_server)) w'"
proof -
  have q: "as_bytes (lit ''q'') = [113]" by (simp add: lit_def as_bytes_def utf8_char_def as_u8_def)
  have ne: "pad_password (as_bytes (expose_secret (ac_password demo_ctx))) \<noteq> pad_password (as_bytes (lit ''q''))"
    unfolding demo_utf8 q by (simp add: pad_password_def)
  have pw: "expose_secret (ac_password demo_ctx) \<noteq> []" by (simp add: demo_ctx_def expose_secret_def lit_def)
  have fit: "request_fits (pap_attrs (ac_username demo_ctx) h (demo_config Pap))" if "length h \<le> 128" for h
    using that by (simp add: pap_attrs_def demo_utf8 demo_nas request_fits_def fits_def)
  show ?thesis
    using pap_decides [of "honest_env demo_crypto (pap_server demo_crypto (secret_of demo_server) (lit ''q''))" "demo_config Pap"
        demo_server "[]" demo_ctx "lit ''q''" 0] ne pw fit honest_env_helpful
    by (simp add: demo_ctx_ok demo_crypto_ok demo_hmac_total demo_utf8)
qed

end
